theory Spec2Isabelle
  imports Complex_Main "HOL-Library.Word"
begin

section \<open>JavaScript strings\<close>

text \<open>
  A JavaScript string is a sequence of UTF-16 code units.  String literals of the
  source that are plain ASCII are written with \<open>js\<close>.
\<close>

type_synonym jsstring = "16 word list"

definition js :: "string \<Rightarrow> jsstring" where
  "js s = map of_char s"

text \<open>
  The class \<open>\s\<close> of regular expressions, which is also the set of code units that
  \<open>String.prototype.trim\<close> strips (WhiteSpace and LineTerminator of ECMAScript).
\<close>

definition isWhiteSpace :: "16 word \<Rightarrow> bool" where
  "isWhiteSpace c =
     (c = 0x09 \<or> c = 0x0A \<or> c = 0x0B \<or> c = 0x0C \<or> c = 0x0D \<or> c = 0x20 \<or>
      c = 0xA0 \<or> c = 0x1680 \<or> (0x2000 \<le> c \<and> c \<le> 0x200A) \<or>
      c = 0x2028 \<or> c = 0x2029 \<or> c = 0x202F \<or> c = 0x205F \<or> c = 0x3000 \<or> c = 0xFEFF)"

definition trimStart :: "jsstring \<Rightarrow> jsstring" where
  "trimStart s = dropWhile isWhiteSpace s"

definition trimEnd :: "jsstring \<Rightarrow> jsstring" where
  "trimEnd s = rev (dropWhile isWhiteSpace (rev s))"

definition trim :: "jsstring \<Rightarrow> jsstring" where
  "trim s = trimEnd (trimStart s)"

text \<open>
  \<open>String.prototype.toLowerCase\<close>, on the ASCII letters: the code units \<open>A\<close> to \<open>Z\<close>
  are mapped to \<open>a\<close> to \<open>z\<close>.  Code units outside ASCII are left as they are; every
  label and word list that the modelled code compares a lowered string with is ASCII.
\<close>

definition lowerUnit :: "16 word \<Rightarrow> 16 word" where
  "lowerUnit c = (if 0x41 \<le> c \<and> c \<le> 0x5A then c + 0x20 else c)"

definition toLowerCase :: "jsstring \<Rightarrow> jsstring" where
  "toLowerCase s = map lowerUnit s"

text \<open>
  A property read from a JSON object is missing (\<open>None\<close>) or a string.  The idiom
  \<open>(x || '').toString()\<close> of the source gives the empty string for a missing property
  (and for the empty string, which is falsy as well).
\<close>

definition orEmpty :: "jsstring option \<Rightarrow> jsstring" where
  "orEmpty x = (case x of None \<Rightarrow> [] | Some s \<Rightarrow> s)"

text \<open>\<open>x || d\<close> on an optional string: the default replaces a missing or empty value.\<close>

definition orDefault :: "jsstring option \<Rightarrow> jsstring \<Rightarrow> jsstring" where
  "orDefault x d = (case x of None \<Rightarrow> d | Some s \<Rightarrow> (if s = [] then d else s))"

section \<open>Findings\<close>

text \<open>
  The objects that carry one finding through the pipeline: the issue as the model
  returns it (\<open>severity\<close>, \<open>law_reference\<close>, \<open>violation\<close>, \<open>evidence\<close>, \<open>guidance\<close>,
  \<open>recommended_fix\<close>, ...) and the violation as the result lists it (\<open>regulation\<close>,
  \<open>description\<close>, \<open>problematicContent\<close>, \<open>suggestion\<close>, \<open>solution\<close>, \<open>index\<close>).  The
  source builds one from the other with object spread, so both are one record whose
  fields may be missing.
\<close>

record finding =
  severity :: "jsstring option"
  law_reference :: "jsstring option"
  regulation :: "jsstring option"
  rule_pack :: "jsstring option"
  violation :: "jsstring option"
  description :: "jsstring option"
  evidence :: "jsstring option"
  evidence_line :: "jsstring option"
  guidance :: "jsstring option"
  recommended_fix :: "jsstring option"
  recommendation :: "jsstring option"
  fixed_line :: "jsstring option"
  fixed_line_b :: "jsstring option"
  problematicContent :: "jsstring option"
  suggestion :: "jsstring option"
  solution :: "jsstring option"
  index :: "nat option"

definition emptyFinding :: finding where
  "emptyFinding = \<lparr> severity = None, law_reference = None, regulation = None,
     rule_pack = None, violation = None, description = None, evidence = None,
     evidence_line = None, guidance = None, recommended_fix = None,
     recommendation = None, fixed_line = None, fixed_line_b = None,
     problematicContent = None, suggestion = None, solution = None, index = None \<rparr>"

section \<open>Language classifier\<close>

text \<open>
  \<open>detectContentLanguage\<close> of \<open>services/auditService.js\<close> and of
  \<open>services/openaiClient.js\<close> (the two copies are the same code): count the code units
  in the Devanagari block (U+0900 to U+097F) and those matching \<open>[A-Za-z]\<close>.
\<close>

definition isDevanagari :: "16 word \<Rightarrow> bool" where
  "isDevanagari c = (0x0900 \<le> c \<and> c \<le> 0x097F)"

definition isLatinLetter :: "16 word \<Rightarrow> bool" where
  "isLatinLetter c = ((0x41 \<le> c \<and> c \<le> 0x5A) \<or> (0x61 \<le> c \<and> c \<le> 0x7A))"

definition countMatches :: "(16 word \<Rightarrow> bool) \<Rightarrow> jsstring \<Rightarrow> nat" where
  "countMatches p s = length (filter p s)"

definition detectContentLanguage :: "jsstring \<Rightarrow> jsstring" where
  "detectContentLanguage text =
     (let s = text;
          devanagari = countMatches isDevanagari s;
          latin = countMatches isLatinLetter s
      in if devanagari \<ge> 20 \<and> devanagari \<ge> latin then js ''hi'' else js ''en'')"

section \<open>Deterministic risk scorer\<close>

text \<open>
  \<open>calculateDeterministicRiskScore\<close>: the loop body, then the loop as a fold over the
  violations, then the clamp.  The copy in \<open>services/openaiClient.js\<close> defaults a missing
  severity to \<open>'Medium'\<close>, the copy in \<open>services/contentAuditService.js\<close> to \<open>'medium'\<close>, and
  the inline copy in \<open>runRewriteAudit\<close> (\<open>services/auditService.js\<close>) to \<open>''\<close>.
\<close>

definition severityPenalty :: "jsstring \<Rightarrow> int" where
  "severityPenalty sev =
     (if sev = js ''critical'' \<or> sev = js ''high'' then 20
      else if sev = js ''medium'' then 10
      else if sev = js ''low'' then 5
      else 10)"

definition scoreStep :: "jsstring \<Rightarrow> int \<Rightarrow> finding \<Rightarrow> int" where
  "scoreStep dflt score v = score - severityPenalty (toLowerCase (orDefault (severity v) dflt))"

definition scoreWithDefault :: "jsstring \<Rightarrow> finding list \<Rightarrow> int" where
  "scoreWithDefault dflt violations =
     (if length violations = 0 then 100
      else min 100 (max 0 (foldl (scoreStep dflt) 100 violations)))"

definition calculateDeterministicRiskScore :: "finding list \<Rightarrow> int" where
  "calculateDeterministicRiskScore violations = scoreWithDefault (js ''Medium'') violations"

definition calculateDeterministicRiskScore_content :: "finding list \<Rightarrow> int" where
  "calculateDeterministicRiskScore_content violations = scoreWithDefault (js ''medium'') violations"

definition risk_score_rewrite :: "finding list \<Rightarrow> int" where
  "risk_score_rewrite normalizedViolations = scoreWithDefault [] normalizedViolations"

text \<open>The penalty of a lowered label, with \<open>medium\<close> and every other label at 10.\<close>

definition labelPenalty :: "jsstring \<Rightarrow> int" where
  "labelPenalty l =
     (if l = js ''critical'' \<or> l = js ''high'' then 20 else if l = js ''low'' then 5 else 10)"

text \<open>The severity label that the scorer compares, and the counts of the formula.\<close>

definition severityLabel :: "finding \<Rightarrow> jsstring" where
  "severityLabel v = toLowerCase (orEmpty (severity v))"

definition countLabel :: "jsstring list \<Rightarrow> finding list \<Rightarrow> int" where
  "countLabel labels vs = int (length (filter (\<lambda>v. severityLabel v \<in> set labels) vs))"

definition countUnrecognized :: "finding list \<Rightarrow> int" where
  "countUnrecognized vs =
     int (length (filter (\<lambda>v. severityLabel v \<notin>
        set [js ''critical'', js ''high'', js ''medium'', js ''low'']) vs))"

section \<open>Risk level and compliance status\<close>

text \<open>
  The level and the status of \<open>runOpenAIAudit\<close> (\<open>services/openaiClient.js\<close>, in the
  cache hit and in \<open>finalResult\<close>) and of \<open>runRewriteAudit\<close>
  (\<open>services/auditService.js\<close>), which are the same two conditional expressions.
\<close>

definition deterministicRiskLevel :: "int \<Rightarrow> jsstring" where
  "deterministicRiskLevel deterministicRiskScore =
     (if deterministicRiskScore \<ge> 70 then js ''High''
      else if deterministicRiskScore \<ge> 40 then js ''Medium'' else js ''Low'')"

definition complianceStatus :: "int \<Rightarrow> jsstring" where
  "complianceStatus deterministicRiskScore =
     (if deterministicRiskScore \<ge> 70 then js ''NON_COMPLIANT'' else js ''COMPLIANT'')"

text \<open>\<open>String.prototype.toUpperCase\<close>, on the ASCII letters (as \<open>toLowerCase\<close> above).\<close>

definition upperUnit :: "16 word \<Rightarrow> 16 word" where
  "upperUnit c = (if 0x61 \<le> c \<and> c \<le> 0x7A then c - 0x20 else c)"

definition toUpperCase :: "jsstring \<Rightarrow> jsstring" where
  "toUpperCase s = map upperUnit s"

text \<open>
  \<open>normalizeRiskLevel\<close> of \<open>services/contentAuditService.js\<close> and
  \<open>mapRiskLevelToStatus\<close> of \<open>controllers/contentAuditController.js\<close>, which the
  controller applies to the level of the content audit.
\<close>

definition normalizeRiskLevel :: "jsstring option \<Rightarrow> int \<Rightarrow> jsstring" where
  "normalizeRiskLevel level score =
     (let normalized = toUpperCase (orEmpty level)
      in if normalized \<in> set [js ''LOW'', js ''MEDIUM'', js ''HIGH''] then normalized
         else if score \<ge> 70 then js ''HIGH''
         else if score \<ge> 40 then js ''MEDIUM''
         else js ''LOW'')"

definition mapRiskLevelToStatus :: "jsstring \<Rightarrow> jsstring" where
  "mapRiskLevelToStatus riskLevel =
     (if riskLevel = js ''HIGH'' then js ''NON_COMPLIANT''
      else if riskLevel = js ''MEDIUM'' then js ''NEEDS_REVIEW''
      else js ''COMPLIANT'')"

section \<open>Result assembly\<close>

text \<open>
  The JSON object that the model returns for an audit, as far as the assembly reads it;
  a property is \<open>None\<close> when it is missing or has the wrong type.
\<close>

record modelResponse =
  resp_issues :: "finding list option"
  resp_summary :: "jsstring option"
  resp_explanation :: "jsstring option"
  resp_recommended_actions :: "jsstring list option"
  resp_compliance_flags :: "jsstring list option"
  resp_detected_content_types :: "jsstring list option"

text \<open>The audit result that \<open>runOpenAIAudit\<close> and \<open>runRewriteAudit\<close> return.\<close>

record auditOutput =
  risk_level :: jsstring
  risk_score :: int
  compliance_flags :: "jsstring list"
  summary :: jsstring
  recommended_actions :: "jsstring list"
  detected_content_types :: "jsstring list"
  violations :: "finding list"
  status :: jsstring
  explanation :: jsstring
  result_recommended_fix :: jsstring

text \<open>\<open>a || b || c\<close> on optional strings.\<close>

definition orElse :: "jsstring option \<Rightarrow> jsstring option \<Rightarrow> jsstring option" where
  "orElse a b = (case a of None \<Rightarrow> b | Some s \<Rightarrow> (if s = [] then b else Some s))"

definition arrayOr :: "'a list option \<Rightarrow> 'a list \<Rightarrow> 'a list" where
  "arrayOr a d = (case a of None \<Rightarrow> d | Some xs \<Rightarrow> xs)"

text \<open>\<open>xs[0]\<close>: the first element, \<open>None\<close> (undefined) for an empty array.\<close>

definition firstOf :: "jsstring list \<Rightarrow> jsstring option" where
  "firstOf xs = (case xs of [] \<Rightarrow> None | x # _ \<Rightarrow> Some x)"

text \<open>\<open>normalizedViolations.map(v => v.solution).filter(Boolean).slice(0, 5)\<close>.\<close>

definition derivedActions :: "finding list \<Rightarrow> jsstring list" where
  "derivedActions normalizedViolations =
     take 5 (filter (\<lambda>s. s \<noteq> []) (map (\<lambda>v. orEmpty (solution v)) normalizedViolations))"

text \<open>\<open>finalResult\<close> of \<open>runOpenAIAudit\<close>, from the model's response and the normalized violations.\<close>

definition finalResult :: "modelResponse \<Rightarrow> finding list \<Rightarrow> auditOutput" where
  "finalResult auditResult normalizedViolations =
     (let recommendedActions = arrayOr (resp_recommended_actions auditResult) [];
          deterministicRiskScore = calculateDeterministicRiskScore normalizedViolations
      in \<lparr> risk_level = deterministicRiskLevel deterministicRiskScore,
           risk_score = deterministicRiskScore,
           compliance_flags = arrayOr (resp_compliance_flags auditResult) [],
           summary = orDefault (orElse (resp_summary auditResult) (resp_explanation auditResult))
                       (js ''Audit completed''),
           recommended_actions =
             (if length recommendedActions > 0 then recommendedActions
              else derivedActions normalizedViolations),
           detected_content_types = arrayOr (resp_detected_content_types auditResult) [js ''text''],
           violations = normalizedViolations,
           status = complianceStatus deterministicRiskScore,
           explanation = orDefault (orElse (resp_explanation auditResult) (resp_summary auditResult))
                       (js ''Audit completed''),
           result_recommended_fix =
             orDefault (orElse (firstOf (derivedActions normalizedViolations))
                          (firstOf (arrayOr (resp_recommended_actions auditResult) [])))
               (js ''Remove or rewrite the specific risky statements and add required disclosures.'') \<rparr>)"

text \<open>
  The result of \<open>runRewriteAudit\<close>, from the summary of the model's response, the source
  type and the normalized violations.
\<close>

definition rewriteResult :: "jsstring \<Rightarrow> jsstring option \<Rightarrow> finding list \<Rightarrow> auditOutput" where
  "rewriteResult summary0 sourceType normalizedViolations =
     (let risk_score0 = risk_score_rewrite normalizedViolations;
          recommended_actions0 = derivedActions normalizedViolations
      in \<lparr> risk_level = deterministicRiskLevel risk_score0,
           risk_score = risk_score0,
           compliance_flags = [],
           summary = orDefault (Some summary0) (js ''Audit completed''),
           recommended_actions = recommended_actions0,
           detected_content_types = [orDefault sourceType (js ''text'')],
           violations = normalizedViolations,
           status = complianceStatus risk_score0,
           explanation = orDefault (Some summary0) (js ''Audit completed''),
           result_recommended_fix = orEmpty (firstOf recommended_actions0) \<rparr>)"

text \<open>
  The \<open>normalized\<close> object of \<open>runContentAudit\<close> (the same for text, URL, image, audio and
  video) with the status that \<open>auditContent\<close> stores for it.
\<close>

record contentOutput =
  riskScore :: int
  riskLevel :: jsstring
  verdict :: jsstring
  content_violations :: "finding list"
  recommendations :: "jsstring list"
  content_status :: jsstring

definition contentResult :: "jsstring option \<Rightarrow> jsstring list option \<Rightarrow> finding list \<Rightarrow> contentOutput" where
  "contentResult auditSummary auditActions violations0 =
     (let riskScore0 = calculateDeterministicRiskScore_content violations0;
          riskLevel0 = normalizeRiskLevel None riskScore0
      in \<lparr> riskScore = riskScore0,
           riskLevel = riskLevel0,
           verdict = orDefault auditSummary (js ''Audit completed.''),
           content_violations = violations0,
           recommendations = arrayOr auditActions [],
           content_status = mapRiskLevelToStatus riskLevel0 \<rparr>)"

section \<open>Cache lookup\<close>

text \<open>
  A stored audit document, as far as the lookup of \<open>runOpenAIAudit\<close> reads it.  The
  stored result carries the score, level and status it was stored with.
\<close>

record cachedAuditResult =
  cached_risk_level :: "jsstring option"
  cached_risk_score :: "int option"
  cached_status :: "jsstring option"
  cached_violations :: "finding list option"
  cached_compliance_flags :: "jsstring list option"
  cached_summary :: "jsstring option"
  cached_explanation :: "jsstring option"
  cached_recommended_actions :: "jsstring list option"
  cached_detected_content_types :: "jsstring list option"
  cached_recommended_fix :: "jsstring option"

record auditDoc =
  doc_inputHash :: jsstring
  doc_status :: jsstring
  doc_auditResult :: "cachedAuditResult option"

text \<open>\<open>Audit.findOne({ inputHash, status: 'completed' })\<close> on the stored documents.\<close>

definition findOne :: "auditDoc list \<Rightarrow> jsstring \<Rightarrow> auditDoc option" where
  "findOne store inputHash =
     find (\<lambda>d. doc_inputHash d = inputHash \<and> doc_status d = js ''completed'') store"

text \<open>The object returned on a hit.\<close>

definition cachedResult :: "cachedAuditResult \<Rightarrow> auditOutput" where
  "cachedResult r =
     (let cachedViolations = arrayOr (cached_violations r) [];
          deterministicRiskScore = calculateDeterministicRiskScore cachedViolations
      in \<lparr> risk_level = deterministicRiskLevel deterministicRiskScore,
           risk_score = deterministicRiskScore,
           compliance_flags = arrayOr (cached_compliance_flags r) [],
           summary = orDefault (orElse (cached_summary r) (cached_explanation r)) (js ''Audit completed''),
           recommended_actions = arrayOr (cached_recommended_actions r) [],
           detected_content_types = arrayOr (cached_detected_content_types r) [js ''text''],
           violations = cachedViolations,
           status = complianceStatus deterministicRiskScore,
           explanation = orDefault (orElse (cached_explanation r) (cached_summary r)) (js ''Audit completed''),
           result_recommended_fix =
             orDefault (orElse (cached_recommended_fix r)
                          (firstOf (arrayOr (cached_recommended_actions r) [])))
               (js ''Review content for compliance.'') \<rparr>)"

text \<open>
  The lookup: \<open>Some\<close> result on a hit (a completed document with this hash that has a
  stored result), \<open>None\<close> when the audit goes on to the model.
\<close>

definition cacheLookup :: "auditDoc list \<Rightarrow> jsstring \<Rightarrow> auditOutput option" where
  "cacheLookup store inputHash =
     (case findOne store inputHash of
        None \<Rightarrow> None
      | Some cachedAudit \<Rightarrow>
          (case doc_auditResult cachedAudit of
             None \<Rightarrow> None
           | Some r \<Rightarrow> Some (cachedResult r)))"

section \<open>Cache key\<close>

text \<open>\<open>.replace(/\s+/g, ' ')\<close>: every maximal run of white space becomes one space.\<close>

function collapseWhitespace :: "jsstring \<Rightarrow> jsstring" where
  "collapseWhitespace [] = []"
| "collapseWhitespace (c # cs) =
     (if isWhiteSpace c then 0x20 # collapseWhitespace (dropWhile isWhiteSpace cs)
      else c # collapseWhitespace cs)"
  by pat_completeness auto
termination
  by (relation "measure length") (auto simp: length_dropWhile_le less_Suc_eq_le)

text \<open>
  The three punctuation replacements of \<open>normalizeForHash\<close>.  The character class of the
  first one, as the source file has it, holds the code units U+0022 (three times) and
  U+0027 (twice); the class of the second holds U+2013 and U+2014; the third replaces
  U+2026 by three full stops.
\<close>

definition replaceQuotes :: "jsstring \<Rightarrow> jsstring" where
  "replaceQuotes s = map (\<lambda>c. if c = 0x22 \<or> c = 0x27 then 0x22 else c) s"

definition replaceDashes :: "jsstring \<Rightarrow> jsstring" where
  "replaceDashes s = map (\<lambda>c. if c = 0x2013 \<or> c = 0x2014 then 0x2D else c) s"

definition replaceEllipsis :: "jsstring \<Rightarrow> jsstring" where
  "replaceEllipsis s = concat (map (\<lambda>c. if c = 0x2026 then js ''...'' else [c]) s)"

definition normalizeForHash :: "jsstring \<Rightarrow> jsstring" where
  "normalizeForHash text =
     (if text = [] then []
      else trim (replaceEllipsis (replaceDashes (replaceQuotes (toLowerCase
             (collapseWhitespace text))))))"

definition rulePackVersion :: jsstring where
  "rulePackVersion = js ''v1.0.0''"

definition auditType :: jsstring where
  "auditType = js ''email''"

definition hashInput :: "jsstring \<Rightarrow> jsstring" where
  "hashInput auditInput =
     normalizeForHash auditInput @ js ''|'' @ auditType @ js ''|'' @ rulePackVersion"

text \<open>
  \<open>createHash('sha256').update(hashInput).digest('hex')\<close>: the digest is the Node.js
  library's, a parameter here.
\<close>

definition inputHash :: "(jsstring \<Rightarrow> jsstring) \<Rightarrow> jsstring \<Rightarrow> jsstring" where
  "inputHash sha256hex auditInput = sha256hex (hashInput auditInput)"

section \<open>Similarity engine\<close>

text \<open>\<open>s.split(' ')\<close>: the pieces between the spaces, empty pieces included.\<close>

fun splitOn :: "16 word \<Rightarrow> jsstring \<Rightarrow> jsstring list" where
  "splitOn sep [] = [[]]"
| "splitOn sep (c # cs) =
     (if c = sep then [] # splitOn sep cs
      else (case splitOn sep cs of
              [] \<Rightarrow> [[c]]
            | t # ts \<Rightarrow> (c # t) # ts))"

text \<open>\<open>new Set(xs)\<close>: the distinct elements, in the order of their first occurrence.\<close>

definition newSet :: "jsstring list \<Rightarrow> jsstring list" where
  "newSet xs = rev (remdups (rev xs))"

text \<open>\<open>s.replace(/[...]/g, '')\<close> and \<open>s.replace(/[...]/g, ' ')\<close> for a character class.\<close>

definition deleteUnits :: "(16 word \<Rightarrow> bool) \<Rightarrow> jsstring \<Rightarrow> jsstring" where
  "deleteUnits p s = filter (\<lambda>c. \<not> p c) s"

definition blankUnits :: "(16 word \<Rightarrow> bool) \<Rightarrow> jsstring \<Rightarrow> jsstring" where
  "blankUnits p s = map (\<lambda>c. if p c then 0x20 else c) s"

text \<open>
  \<open>normalizeTextForCompare\<close> and \<open>jaccardSimilarity\<close> of \<open>services/auditService.js\<close>.
  The quotient of the two counts is a JavaScript number; it is the exact rational here.
\<close>

definition isComparePunctuation :: "16 word \<Rightarrow> bool" where
  "isComparePunctuation c = (c \<in> set (js ''\"'' @ js [CHR 0x27] @ js ''`,.-;:!?()''))"

definition normalizeTextForCompare_auditService :: "jsstring \<Rightarrow> jsstring" where
  "normalizeTextForCompare_auditService text =
     trim (collapseWhitespace (deleteUnits isComparePunctuation (toLowerCase text)))"

definition words_auditService :: "jsstring \<Rightarrow> jsstring list" where
  "words_auditService a =
     newSet (filter (\<lambda>w. length w \<ge> 3) (splitOn 0x20 (normalizeTextForCompare_auditService a)))"

definition jaccard :: "jsstring list \<Rightarrow> jsstring list \<Rightarrow> rat" where
  "jaccard wordsA wordsB =
     (if length wordsA = 0 \<or> length wordsB = 0 then 0
      else (let intersection = length (filter (\<lambda>word. word \<in> set wordsB) wordsA);
                union = length wordsA + length wordsB - intersection
            in if union = 0 then 0 else of_nat intersection / of_nat union))"

definition jaccardSimilarity_auditService :: "jsstring \<Rightarrow> jsstring \<Rightarrow> rat" where
  "jaccardSimilarity_auditService a b = jaccard (words_auditService a) (words_auditService b)"

text \<open>
  \<open>normalizeTextForCompare\<close> and \<open>jaccardSimilarity\<close> of \<open>runOpenAIAudit\<close>
  (\<open>services/openaiClient.js\<close>): here every code unit other than \<open>a\<close> to \<open>z\<close>, a digit or
  white space becomes a space, and \<open>filter(Boolean)\<close> drops the empty pieces only.
\<close>

definition isQuoteMark :: "16 word \<Rightarrow> bool" where
  "isQuoteMark c = (c = 0x22 \<or> c = 0x27 \<or> c = 0x60)"

definition isLowerAlnumOrSpace :: "16 word \<Rightarrow> bool" where
  "isLowerAlnumOrSpace c =
     ((0x61 \<le> c \<and> c \<le> 0x7A) \<or> (0x30 \<le> c \<and> c \<le> 0x39) \<or> isWhiteSpace c)"

definition normalizeTextForCompare_openaiClient :: "jsstring \<Rightarrow> jsstring" where
  "normalizeTextForCompare_openaiClient s =
     trim (collapseWhitespace (blankUnits (\<lambda>c. \<not> isLowerAlnumOrSpace c)
       (deleteUnits isQuoteMark (toLowerCase s))))"

definition words_openaiClient :: "jsstring \<Rightarrow> jsstring list" where
  "words_openaiClient a =
     newSet (filter (\<lambda>w. w \<noteq> []) (splitOn 0x20 (normalizeTextForCompare_openaiClient a)))"

definition jaccardSimilarity_openaiClient :: "jsstring \<Rightarrow> jsstring \<Rightarrow> rat" where
  "jaccardSimilarity_openaiClient a b = jaccard (words_openaiClient a) (words_openaiClient b)"

section \<open>More of JavaScript's string operations\<close>

definition startsWith :: "jsstring \<Rightarrow> jsstring \<Rightarrow> bool" where
  "startsWith s p = (take (length p) s = p)"

text \<open>\<open>s.includes(sub)\<close> and \<open>s.indexOf(sub)\<close> (\<open>None\<close> for -1).\<close>

fun includes_js :: "jsstring \<Rightarrow> jsstring \<Rightarrow> bool" where
  "includes_js [] sub = (sub = [])"
| "includes_js (c # cs) sub = (startsWith (c # cs) sub \<or> includes_js cs sub)"

fun indexOf :: "jsstring \<Rightarrow> jsstring \<Rightarrow> nat option" where
  "indexOf [] sub = (if sub = [] then Some 0 else None)"
| "indexOf (c # cs) sub =
     (if startsWith (c # cs) sub then Some 0 else map_option Suc (indexOf cs sub))"

text \<open>\<open>s.lastIndexOf(x)\<close> for one code unit, -1 when it does not occur.\<close>

fun lastIndexOf :: "16 word \<Rightarrow> jsstring \<Rightarrow> int" where
  "lastIndexOf x [] = -1"
| "lastIndexOf x (c # cs) =
     (let r = lastIndexOf x cs in if r \<ge> 0 then r + 1 else if c = x then 0 else -1)"

text \<open>\<open>s.substring(start, end)\<close> for \<open>0 \<le> start \<le> end \<le> s.length\<close>.\<close>

definition substring :: "jsstring \<Rightarrow> nat \<Rightarrow> nat \<Rightarrow> jsstring" where
  "substring s start end0 = take (end0 - start) (drop start s)"

text \<open>
  The pieces of a split are built from the right: \<open>consHead c ps\<close> puts \<open>c\<close> in front of
  the first piece.
\<close>

fun consHead :: "16 word \<Rightarrow> jsstring list \<Rightarrow> jsstring list" where
  "consHead c [] = [[c]]"
| "consHead c (p # ps) = (c # p) # ps"

text \<open>\<open>s.split(/\r?\n/)\<close>.\<close>

fun splitLines :: "jsstring \<Rightarrow> jsstring list" where
  "splitLines [] = [[]]"
| "splitLines [c] = (if c = 0x0A then [[], []] else [[c]])"
| "splitLines (c # d # cs) =
     (if c = 0x0A then [] # splitLines (d # cs)
      else if c = 0x0D \<and> d = 0x0A then [] # splitLines cs
      else consHead c (splitLines (d # cs)))"

text \<open>\<open>s.split(/\s+/)\<close>.\<close>

function splitWhitespace :: "jsstring \<Rightarrow> jsstring list" where
  "splitWhitespace [] = [[]]"
| "splitWhitespace (c # cs) =
     (if isWhiteSpace c then [] # splitWhitespace (dropWhile isWhiteSpace cs)
      else consHead c (splitWhitespace cs))"
  by pat_completeness auto
termination
  by (relation "measure length") (auto simp: length_dropWhile_le less_Suc_eq_le)

text \<open>
  \<open>s.split(/(?<=[...])\s+/)\<close>: a run of white space separates two pieces when the code
  unit before it is in the class of the look-behind.  \<open>prev\<close> says whether the code unit
  before the rest is in the class (\<open>False\<close> at the start of the string).
\<close>

function splitAfter :: "(16 word \<Rightarrow> bool) \<Rightarrow> bool \<Rightarrow> jsstring \<Rightarrow> jsstring list" where
  "splitAfter cls prev [] = [[]]"
| "splitAfter cls prev (c # cs) =
     (if prev \<and> isWhiteSpace c then [] # splitAfter cls False (dropWhile isWhiteSpace cs)
      else consHead c (splitAfter cls (cls c) cs))"
  by pat_completeness auto
termination
  by (relation "measure (\<lambda>(cls, prev, s). length s)")
     (auto simp: length_dropWhile_le less_Suc_eq_le)

text \<open>\<open>s.replace(/^[...]+|[...]+$/g, '')\<close>: the class is stripped from both ends.\<close>

definition stripUnits :: "(16 word \<Rightarrow> bool) \<Rightarrow> jsstring \<Rightarrow> jsstring" where
  "stripUnits p s = rev (dropWhile p (rev (dropWhile p s)))"

definition isQuoteOrSpace :: "16 word \<Rightarrow> bool" where
  "isQuoteOrSpace c = (c = 0x22 \<or> c = 0x27 \<or> isWhiteSpace c)"

text \<open>\<open>.map(s => s.trim()).filter(Boolean)\<close>.\<close>

definition trimmedNonEmpty :: "jsstring list \<Rightarrow> jsstring list" where
  "trimmedNonEmpty ps = filter (\<lambda>s. s \<noteq> []) (map trim ps)"

text \<open>
  Matching a regular expression with the flag \<open>i\<close> compares the ASCII letters without
  their case; for the ASCII patterns of the source no code unit outside ASCII matches a
  letter of the pattern.
\<close>

definition regexFold :: "jsstring \<Rightarrow> jsstring" where
  "regexFold s = map lowerUnit s"

section \<open>Evidence resolver of the rewrite audit\<close>

text \<open>\<open>services/auditService.js\<close>: the sentence terminators of the two look-behinds.\<close>

definition isLineTerminator :: "16 word \<Rightarrow> bool" where
  "isLineTerminator c = (c = 0x2E \<or> c = 0x21 \<or> c = 0x3F \<or> c = 0x0964)"

definition isSentenceTerminator :: "16 word \<Rightarrow> bool" where
  "isSentenceTerminator c = (c = 0x2E \<or> c = 0x21 \<or> c = 0x3F \<or> c = 0x061F \<or> c = 0x0964)"

definition stripWrappingQuotes :: "jsstring option \<Rightarrow> jsstring" where
  "stripWrappingQuotes s = trim (stripUnits isQuoteOrSpace (trim (orEmpty s)))"

definition splitIntoCandidateLines :: "jsstring \<Rightarrow> jsstring list" where
  "splitIntoCandidateLines inputText =
     (let text = inputText;
          rawLines = trimmedNonEmpty (splitLines text)
      in if length rawLines > 0 then rawLines
         else trimmedNonEmpty (splitAfter isLineTerminator False text))"

text \<open>
  The keyword tokens of a description: every code unit other than an ASCII letter, a
  digit, a Devanagari code unit or white space becomes a space, the pieces between white
  space of at least \<open>minLen\<close> code units are kept, the first \<open>maxCount\<close> of them.
\<close>

definition isAsciiAlnum :: "16 word \<Rightarrow> bool" where
  "isAsciiAlnum c =
     ((0x41 \<le> c \<and> c \<le> 0x5A) \<or> (0x61 \<le> c \<and> c \<le> 0x7A) \<or> (0x30 \<le> c \<and> c \<le> 0x39))"

definition isKeywordUnit :: "16 word \<Rightarrow> bool" where
  "isKeywordUnit c = (isAsciiAlnum c \<or> isDevanagari c \<or> isWhiteSpace c)"

definition keywordTokens :: "nat \<Rightarrow> nat \<Rightarrow> jsstring \<Rightarrow> jsstring list" where
  "keywordTokens minLen maxCount desc =
     take maxCount (filter (\<lambda>t. length t \<ge> minLen)
       (map trim (splitWhitespace (blankUnits (\<lambda>c. \<not> isKeywordUnit c) desc))))"

text \<open>The score of a line: the number of tokens that the lowered line includes_js.\<close>

definition lineScore :: "jsstring list \<Rightarrow> jsstring \<Rightarrow> int" where
  "lineScore tokens l =
     (let low = toLowerCase l
      in foldl (\<lambda>acc t. acc + (if includes_js low (toLowerCase t) then 1 else 0)) 0 tokens)"

definition bestLineStep :: "jsstring list \<Rightarrow> jsstring \<times> int \<Rightarrow> jsstring \<Rightarrow> jsstring \<times> int" where
  "bestLineStep tokens state l =
     (let score = lineScore tokens l
      in if score > snd state then (l, score) else state)"

text \<open>
  The hard cap of \<open>pickBestLineFromText\<close> and of \<open>selectBestEvidenceSentence\<close> (the same
  code in both), with \<open>MAX_EVIDENCE_CHARS = 250\<close>.
\<close>

definition capEvidence :: "jsstring \<Rightarrow> jsstring" where
  "capEvidence candidate =
     (if length candidate > 250
      then (let sliced = take 251 candidate;
                lastSpace = lastIndexOf 0x20 sliced
            in trim (if lastSpace > 0 then take (nat lastSpace) sliced else take 250 sliced))
      else candidate)"

definition firstOrEmpty :: "jsstring list \<Rightarrow> jsstring" where
  "firstOrEmpty xs = (case xs of [] \<Rightarrow> [] | x # _ \<Rightarrow> x)"

text \<open>The line that matches the model's evidence candidate, exactly or after normalization.\<close>

definition matchCandidate :: "jsstring list \<Rightarrow> jsstring \<Rightarrow> jsstring option" where
  "matchCandidate lines cand =
     (if cand \<noteq> []
      then (case find (\<lambda>l. includes_js l cand) lines of
              Some exact \<Rightarrow> Some exact
            | None \<Rightarrow>
                (let normCand = normalizeTextForCompare_auditService cand
                 in find (\<lambda>l. includes_js (normalizeTextForCompare_auditService l) normCand) lines))
      else None)"

definition pickBestLineFromText :: "jsstring \<Rightarrow> jsstring option \<Rightarrow> jsstring \<Rightarrow> jsstring" where
  "pickBestLineFromText inputText evidenceCandidate descriptionCandidate =
     (let lines = splitIntoCandidateLines inputText;
          cand = stripWrappingQuotes evidenceCandidate
      in case matchCandidate lines cand of
           Some line \<Rightarrow> line
         | None \<Rightarrow>
             (let tokens = keywordTokens 4 8 descriptionCandidate
              in if length tokens = 0 then firstOrEmpty lines
                 else (let best = fst (foldl (bestLineStep tokens) (firstOrEmpty lines, -1) lines);
                           sentenceParts = trimmedNonEmpty (splitAfter isSentenceTerminator False best);
                           candidate = (case sentenceParts of [] \<Rightarrow> best | p # _ \<Rightarrow> p)
                       in capEvidence candidate)))"

text \<open>
  The evidence of the violation that \<open>runRewriteAudit\<close> builds for the issue \<open>it\<close> of the
  model's response (the text and the URL audits).
\<close>

definition rewriteEvidence :: "jsstring \<Rightarrow> finding \<Rightarrow> jsstring" where
  "rewriteEvidence inputText it =
     (let description0 = orDefault (Some (trim (orEmpty (description it))))
                           (js ''Compliance issue detected'')
      in trim (collapseWhitespace
           (pickBestLineFromText inputText (evidence_line it) description0)))"

section \<open>Evidence selection of the audio and video audits\<close>

text \<open>\<open>services/contentAuditService.js\<close>.\<close>

definition splitTranscriptIntoSentences :: "jsstring \<Rightarrow> jsstring list" where
  "splitTranscriptIntoSentences transcript =
     (let text = trim transcript
      in if text = [] then []
         else trimmedNonEmpty (splitAfter isSentenceTerminator False text))"

definition shorterOf :: "jsstring \<Rightarrow> jsstring \<Rightarrow> jsstring" where
  "shorterOf shortest current = (if length current < length shortest then current else shortest)"

definition selectBestEvidenceSentence :: "jsstring \<Rightarrow> finding \<Rightarrow> jsstring" where
  "selectBestEvidenceSentence transcript v =
     (let sentences = splitTranscriptIntoSentences transcript
      in case sentences of
           [] \<Rightarrow> []
         | s0 # _ \<Rightarrow>
             (let description0 = orEmpty (orElse (description v) (violation v));
                  guidance0 = orEmpty (orElse (guidance v) (suggestion v));
                  source = description0 @ js '' '' @ guidance0;
                  tokens = keywordTokens 4 12 source;
                  scored = (if length tokens > 0
                            then foldl (bestLineStep tokens) (s0, -1) sentences
                            else (s0, -1));
                  bestSentence = (if snd scored \<le> 0 then foldl shorterOf s0 sentences
                                  else fst scored)
              in capEvidence bestSentence))"

text \<open>
  The violation of the audio and video audits: the violation \<open>v\<close> of the rewrite audit
  of the transcript, with the selected sentence as its evidence.
\<close>

definition processedViolation :: "jsstring \<Rightarrow> finding \<Rightarrow> finding" where
  "processedViolation transcript v =
     (let evidenceSentence = selectBestEvidenceSentence transcript v
      in v\<lparr>evidence := Some evidenceSentence, problematicContent := Some evidenceSentence\<rparr>)"

section \<open>Evidence of the email audit\<close>

text \<open>\<open>isBadEvidence\<close> and \<open>deriveEvidenceFallback\<close> of \<open>runOpenAIAudit\<close>.\<close>

definition placeholderTokens :: "jsstring list" where
  "placeholderTokens = map js
      [''n/a'', ''na'', ''none'', ''null'', ''not available'', ''unknown'']"

definition isBadEvidence :: "jsstring option \<Rightarrow> bool" where
  "isBadEvidence val =
     (case val of
        None \<Rightarrow> True
      | Some v \<Rightarrow>
          (if v = [] then True
           else (let s = trim v
                 in if length s = 0 then True
                    else regexFold s \<in> set placeholderTokens)))"

fun firstHit :: "jsstring \<Rightarrow> jsstring list \<Rightarrow> nat option" where
  "firstHit text [] = None"
| "firstHit text (token # tokens) =
     (case indexOf (toLowerCase text) (toLowerCase token) of
        Some idx \<Rightarrow> Some idx
      | None \<Rightarrow> firstHit text tokens)"

definition deriveEvidenceFallback :: "jsstring \<Rightarrow> finding \<Rightarrow> jsstring" where
  "deriveEvidenceFallback auditInput issue =
     (let text = auditInput;
          violation0 = orEmpty (violation issue);
          tokens = take 8 (filter (\<lambda>t. length t \<ge> 5)
                     (map trim (splitWhitespace
                        (blankUnits (\<lambda>c. \<not> (isAsciiAlnum c \<or> isWhiteSpace c)) violation0))))
      in case firstHit text tokens of
           Some idx \<Rightarrow>
             (let start = idx - 80;
                  end0 = min (length text) (idx + 120);
                  snippet = trim (collapseWhitespace (substring text start end0))
              in [0x22] @ snippet @ [0x22])
         | None \<Rightarrow>
             (js ''Specific risky content detected in email/attachments related''
             @ js '' to: '' @ [0x0022]) @ take 140 violation0
             @ ([0x0022] @ js '' (exact quote not available)''))"

text \<open>
  \<open>hasEnglishTranslationLine\<close>: \<open>/\(English translation:\s*[^)]+\)/\<close> matches when, after
  an occurrence of the opening words, at least one code unit other than \<open>)\<close> comes before
  the next \<open>)\<close>.
\<close>

definition translationOpening :: jsstring where
  "translationOpening = js ''(English translation:''"

definition closesAfterText :: "jsstring \<Rightarrow> bool" where
  "closesAfterText rest =
     (let body = takeWhile (\<lambda>c. c \<noteq> 0x29) rest
      in body \<noteq> [] \<and> length body < length rest)"

fun hasEnglishTranslationLine :: "jsstring \<Rightarrow> bool" where
  "hasEnglishTranslationLine [] = False"
| "hasEnglishTranslationLine (c # cs) =
     ((startsWith (c # cs) translationOpening
         \<and> closesAfterText (drop (length translationOpening) (c # cs)))
      \<or> hasEnglishTranslationLine cs)"

text \<open>
  \<open>ensureEnglishTranslation\<close>.  The completion of the translation request is the
  parameter \<open>answer\<close>: the content of the model's message, or \<open>None\<close> when the request
  fails or the message has no content.
\<close>

definition ensureEnglishTranslation :: "jsstring option \<Rightarrow> jsstring \<Rightarrow> jsstring \<Rightarrow> jsstring" where
  "ensureEnglishTranslation answer detectedLang text =
     (if text = [] then text
      else if trim text = [] then text
      else if hasEnglishTranslationLine text then text
      else if detectedLang = js ''en'' then text
      else (case answer of
              None \<Rightarrow> text
            | Some content \<Rightarrow>
                (let translation = trim content
                 in if translation \<noteq> [] \<and> length (trim translation) > 0
                    then text @ [0x0A] @ js ''(English translation: '' @ translation @ js '')''
                    else text)))"

section \<open>Word lists of regular expressions\<close>

text \<open>
  The tests of the form \<open>/\b(w1|...|wn)\b/i.test(s)\<close> and the replacements of the form
  \<open>s.replace(/\b(w1|...|wn)\b/gi, r)\<close>.  \<open>\b\<close> holds between a word character
  (\<open>[A-Za-z0-9_]\<close>) and a code unit that is none, or the end; \<open>prevWord\<close> says whether the
  code unit before the rest is a word character (\<open>False\<close> at the start).  An alternative
  matches at the head of the rest when its letters do, without case, and \<open>\b\<close> holds after
  it.  An alternative \<open>w?\<close> of the source with an optional last letter is listed as the
  long word followed by the short one, the order in which the expression tries them.
\<close>

definition isWordChar :: "16 word \<Rightarrow> bool" where
  "isWordChar c = (isAsciiAlnum c \<or> c = 0x5F)"

definition wordBoundary :: "bool \<Rightarrow> jsstring \<Rightarrow> bool" where
  "wordBoundary prevWord rest = (prevWord \<noteq> (case rest of [] \<Rightarrow> False | c # _ \<Rightarrow> isWordChar c))"

definition matchAlt :: "jsstring \<Rightarrow> jsstring \<Rightarrow> bool" where
  "matchAlt w s =
     (regexFold (take (length w) s) = w
      \<and> wordBoundary (isWordChar (last w)) (drop (length w) s))"

fun testWords :: "jsstring list \<Rightarrow> bool \<Rightarrow> jsstring \<Rightarrow> bool" where
  "testWords ws prevWord [] = False"
| "testWords ws prevWord (c # cs) =
     ((wordBoundary prevWord (c # cs) \<and> list_ex (\<lambda>w. matchAlt w (c # cs)) ws)
      \<or> testWords ws (isWordChar c) cs)"

text \<open>
  The replacement goes from left to right; after a match of \<open>w\<close> the next \<open>length w - 1\<close>
  code units are skipped.
\<close>

fun replaceWords :: "jsstring list \<Rightarrow> jsstring \<Rightarrow> bool \<Rightarrow> nat \<Rightarrow> jsstring \<Rightarrow> jsstring" where
  "replaceWords ws r prevWord skip [] = []"
| "replaceWords ws r prevWord skip (c # cs) =
     (if skip > 0 then replaceWords ws r (isWordChar c) (skip - 1) cs
      else (case (if wordBoundary prevWord (c # cs)
                  then find (\<lambda>w. matchAlt w (c # cs)) ws else None) of
              Some w \<Rightarrow> r @ replaceWords ws r (isWordChar c) (length w - 1) cs
            | None \<Rightarrow> c # replaceWords ws r (isWordChar c) 0 cs))"

text \<open>\<open>/(p1|...|pn)/i.test(s)\<close> for phrases without a boundary.\<close>

definition includesAny :: "jsstring list \<Rightarrow> jsstring \<Rightarrow> bool" where
  "includesAny phrases s = list_ex (\<lambda>p. includes_js (regexFold s) p) phrases"

text \<open>\<open>xs.join(sep)\<close>.\<close>

fun joinWith :: "jsstring \<Rightarrow> jsstring list \<Rightarrow> jsstring" where
  "joinWith sep [] = []"
| "joinWith sep [x] = x"
| "joinWith sep (x # y # ys) = x @ sep @ joinWith sep (y # ys)"

section \<open>Constraint validator of the email audit\<close>

text \<open>The predicates and fallbacks that \<open>runOpenAIAudit\<close> defines (\<open>services/openaiClient.js\<close>).\<close>

definition weakRecommendationPhrases :: "jsstring list" where
  "weakRecommendationPhrases = map js
      [''review the policy'', ''review policy'', ''be careful'',
       ''follow guidelines'', ''ensure compliance'', ''consult a lawyer'',
       ''consult lawyer'', ''seek legal advice'', ''please review'']"

definition isWeakRecommendation :: "jsstring option \<Rightarrow> bool" where
  "isWeakRecommendation val =
     (case val of
        None \<Rightarrow> True
      | Some v \<Rightarrow>
          (if v = [] then True
           else (let s = trim v
                 in if length s < 15 then True
                    else includesAny weakRecommendationPhrases s)))"

definition weakGuidancePhrases :: "jsstring list" where
  "weakGuidancePhrases = map js
      [''be careful'', ''follow guidelines'', ''ensure compliance'',
       ''consult a lawyer'', ''consult lawyer'', ''seek legal advice'',
       ''please review'', ''non-compliant'', ''noncompliant'']"

definition isWeakGuidance :: "jsstring option \<Rightarrow> bool" where
  "isWeakGuidance val =
     (case val of
        None \<Rightarrow> True
      | Some v \<Rightarrow>
          (if v = [] then True
           else (let s = trim v
                 in if length s < 25 then True
                    else includesAny weakGuidancePhrases s)))"

definition deriveRulePack :: "jsstring option \<Rightarrow> jsstring" where
  "deriveRulePack lawRef =
     (let s = toLowerCase (orEmpty lawRef)
      in if includes_js s (js ''dpdp'') \<or> includes_js s (js ''data protection'')
            \<or> includes_js s (js ''personal data'') then js ''DPDP Act 2023''
         else if includes_js s (js ''it act'') \<or> includes_js s (js ''information technology act'')
           then js ''IT Act 2000''
         else if includes_js s (js ''asci'') then js ''ASCI Healthcare''
         else if includes_js s (js ''magic remedies'') then js ''Drugs & Magic Remedies Act''
         else if includes_js s (js ''schedule j'') \<or> includes_js s (js ''drugs and cosmetics'')
            \<or> includes_js s (js ''rule 106'') then js ''Drugs & Cosmetics Act''
         else if includes_js s (js ''national medical commission'') \<or> includes_js s (js ''nmc'')
           then js ''NMC Regulations''
         else js ''General'')"

definition deriveGuidanceFallback :: "jsstring \<Rightarrow> jsstring" where
  "deriveGuidanceFallback rulePack =
     (if rulePack = js ''DPDP Act 2023'' then
        (js ''DPDP requires a lawful basis (typically valid consent) for p''
        @ js ''rocessing personal data, and mandates purpose limitation and''
        @ js '' data minimization. Handling sensitive patient or contact in''
        @ js ''formation without a clear purpose, notice, and consent incre''
        @ js ''ases risk of privacy harm, identity misuse, and regulatory p''
        @ js ''enalties.'')
      else if rulePack = js ''IT Act 2000'' then
        (js ''The IT Act and associated security expectations require reas''
        @ js ''onable security practices for handling electronic records an''
        @ js ''d personal information. Weak handling of identity/contact de''
        @ js ''tails, medical information, or credentials increases risk of''
        @ js '' unauthorized access, fraud, and consumer harm.'')
      else if rulePack = js ''ASCI Healthcare'' then
        (js ''ASCI'' @ [0x2019]
        @ js ''s healthcare advertising standards require communications to''
        @ js '' be truthful, capable of substantiation, and not misleading ''
        @ js ''by exaggeration or omission. Unsubstantiated or absolute cla''
        @ js ''ims can cause consumers/patients to make unsafe decisions, d''
        @ js ''elay proper medical care, and undermine public trust.'')
      else if rulePack = js ''Drugs & Magic Remedies Act'' then
        (js ''The Drugs and Magic Remedies Act prohibits advertisements th''
        @ js ''at claim magical cures or guaranteed results for certain con''
        @ js ''ditions. Such claims can mislead vulnerable patients, encour''
        @ js ''age self-medication, and create serious public health risk, ''
        @ js ''attracting strict enforcement.'')
      else if rulePack = js ''Drugs & Cosmetics Act'' then
        (js ''Drugs & Cosmetics Rules (including Schedule J / Rule 106 exp''
        @ js ''ectations) restrict disease'' @ [0x2011]
        @ js ''cure advertising and require claims to be supported and non-''
        @ js ''misleading. Disease treatment promises without permitted bas''
        @ js ''is can mislead patients and violate statutory restrictions o''
        @ js ''n therapeutic claims.'')
      else if rulePack = js ''NMC Regulations'' then
        (js ''NMC-aligned ethical standards require responsible medical co''
        @ js ''mmunication: no inducement, no misleading therapeutic assura''
        @ js ''nce, and clear separation of medical advice from marketing. ''
        @ js ''Over-promising outcomes can influence patient decisions unfa''
        @ js ''irly and breaches professional/ethical expectations.'')
      else
        (js ''Regulators expect healthcare communications to be accurate, ''
        @ js ''substantiated, and non-misleading, especially where patient ''
        @ js ''outcomes or data privacy are involved. Misleading claims or ''
        @ js ''weak data practices can cause real consumer harm and trigger''
        @ js '' enforcement action.''))"

text \<open>\<open>stripEnglishTranslationLine\<close>: the lines that do not open a translation.\<close>

definition stripEnglishTranslationLine :: "jsstring \<Rightarrow> jsstring" where
  "stripEnglishTranslationLine text =
     trim (joinWith [0x0A]
       (filter (\<lambda>line. \<not> startsWith (trim line) translationOpening) (splitOn 0x0A text)))"

definition absoluteWords :: "jsstring list" where
  "absoluteWords = map js
      [''100%'', ''100 percent'', ''guaranteed'', ''guarantee'', ''sure shot'',
       ''instant'', ''permanent'']"

definition cureWords :: "jsstring list" where
  "cureWords = map js
      [''cure'', ''cures'', ''cured'', ''treats'', ''treatment for'']"

definition sideEffectWords :: "jsstring list" where
  "sideEffectWords = map js
      [''no side effects'']"

definition soften :: "jsstring \<Rightarrow> jsstring" where
  "soften base =
     trim (collapseWhitespace
       (replaceWords sideEffectWords (js ''as advised by a qualified professional'') False 0
         (replaceWords cureWords (js ''supports'') False 0
           (replaceWords absoluteWords (js ''may'') False 0 base))))"

definition deriveRecommendationFallback :: "jsstring \<Rightarrow> finding \<Rightarrow> jsstring" where
  "deriveRecommendationFallback detectedLang issue =
     (let rawEvidence = orEmpty (evidence issue);
          evidenceBody = (if detectedLang \<noteq> js ''en'' then stripEnglishTranslationLine rawEvidence
                          else rawEvidence);
          ev = trim (stripUnits isQuoteOrSpace evidenceBody);
          base = (if length ev > 0 then ev else orEmpty (violation issue));
          softened = soften base;
          opt1En = (if length softened > 0 then softened
                    else (js ''Results may vary. Please consult a qualified healthcare prof''
                      @ js ''essional.''));
          opt2En = (js ''Results may vary by individual. This information is not a su''
                    @ js ''bstitute for professional medical advice.'')
      in if detectedLang = js ''hi'' then
           (js ''RECOMMENDED FIX'' @ [0x000A] @ js ''Option A:''
           @ [0x000A, 0x0022, 0x092A, 0x0930, 0x093F, 0x0923, 0x093E, 0x092E]
           @ js '' ''
           @ [0x0935, 0x094D, 0x092F, 0x0915, 0x094D, 0x0924, 0x093F]
           @ js '' '' @ [0x0915, 0x0947] @ js '' ''
           @ [0x0905, 0x0928, 0x0941, 0x0938, 0x093E, 0x0930] @ js '' ''
           @ [0x0905, 0x0932, 0x0917] @ js '' '' @ [0x0939, 0x094B] @ js '' ''
           @ [0x0938, 0x0915, 0x0924, 0x0947] @ js '' ''
           @ [0x0939, 0x0948, 0x0902, 0x0964, 0x0022, 0x000A, 0x000A]
           @ js ''Option B:'' @ [0x000A, 0x0022, 0x092F, 0x0939] @ js '' ''
           @ [0x091C, 0x093E, 0x0928, 0x0915, 0x093E, 0x0930, 0x0940]
           @ js '' ''
           @ [0x0938, 0x093E, 0x092E, 0x093E, 0x0928, 0x094D, 0x092F]
           @ js '' '' @ [0x0939, 0x0948] @ js '' '' @ [0x0914, 0x0930]
           @ js '' ''
           @ [0x091A, 0x093F, 0x0915, 0x093F, 0x0924, 0x094D, 0x0938, 0x0915, 0x0940, 0x092F]
           @ js '' '' @ [0x0938, 0x0932, 0x093E, 0x0939] @ js '' ''
           @ [0x0915, 0x093E] @ js '' ''
           @ [0x0935, 0x093F, 0x0915, 0x0932, 0x094D, 0x092A] @ js '' ''
           @ [0x0928, 0x0939, 0x0940, 0x0902] @ js '' ''
           @ [0x0939, 0x0948, 0x0964, 0x0022, 0x000A]
           @ js ''(English translation: Option A: Results may vary by individu''
           @ js ''al. Option B: This information is general and not a substitu''
           @ js ''te for medical advice.)'')
         else (js ''RECOMMENDED FIX'' @ [0x000A] @ js ''Option A:''
              @ [0x000A, 0x0022]) @ opt1En
              @ ([0x0022, 0x000A, 0x000A] @ js ''Option B:'' @ [0x000A, 0x0022]) @ opt2En @ [0x22])"

definition toTitleSeverity :: "jsstring option \<Rightarrow> jsstring" where
  "toTitleSeverity sev =
     (let s = trim (toLowerCase (orEmpty sev))
      in if s = js ''critical'' then js ''Critical''
         else if s = js ''high'' then js ''High''
         else if s = js ''medium'' then js ''Medium''
         else if s = js ''low'' then js ''Low''
         else js ''Medium'')"

definition forbiddenGuidanceVerbs :: "jsstring list" where
  "forbiddenGuidanceVerbs = map js
      [''remove'', ''removed'', ''removing'', ''add'', ''added'', ''adding'',
       ''ensure'', ''ensures'', ''ensuring'', ''include'', ''includes'',
       ''including'', ''change'', ''changed'', ''changing'', ''provide'',
       ''provides'', ''providing'', ''submit'', ''submits'', ''submitting'',
       ''implement'', ''implements'', ''implementing'', ''modify'',
       ''modifies'', ''modifying'', ''apply'', ''applies'', ''applying'',
       ''create'', ''creates'', ''creating'', ''delete'', ''deletes'',
       ''deleting'', ''replace'', ''replaces'', ''replacing'', ''insert'',
       ''inserts'', ''inserting'', ''document'', ''documents'',
       ''documenting'', ''obtain'', ''obtains'', ''obtaining'', ''restrict'',
       ''restricts'', ''restricting'', ''verify'', ''verifies'', ''verifying'',
       ''check'', ''checks'', ''checking'', ''validate'', ''validates'',
       ''validating'', ''approve'', ''approves'', ''approving'', ''request'',
       ''requests'', ''requesting'', ''send'', ''sends'', ''sending'',
       ''receive'', ''receives'', ''receiving'', ''process'', ''processes'',
       ''processing'', ''handle'', ''handles'', ''handling'', ''manage'',
       ''manages'', ''managing'', ''maintain'', ''maintains'', ''maintaining'',
       ''store'', ''stores'', ''storing'', ''secure'', ''secures'',
       ''securing'', ''protect'', ''protects'', ''protecting'', ''access'',
       ''accesses'', ''accessing'', ''share'', ''shares'', ''sharing'',
       ''disclose'', ''discloses'', ''disclosing'', ''notify'', ''notifies'',
       ''notifying'', ''inform'', ''informs'', ''informing'', ''communicate'',
       ''communicates'', ''communicating'', ''publish'', ''publishes'',
       ''publishing'', ''distribute'', ''distributes'', ''distributing'',
       ''display'', ''displays'', ''displaying'', ''show'', ''shows'',
       ''showing'', ''present'', ''presents'', ''presenting'', ''indicate'',
       ''indicates'', ''indicating'', ''specify'', ''specifies'',
       ''specifying'', ''state'', ''states'', ''stating'', ''declare'',
       ''declares'', ''declaring'', ''claim'', ''claims'', ''claiming'',
       ''assert'', ''asserts'', ''asserting'', ''guarantee'', ''guarantees'',
       ''guaranteeing'', ''promise'', ''promises'', ''promising'', ''offer'',
       ''offers'', ''offering'', ''deliver'', ''delivers'', ''delivering'',
       ''perform'', ''performs'', ''performing'', ''execute'', ''executes'',
       ''executing'', ''complete'', ''completes'', ''completing'', ''finish'',
       ''finishes'', ''finishing'', ''start'', ''starts'', ''starting'',
       ''begin'', ''begins'', ''beginning'', ''initiate'', ''initiates'',
       ''initiating'', ''launch'', ''launches'', ''launching'', ''establish'',
       ''establishes'', ''establishing'', ''set'', ''sets'', ''setting'',
       ''configure'', ''configures'', ''configuring'', ''adjust'', ''adjusts'',
       ''adjusting'', ''adapt'', ''adapts'', ''adapting'', ''customize'',
       ''customizes'', ''customizing'', ''personalize'', ''personalizes'',
       ''personalizing'', ''optimize'', ''optimizes'', ''optimizing'',
       ''improve'', ''improves'', ''improving'', ''enhance'', ''enhances'',
       ''enhancing'', ''upgrade'', ''upgrades'', ''upgrading'', ''update'',
       ''updates'', ''updating'', ''fix'', ''fixes'', ''fixing'', ''repair'',
       ''repairs'', ''repairing'', ''correct'', ''corrects'', ''correcting'',
       ''resolve'', ''resolves'', ''resolving'', ''address'', ''addresses'',
       ''addressing'', ''solve'', ''solves'', ''solving'', ''prevent'',
       ''prevents'', ''preventing'', ''avoid'', ''avoids'', ''avoiding'',
       ''eliminate'', ''eliminates'', ''eliminating'', ''reduce'', ''reduces'',
       ''reducing'', ''minimize'', ''minimizes'', ''minimizing'', ''maximize'',
       ''maximizes'', ''maximizing'', ''increase'', ''increases'',
       ''increasing'', ''decrease'', ''decreases'', ''decreasing'', ''expand'',
       ''expands'', ''expanding'', ''extend'', ''extends'', ''extending'',
       ''limit'', ''limits'', ''limiting'', ''restrict'', ''restricts'',
       ''restricting'', ''allow'', ''allows'', ''allowing'', ''permit'',
       ''permits'', ''permitting'', ''enable'', ''enables'', ''enabling'',
       ''disable'', ''disables'', ''disabling'', ''activate'', ''activates'',
       ''activating'', ''deactivate'', ''deactivates'', ''deactivating'',
       ''turn'', ''turns'', ''turning'', ''switch'', ''switches'',
       ''switching'', ''toggle'', ''toggles'', ''toggling'', ''open'',
       ''opens'', ''opening'', ''close'', ''closes'', ''closing'', ''lock'',
       ''locks'', ''locking'', ''unlock'', ''unlocks'', ''unlocking'',
       ''save'', ''saves'', ''saving'', ''load'', ''loads'', ''loading'',
       ''export'', ''exports'', ''exporting'', ''import'', ''imports'',
       ''importing'', ''upload'', ''uploads'', ''uploading'', ''download'',
       ''downloads'', ''downloading'', ''copy'', ''copies'', ''copying'',
       ''paste'', ''pastes'', ''pasting'', ''cut'', ''cuts'', ''cutting'',
       ''move'', ''moves'', ''moving'', ''transfer'', ''transfers'',
       ''transferring'', ''assign'', ''assigns'', ''assigning'', ''allocate'',
       ''allocates'', ''allocating'', ''distribute'', ''distributes'',
       ''distributing'', ''spread'', ''spreads'', ''spreading'', ''divide'',
       ''divides'', ''dividing'', ''split'', ''splits'', ''splitting'',
       ''merge'', ''merges'', ''merging'', ''combine'', ''combines'',
       ''combining'', ''join'', ''joins'', ''joining'', ''connect'',
       ''connects'', ''connecting'', ''link'', ''links'', ''linking'',
       ''attach'', ''attaches'', ''attaching'', ''detach'', ''detaches'',
       ''detaching'', ''separate'', ''separates'', ''separating'', ''isolate'',
       ''isolates'', ''isolating'', ''integrate'', ''integrates'',
       ''integrating'', ''synchronize'', ''synchronizes'', ''synchronizing'',
       ''coordinate'', ''coordinates'', ''coordinating'', ''align'',
       ''aligns'', ''aligning'', ''match'', ''matches'', ''matching'',
       ''compare'', ''compares'', ''comparing'', ''contrast'', ''contrasts'',
       ''contrasting'', ''analyze'', ''analyzes'', ''analyzing'', ''evaluate'',
       ''evaluates'', ''evaluating'', ''assess'', ''assesses'', ''assessing'',
       ''measure'', ''measures'', ''measuring'', ''calculate'', ''calculates'',
       ''calculating'', ''compute'', ''computes'', ''computing'',
       ''determine'', ''determines'', ''determining'', ''identify'',
       ''identifies'', ''identifying'', ''recognize'', ''recognizes'',
       ''recognizing'', ''detect'', ''detects'', ''detecting'', ''discover'',
       ''discovers'', ''discovering'', ''find'', ''finds'', ''finding'',
       ''locate'', ''locates'', ''locating'', ''search'', ''searches'',
       ''searching'', ''filter'', ''filters'', ''filtering'', ''sort'',
       ''sorts'', ''sorting'', ''organize'', ''organizes'', ''organizing'',
       ''arrange'', ''arranges'', ''arranging'', ''structure'', ''structures'',
       ''structuring'', ''format'', ''formats'', ''formatting'', ''style'',
       ''styles'', ''styling'', ''design'', ''designs'', ''designing'',
       ''develop'', ''develops'', ''developing'', ''build'', ''builds'',
       ''building'', ''construct'', ''constructs'', ''constructing'',
       ''create'', ''creates'', ''creating'', ''generate'', ''generates'',
       ''generating'', ''produce'', ''produces'', ''producing'',
       ''manufacture'', ''manufactures'', ''manufacturing'', ''make'',
       ''makes'', ''making'', ''do'', ''does'', ''doing'']"

definition hasForbiddenGuidanceVerbs :: "jsstring \<Rightarrow> bool" where
  "hasForbiddenGuidanceVerbs g =
     testWords forbiddenGuidanceVerbs False (normalizeTextForCompare_openaiClient g)"

definition reasoningWords :: "jsstring list" where
  "reasoningWords = map js
      [''because'', ''so that'', ''in order to'', ''to avoid'', ''to prevent'',
       ''to reduce'', ''this will'', ''this helps'', ''so you'', ''so users'',
       ''benefit'', ''benefits'', ''risk'', ''risks'', ''harm'', ''harms'',
       ''mislead'', ''misleading'', ''regulator'', ''regulatory'', ''intent'',
       ''penalty'', ''enforcement'', ''compliance'', ''guideline'', ''rules'',
       ''rule'']"

definition hasDisallowedReasoningLanguageInFix :: "jsstring \<Rightarrow> bool" where
  "hasDisallowedReasoningLanguageInFix f =
     testWords reasoningWords False (normalizeTextForCompare_openaiClient f)"

definition instructionVerbs :: "jsstring list" where
  "instructionVerbs = map js
      [''remove'', ''delete'', ''ensure'', ''add'', ''include'', ''revise'',
       ''rewrite'', ''insert'', ''limit'', ''restrict'', ''verify'',
       ''document'', ''obtain'', ''disable'', ''update'', ''configure'',
       ''avoid'', ''prevent'', ''disclose'']"

definition hasInstructionVerbInRewrite :: "jsstring \<Rightarrow> bool" where
  "hasInstructionVerbInRewrite f =
     testWords instructionVerbs False (normalizeTextForCompare_openaiClient f)"

definition whyWords :: "jsstring list" where
  "whyWords = map js
      [''because'', ''so that'', ''in order to'', ''to avoid'', ''to prevent'',
       ''to reduce'', ''this violates'', ''regulators'', ''regulatory'',
       ''intent'', ''harm'', ''risk'', ''misleading'', ''benefit'',
       ''this will'', ''this helps'']"

definition hasWhyLanguageInFix :: "jsstring \<Rightarrow> bool" where
  "hasWhyLanguageInFix f = testWords whyWords False (normalizeTextForCompare_openaiClient f)"

definition intentOrHarmWords :: "jsstring list" where
  "intentOrHarmWords = map js
      [''regulator'', ''regulatory'', ''intent'', ''harm'', ''risk'',
       ''mislead'', ''misleading'', ''patient'', ''patients'', ''consumer'',
       ''consumers'', ''public'', ''unsafe'', ''penalt'', ''enforcement'',
       ''benefit'', ''benefits'', ''helps'', ''helpful'', ''compliance'']"

definition hasIntentOrHarmLanguageInFix :: "jsstring \<Rightarrow> bool" where
  "hasIntentOrHarmLanguageInFix f =
     testWords intentOrHarmWords False (normalizeTextForCompare_openaiClient f)"

text \<open>
  \<open>parseRewriteOptions\<close>.  The head of an option, \<open>/Option\s*(?:A|1)\s*[:\-]/i\<close> at the
  start of the rest, gives what follows it; the expression takes the leftmost head.
  After the head come white space and at most one quotation mark, then the captured
  text, which ends at the first place where the look-ahead of the expression holds,
  after at most one quotation mark.  At the end of the string the look-ahead holds, so
  the expression matches wherever a head does.
\<close>

definition isQuote :: "16 word \<Rightarrow> bool" where
  "isQuote c = (c = 0x22 \<or> c = 0x27)"

definition skipSpace :: "jsstring \<Rightarrow> jsstring" where
  "skipSpace s = dropWhile isWhiteSpace s"

definition optionHead :: "16 word list \<Rightarrow> jsstring \<Rightarrow> jsstring option" where
  "optionHead labels s =
     (if regexFold (take 6 s) = js ''option''
      then (case skipSpace (drop 6 s) of
              [] \<Rightarrow> None
            | l # r \<Rightarrow>
                (if lowerUnit l \<in> set labels
                 then (case skipSpace r of
                         [] \<Rightarrow> None
                       | p # rest \<Rightarrow> (if p = 0x3A \<or> p = 0x2D then Some rest else None))
                 else None))
      else None)"

fun findOption :: "16 word list \<Rightarrow> jsstring \<Rightarrow> jsstring option" where
  "findOption labels [] = None"
| "findOption labels (c # cs) =
     (case optionHead labels (c # cs) of
        Some rest \<Rightarrow> Some rest
      | None \<Rightarrow> findOption labels cs)"

definition translationAhead :: "jsstring \<Rightarrow> bool" where
  "translationAhead rest =
     (case rest of
        [] \<Rightarrow> False
      | c # r \<Rightarrow> c = 0x0A
          \<and> regexFold (take (length translationOpening) (skipSpace r)) = regexFold translationOpening)"

definition optionBAhead :: "jsstring \<Rightarrow> bool" where
  "optionBAhead rest =
     (case rest of
        [] \<Rightarrow> False
      | c # r \<Rightarrow> c = 0x0A \<and> optionHead [0x62, 0x32] (skipSpace r) \<noteq> None)"

definition lookaheadA :: "jsstring \<Rightarrow> bool" where
  "lookaheadA rest = (optionBAhead rest \<or> translationAhead rest \<or> rest = [])"

definition lookaheadB :: "jsstring \<Rightarrow> bool" where
  "lookaheadB rest = (translationAhead rest \<or> rest = [])"

fun lazyCapture :: "(jsstring \<Rightarrow> bool) \<Rightarrow> jsstring \<Rightarrow> jsstring" where
  "lazyCapture ahead [] = []"
| "lazyCapture ahead (c # cs) =
     (if (isQuote c \<and> ahead cs) \<or> ahead (c # cs) then []
      else c # lazyCapture ahead cs)"

definition dropOneQuote :: "jsstring \<Rightarrow> jsstring" where
  "dropOneQuote s = (case s of [] \<Rightarrow> [] | c # cs \<Rightarrow> (if isQuote c then cs else c # cs))"

definition captureOption :: "16 word list \<Rightarrow> (jsstring \<Rightarrow> bool) \<Rightarrow> jsstring \<Rightarrow> jsstring option" where
  "captureOption labels ahead raw =
     map_option (\<lambda>rest. lazyCapture ahead (dropOneQuote (skipSpace rest))) (findOption labels raw)"

definition parseRewriteOptions :: "jsstring \<Rightarrow> (jsstring \<times> jsstring) option" where
  "parseRewriteOptions fixText =
     (let raw = trim fixText
      in if raw = [] then None
         else (case (captureOption [0x61, 0x31] lookaheadA raw,
                     captureOption [0x62, 0x32] lookaheadB raw) of
                 (Some m1, Some m2) \<Rightarrow>
                   (let opt1 = stripUnits isQuote (trim m1);
                        opt2 = stripUnits isQuote (trim m2)
                    in if opt1 = [] \<or> opt2 = [] then None else Some (opt1, opt2))
               | _ \<Rightarrow> None))"

text \<open>
  The similarities are compared with the decimal fractions of the source as exact
  rationals: 0.10, 0.35, 0.40, 0.75 and 0.90 are \<open>1/10\<close>, \<open>7/20\<close>, \<open>2/5\<close>, \<open>3/4\<close> and
  \<open>9/10\<close>.
\<close>

definition isRewriteOptionsFix :: "jsstring \<Rightarrow> jsstring option \<Rightarrow> jsstring option \<Rightarrow> bool" where
  "isRewriteOptionsFix detectedLang fixText evidenceText =
     (case fixText of
        None \<Rightarrow> False
      | Some f \<Rightarrow>
          (let text = trim f;
               needsEnglishTranslation = (detectedLang \<noteq> js ''en'');
               mainBody = (if needsEnglishTranslation then stripEnglishTranslationLine text
                           else text)
           in if text = [] then False
              else if needsEnglishTranslation \<and> \<not> hasEnglishTranslationLine text then False
              else (case parseRewriteOptions mainBody of
                      None \<Rightarrow> False
                    | Some (o1, o2) \<Rightarrow>
                        (if detectedLang = js ''hi'' \<and> countMatches isDevanagari mainBody < 10
                         then False
                         else if hasDisallowedReasoningLanguageInFix mainBody then False
                         else if hasInstructionVerbInRewrite mainBody then False
                         else (let ev = orEmpty evidenceText;
                                   sim1 = jaccardSimilarity_openaiClient ev o1;
                                   sim2 = jaccardSimilarity_openaiClient ev o2
                               in if sim1 < 1 / 10 \<or> sim2 < 1 / 10 then False
                                  else if sim1 > 9 / 10 \<or> sim2 > 9 / 10 then False
                                  else True)))))"

record separation =
  badEvidence :: bool
  weakGuidance :: bool
  weakFix :: bool
  tooSimilarGuidanceFix :: bool
  tooSimilarEvidenceFix :: bool
  overlapEG :: rat
  overlapGF :: rat
  overlapEF :: rat

definition violatesSeparation :: "jsstring \<Rightarrow> finding \<Rightarrow> separation" where
  "violatesSeparation detectedLang issue =
     (let evidence0 = orEmpty (evidence issue);
          guidance0 = orEmpty (guidance issue);
          fix = orEmpty (orElse (recommended_fix issue) (recommendation issue));
          overlapEG0 = jaccardSimilarity_openaiClient evidence0 guidance0;
          overlapGF0 = jaccardSimilarity_openaiClient guidance0 fix;
          overlapEF0 = jaccardSimilarity_openaiClient evidence0 fix;
          needsEnglishTranslation = (detectedLang \<noteq> js ''en'')
      in \<lparr> badEvidence = isBadEvidence (evidence issue),
           weakGuidance =
             (isWeakGuidance (guidance issue)
              \<or> hasForbiddenGuidanceVerbs guidance0
              \<or> overlapEG0 \<ge> 7 / 20
              \<or> (needsEnglishTranslation \<and> \<not> hasEnglishTranslationLine guidance0)
              \<or> (detectedLang = js ''hi''
                  \<and> countMatches isDevanagari (stripEnglishTranslationLine guidance0) < 10)),
           weakFix =
             (isWeakRecommendation (Some fix)
              \<or> hasDisallowedReasoningLanguageInFix fix
              \<or> hasWhyLanguageInFix fix
              \<or> hasIntentOrHarmLanguageInFix fix
              \<or> \<not> isRewriteOptionsFix detectedLang (Some fix) (Some evidence0)
              \<or> (needsEnglishTranslation \<and> \<not> hasEnglishTranslationLine fix)
              \<or> (detectedLang = js ''hi''
                  \<and> countMatches isDevanagari (stripEnglishTranslationLine fix) < 10)),
           tooSimilarGuidanceFix = (overlapGF0 > 3 / 4),
           tooSimilarEvidenceFix = (overlapEF0 > 9 / 10),
           overlapEG = overlapEG0,
           overlapGF = overlapGF0,
           overlapEF = overlapEF0 \<rparr>)"

section \<open>Uniqueness and regeneration controller of the email audit\<close>

text \<open>
  The model is asked to regenerate through \<open>regenerateOnlyFix\<close> and
  \<open>regenerateOneIssue\<close>.  Its answers are a parameter: \<open>model n\<close> is the parsed JSON
  answer to the request number \<open>n\<close> of the audit (counted from 0), or \<open>None\<close> when the
  request throws (a transport error, an empty answer, or an answer that is not JSON).
  The requests made so far are kept as a list, whose length numbers the next one.
\<close>

record regenResponse =
  regen_guidance :: "jsstring option"
  regen_recommended_fix :: "jsstring option"

datatype modelCall = FixOnly | FullIssue

type_synonym modelAnswers = "nat \<Rightarrow> regenResponse option"

definition rulePackOf :: "finding \<Rightarrow> jsstring" where
  "rulePackOf issue =
     orDefault (Some (trim (orEmpty (rule_pack issue))))
       (deriveRulePack (orElse (law_reference issue) (regulation issue)))"

definition regenerateOnlyFix :: "modelAnswers \<Rightarrow> nat \<Rightarrow> finding \<Rightarrow> finding option" where
  "regenerateOnlyFix model n issue =
     (let rulePack = rulePackOf issue;
          guidance0 = trim (orEmpty (guidance issue))
      in case model n of
           None \<Rightarrow> None
         | Some repaired \<Rightarrow>
             Some (issue\<lparr> rule_pack := Some rulePack,
                          guidance := Some guidance0,
                          recommended_fix := Some (trim (orEmpty (regen_recommended_fix repaired))) \<rparr>))"

definition regenerateOneIssue :: "modelAnswers \<Rightarrow> nat \<Rightarrow> finding \<Rightarrow> finding option" where
  "regenerateOneIssue model n issue =
     (let rulePack = rulePackOf issue
      in case model n of
           None \<Rightarrow> None
         | Some repaired \<Rightarrow>
             Some (issue\<lparr> rule_pack := Some rulePack,
                          guidance := Some (trim (orEmpty (regen_guidance repaired))),
                          recommended_fix := Some (trim (orEmpty (regen_recommended_fix repaired))) \<rparr>))"

text \<open>The entries of \<open>accepted\<close>: the guidance and the fix of a finding already accepted.\<close>

record accepted =
  acc_guidance :: "jsstring option"
  acc_recommended_fix :: "jsstring option"

definition crossRepeat :: "accepted list \<Rightarrow> finding \<Rightarrow> bool" where
  "crossRepeat acc issue =
     (list_ex (\<lambda>a. jaccardSimilarity_openaiClient (orEmpty (acc_guidance a))
                      (orEmpty (guidance issue)) > 2 / 5) acc
      \<or> list_ex (\<lambda>a. jaccardSimilarity_openaiClient (orEmpty (acc_recommended_fix a))
                      (orEmpty (recommended_fix issue)) > 2 / 5) acc)"

text \<open>
  One pass of the loop \<open>for (let attempt = 1; attempt <= 4; attempt++)\<close> for an
  issue: the state after the pass, and whether the loop goes on to the next attempt
  (\<open>True\<close>) or is left by \<open>break\<close> (\<open>False\<close>).  The flags \<open>v\<close> and \<open>crossRepeat\<close> are those
  of the issue at the start of the pass, also after the fix alone has been regenerated.
\<close>

definition attemptPass ::
  "jsstring \<Rightarrow> modelAnswers \<Rightarrow> accepted list \<Rightarrow> finding \<times> modelCall list
     \<Rightarrow> bool \<times> finding \<times> modelCall list" where
  "attemptPass detectedLang model acc state =
     (let issue = fst state; calls = snd state;
          v = violatesSeparation detectedLang issue;
          repeated = crossRepeat acc issue;
          onlyFix = (tooSimilarGuidanceFix v \<and> \<not> badEvidence v \<and> \<not> weakGuidance v);
          regenerated = (if onlyFix then regenerateOnlyFix model (length calls) issue
                         else None);
          calls1 = (if onlyFix then calls @ [FixOnly] else calls);
          issue1 = (case regenerated of None \<Rightarrow> issue | Some i \<Rightarrow> i);
          fixAccepted =
            (case regenerated of
               None \<Rightarrow> False
             | Some i \<Rightarrow>
                 (let vAfter = violatesSeparation detectedLang i
                  in \<not> tooSimilarGuidanceFix vAfter \<and> \<not> weakFix vAfter));
          needRegen = (badEvidence v \<or> weakGuidance v \<or> weakFix v
                       \<or> tooSimilarEvidenceFix v \<or> repeated)
      in if fixAccepted then (False, issue1, calls1)
         else if \<not> needRegen then (False, issue1, calls1)
         else (case regenerateOneIssue model (length calls1) issue1 of
                 None \<Rightarrow> (False, issue1, calls1 @ [FullIssue])
               | Some issue2 \<Rightarrow> (True, issue2, calls1 @ [FullIssue])))"

text \<open>The loop, from the value of \<open>attempt\<close> on.\<close>

function attemptLoop ::
  "jsstring \<Rightarrow> modelAnswers \<Rightarrow> accepted list \<Rightarrow> nat \<Rightarrow> finding \<times> modelCall list
     \<Rightarrow> finding \<times> modelCall list" where
  "attemptLoop detectedLang model acc attempt state =
     (if attempt > 4 then state
      else (let pass = attemptPass detectedLang model acc state
            in if fst pass then attemptLoop detectedLang model acc (attempt + 1) (snd pass)
               else snd pass))"
  by pat_completeness auto
termination
  by (relation "measure (\<lambda>(detectedLang, model, acc, attempt, state). 5 - attempt)") auto

text \<open>The fallbacks that force distinct guidance and fix, without a request to the model.\<close>

definition forcedFallback :: "jsstring \<Rightarrow> finding \<Rightarrow> finding" where
  "forcedFallback detectedLang issue =
     (let rp = orDefault (Some (trim (orEmpty (rule_pack issue)))) (js ''General'')
      in issue\<lparr> guidance := Some (deriveGuidanceFallback rp),
                recommended_fix :=
                  Some (deriveRecommendationFallback detectedLang (issue\<lparr>rule_pack := Some rp\<rparr>)) \<rparr>)"

definition fallbackFix :: "jsstring \<Rightarrow> finding \<Rightarrow> finding" where
  "fallbackFix detectedLang issue =
     (let rp = orDefault (Some (trim (orEmpty (rule_pack issue)))) (js ''General'')
      in issue\<lparr> recommended_fix :=
                  Some (deriveRecommendationFallback detectedLang (issue\<lparr>rule_pack := Some rp\<rparr>)) \<rparr>)"

text \<open>The final backstop: guidance and fix that still overlap above 0.75.\<close>

definition finalBackstop ::
  "jsstring \<Rightarrow> modelAnswers \<Rightarrow> finding \<times> modelCall list \<Rightarrow> finding \<times> modelCall list" where
  "finalBackstop detectedLang model state =
     (let issue = fst state; calls = snd state;
          finalOverlap = jaccardSimilarity_openaiClient (orEmpty (guidance issue))
                           (orEmpty (recommended_fix issue))
      in if finalOverlap > 3 / 4
         then (case regenerateOnlyFix model (length calls) issue of
                 None \<Rightarrow> (forcedFallback detectedLang issue, calls @ [FixOnly])
               | Some regenerated \<Rightarrow>
                   (let overlapAfter =
                          jaccardSimilarity_openaiClient (orEmpty (guidance regenerated))
                            (orEmpty (recommended_fix regenerated))
                    in if overlapAfter \<le> 3 / 4
                          \<and> isRewriteOptionsFix detectedLang (recommended_fix regenerated)
                               (evidence regenerated)
                       then (regenerated, calls @ [FixOnly])
                       else (forcedFallback detectedLang issue, calls @ [FixOnly])))
         else (issue, calls))"

text \<open>The validation of the fix as two rewrite options grounded in the evidence.\<close>

definition finalValidation ::
  "jsstring \<Rightarrow> modelAnswers \<Rightarrow> finding \<times> modelCall list \<Rightarrow> finding \<times> modelCall list" where
  "finalValidation detectedLang model state =
     (let issue = fst state; calls = snd state
      in if \<not> isRewriteOptionsFix detectedLang (recommended_fix issue) (evidence issue)
         then (case regenerateOnlyFix model (length calls) issue of
                 None \<Rightarrow> (fallbackFix detectedLang issue, calls @ [FixOnly])
               | Some issue1 \<Rightarrow>
                   (if \<not> isRewriteOptionsFix detectedLang (recommended_fix issue1)
                          (evidence issue1)
                    then (fallbackFix detectedLang issue1, calls @ [FixOnly])
                    else (issue1, calls @ [FixOnly])))
         else (issue, calls))"

text \<open>
  The body of the loop over the issues, for one issue: the rule pack is set first,
  then come the attempts, the final backstop and the validation of the fix.
\<close>

definition withRulePack :: "finding \<Rightarrow> finding" where
  "withRulePack issue0 =
     (let lawRef = orEmpty (orElse (law_reference issue0) (regulation issue0))
      in issue0\<lparr> rule_pack :=
           Some (orDefault (Some (trim (orEmpty (rule_pack issue0))))
                   (deriveRulePack (Some lawRef))) \<rparr>)"

definition processIssue ::
  "jsstring \<Rightarrow> modelAnswers \<Rightarrow> accepted list \<Rightarrow> finding \<times> modelCall list
     \<Rightarrow> finding \<times> modelCall list" where
  "processIssue detectedLang model acc state =
     finalValidation detectedLang model
       (finalBackstop detectedLang model
          (attemptLoop detectedLang model acc 1 (withRulePack (fst state), snd state)))"

text \<open>The requests to the model that are made for one issue.\<close>

definition requestsFor ::
  "jsstring \<Rightarrow> modelAnswers \<Rightarrow> accepted list \<Rightarrow> finding \<Rightarrow> modelCall list
     \<Rightarrow> modelCall list" where
  "requestsFor detectedLang model acc issue calls =
     drop (length calls) (snd (processIssue detectedLang model acc (issue, calls)))"

text \<open>
  The loop over the issues: the state is the list \<open>accepted\<close>, the list \<open>updated\<close> and
  the requests made so far.
\<close>

fun enforceIssues ::
  "jsstring \<Rightarrow> modelAnswers \<Rightarrow> finding list
     \<Rightarrow> accepted list \<times> finding list \<times> modelCall list
     \<Rightarrow> accepted list \<times> finding list \<times> modelCall list" where
  "enforceIssues detectedLang model [] state = state"
| "enforceIssues detectedLang model (issue0 # rest) (acc, updated, calls) =
     (let done = processIssue detectedLang model acc (issue0, calls);
          issue = fst done
      in enforceIssues detectedLang model rest
           (acc @ [\<lparr> acc_guidance = guidance issue,
                      acc_recommended_fix = recommended_fix issue \<rparr>],
            updated @ [issue], snd done))"

section \<open>Normalized violations and the completed email audit\<close>

text \<open>
  The violation that \<open>runOpenAIAudit\<close> lists for the issue \<open>it\<close> with the index \<open>idx\<close>.
  For a language other than English the missing translations are requested from the
  model; \<open>translate idx field\<close> is the content of its answer for the field of this
  issue (\<open>None\<close> when the request fails or the answer has no content).
\<close>

definition withTranslation ::
  "(nat \<Rightarrow> jsstring \<Rightarrow> jsstring option) \<Rightarrow> jsstring \<Rightarrow> nat \<Rightarrow> jsstring \<Rightarrow> jsstring \<Rightarrow> jsstring" where
  "withTranslation translate detectedLang idx fieldName text =
     (if detectedLang \<noteq> js ''en'' \<and> \<not> hasEnglishTranslationLine text
      then ensureEnglishTranslation (translate idx fieldName) detectedLang text
      else text)"

definition normalizeIssue ::
  "jsstring \<Rightarrow> jsstring \<Rightarrow> (nat \<Rightarrow> jsstring \<Rightarrow> jsstring option) \<Rightarrow> nat \<Rightarrow> finding \<Rightarrow> finding" where
  "normalizeIssue detectedLang auditInput translate idx it =
     (let severity0 = toTitleSeverity (severity it);
          lawRef = orDefault (Some (trim (orEmpty (law_reference it))))
                     (js ''Regulatory reference required'');
          rulePack = orDefault (Some (trim (orEmpty (rule_pack it)))) (deriveRulePack (Some lawRef));
          violation0 = orDefault (Some (trim (orEmpty (violation it))))
                         (js ''Compliance issue detected'');
          evidence0 = trim (orEmpty (evidence it));
          guidance0 = trim (orEmpty (guidance it));
          recommendation0 = trim (orEmpty (orElse (recommended_fix it) (recommendation it)));
          evidence1 = (if isBadEvidence (Some evidence0) then deriveEvidenceFallback auditInput it
                       else evidence0);
          guidance1 = (if isWeakGuidance (Some guidance0) then deriveGuidanceFallback rulePack
                       else guidance0);
          recommendation1 =
            (if isWeakRecommendation (Some recommendation0)
             then deriveRecommendationFallback detectedLang (it\<lparr>rule_pack := Some rulePack\<rparr>)
             else recommendation0);
          violation2 = withTranslation translate detectedLang idx (js ''violation'') violation0;
          evidence2 = withTranslation translate detectedLang idx (js ''evidence'') evidence1;
          guidance2 = withTranslation translate detectedLang idx (js ''guidance'') guidance1;
          recommendation2 =
            withTranslation translate detectedLang idx (js ''recommended_fix'') recommendation1;
          formattedEvidence = trim (js ''EVIDENCE / URL'' @ [0x0A] @ evidence2);
          formattedGuidance = trim (js ''GUIDANCE'' @ [0x0A] @ guidance2);
          formattedFix =
            (if includes_js recommendation2 (js ''RECOMMENDED FIX'') then recommendation2
             else trim (js ''RECOMMENDED FIX'' @ [0x0A] @ recommendation2))
      in emptyFinding\<lparr> severity := Some severity0,
           regulation := Some (rulePack @ js '' / '' @ lawRef),
           description := Some violation2,
           evidence := Some evidence2,
           recommended_fix := Some recommendation2,
           problematicContent := Some formattedEvidence,
           suggestion := Some formattedGuidance,
           solution := Some formattedFix,
           index := Some (idx + 1) \<rparr>)"

text \<open>\<open>xs.map((it, idx) => f(idx, it))\<close>.\<close>

fun mapIndexed :: "(nat \<Rightarrow> 'a \<Rightarrow> 'b) \<Rightarrow> nat \<Rightarrow> 'a list \<Rightarrow> 'b list" where
  "mapIndexed f n [] = []"
| "mapIndexed f n (x # xs) = f n x # mapIndexed f (Suc n) xs"

text \<open>
  The result of an email audit that is not answered from the cache, from the audit
  input and the parsed first answer of the model.
\<close>

definition completedAudit ::
  "modelAnswers \<Rightarrow> (nat \<Rightarrow> jsstring \<Rightarrow> jsstring option) \<Rightarrow> jsstring \<Rightarrow> modelResponse \<Rightarrow> auditOutput" where
  "completedAudit model translate auditInput auditResult =
     (let detectedLang = detectContentLanguage auditInput;
          issues = arrayOr (resp_issues auditResult) [];
          updated = fst (snd (enforceIssues detectedLang model issues ([], [], [])));
          normalizedViolations =
            mapIndexed (normalizeIssue detectedLang auditInput translate) 0 updated
      in finalResult auditResult normalizedViolations)"

section \<open>Notions used in the proofs\<close>

text \<open>A string has ink when some code unit of it is not white space.\<close>

definition hasInk :: "jsstring \<Rightarrow> bool" where
  "hasInk s = (filter (\<lambda>c. \<not> isWhiteSpace c) s \<noteq> [])"

text \<open>A string is inked when it is not empty and does not start with white space.\<close>

definition inked :: "jsstring \<Rightarrow> bool" where
  "inked s = (s \<noteq> [] \<and> \<not> isWhiteSpace (hd s))"

abbreviation ink :: "jsstring \<Rightarrow> jsstring" where
  "ink s \<equiv> filter (\<lambda>c. \<not> isWhiteSpace c) s"

text \<open>The number of full regenerations among some requests.\<close>

abbreviation fulls :: "modelCall list \<Rightarrow> nat" where
  "fulls new \<equiv> length (filter (\<lambda>c. c = FullIssue) new)"

section \<open>Concrete inputs\<close>

text \<open>Inputs at which the theorems below are evaluated.\<close>

definition tieText :: jsstring where
  "tieText = replicate 20 0x0915 @ replicate 20 0x61"

definition two_high_one_medium :: "finding list" where
  "two_high_one_medium =
     [emptyFinding\<lparr>severity := Some (js ''High'')\<rparr>,
      emptyFinding\<lparr>severity := Some (js ''HIGH'')\<rparr>,
      emptyFinding\<lparr>severity := Some (js ''Medium'')\<rparr>]"

definition two_high_one_medium_other :: "finding list" where
  "two_high_one_medium_other =
     [emptyFinding\<lparr>severity := Some (js ''High''), evidence := Some (js ''cures all'')\<rparr>,
      emptyFinding\<lparr>severity := Some (js ''HIGH''), guidance := Some (js ''why'')\<rparr>,
      emptyFinding\<lparr>severity := Some (js ''Medium''), index := Some 3\<rparr>]"

definition five_medium :: "finding list" where
  "five_medium = replicate 5 (emptyFinding\<lparr>severity := Some (js ''Medium'')\<rparr>)"

definition storedResult :: cachedAuditResult where
  "storedResult = \<lparr> cached_risk_level = Some (js ''Low''), cached_risk_score = Some 95,
     cached_status = Some (js ''COMPLIANT''),
     cached_violations = Some [emptyFinding\<lparr>severity := Some (js ''High'')\<rparr>],
     cached_compliance_flags = None, cached_summary = None, cached_explanation = None,
     cached_recommended_actions = None, cached_detected_content_types = None,
     cached_recommended_fix = None \<rparr>"

definition hitDoc :: auditDoc where
  "hitDoc = \<lparr> doc_inputHash = js ''abc'', doc_status = js ''completed'',
     doc_auditResult = Some storedResult \<rparr>"

definition cacheStore :: "auditDoc list" where
  "cacheStore =
     [\<lparr> doc_inputHash = js ''abc'', doc_status = js ''failed'', doc_auditResult = None \<rparr>,
      hitDoc]"

definition smartQuoted :: jsstring where
  "smartQuoted = [0x201C] @ js ''Cure'' @ [0x201D]"

definition plainQuoted :: jsstring where
  "plainQuoted = [0x22] @ js ''Cure'' @ [0x22]"

definition cureClaim :: jsstring where
  "cureClaim = js ''This medicine guarantees 100% cure, no side effects ever.''"

definition reliefClaim :: jsstring where
  "reliefClaim = js ''Our clinic promises permanent relief in one visit.''"

definition sameGuidance :: jsstring where
  "sameGuidance = js ''Cure promises mislead patients.''"

definition sameFix :: jsstring where
  "sameFix = js ''Results may differ.''"

definition cureIssue :: finding where
  "cureIssue = emptyFinding\<lparr> severity := Some (js ''High''),
     law_reference := Some (js ''ASCI Code''), rule_pack := Some (js ''ASCI Healthcare''),
     violation := Some (js ''Guaranteed cure claim''), evidence := Some cureClaim,
     guidance := Some sameGuidance, recommended_fix := Some sameFix \<rparr>"

definition reliefIssue :: finding where
  "reliefIssue = emptyFinding\<lparr> severity := Some (js ''Medium''),
     law_reference := Some (js ''ASCI Code''), rule_pack := Some (js ''ASCI Healthcare''),
     violation := Some (js ''Permanent relief promise''), evidence := Some reliefClaim,
     guidance := Some sameGuidance, recommended_fix := Some sameFix \<rparr>"

text \<open>A model that answers every regeneration request with the same guidance and fix.\<close>

definition stubbornModel :: modelAnswers where
  "stubbornModel = (\<lambda>n. Some \<lparr> regen_guidance = Some sameGuidance,
      regen_recommended_fix = Some sameFix \<rparr>)"

text \<open>An issue that the stubborn model gives back as it is.\<close>

definition settled :: "finding \<Rightarrow> bool" where
  "settled issue \<longleftrightarrow> guidance issue = Some sameGuidance \<and> recommended_fix issue = Some sameFix
     \<and> rule_pack issue = Some (js ''ASCI Healthcare'')"

definition noTranslation :: "nat \<Rightarrow> jsstring \<Rightarrow> jsstring option" where
  "noTranslation = (\<lambda>idx fieldName. None)"

definition emailInput :: jsstring where
  "emailInput = js ''EMAIL BODY: cure''"

definition twoIssues :: modelResponse where
  "twoIssues = \<lparr> resp_issues = Some [cureIssue, reliefIssue], resp_summary = None,
     resp_explanation = None, resp_recommended_actions = None, resp_compliance_flags = None,
     resp_detected_content_types = None \<rparr>"

definition shortGuidance :: jsstring where
  "shortGuidance = js ''Misleading claim.''"

definition shortFix :: jsstring where
  "shortFix = js ''Remove the claim.''"

definition shortIssue :: finding where
  "shortIssue = emptyFinding\<lparr> severity := Some (js ''High''),
     rule_pack := Some (js ''ASCI Healthcare''), evidence := Some cureClaim,
     guidance := Some shortGuidance, recommended_fix := Some shortFix \<rparr>"

text \<open>A model that answers every regeneration request with the short guidance and fix.\<close>

definition repeatingModel :: modelAnswers where
  "repeatingModel = (\<lambda>n. Some \<lparr> regen_guidance = Some shortGuidance,
      regen_recommended_fix = Some shortFix \<rparr>)"

definition longEvidence :: jsstring where
  "longEvidence = concat (replicate 30 (js ''cure now '')) @ js ''!''"

definition longEvidenceIssue :: finding where
  "longEvidenceIssue = emptyFinding\<lparr> severity := Some (js ''High''),
     violation := Some (js ''Repeated cure claim''), evidence := Some longEvidence \<rparr>"

definition oneLongIssue :: modelResponse where
  "oneLongIssue = \<lparr> resp_issues = Some [longEvidenceIssue], resp_summary = None,
     resp_explanation = None, resp_recommended_actions = None, resp_compliance_flags = None,
     resp_detected_content_types = None \<rparr>"

definition silentModel :: modelAnswers where
  "silentModel = (\<lambda>n. None)"

definition sampleTranscript :: jsstring where
  "sampleTranscript = js ''It cures all. Call now''"

definition sampleText :: jsstring where
  "sampleText = js ''It cures all.''"

text \<open>An issue that the repeating model gives back as it is.\<close>

definition shortSettled :: "finding \<Rightarrow> bool" where
  "shortSettled issue \<longleftrightarrow> guidance issue = Some shortGuidance
     \<and> recommended_fix issue = Some shortFix \<and> rule_pack issue = Some (js ''ASCI Healthcare'')"

text \<open>The findings accepted before, when one finding with the same texts has been accepted.\<close>

definition earlier :: "accepted list" where
  "earlier = [\<lparr> acc_guidance = Some sameGuidance, acc_recommended_fix = Some sameFix \<rparr>]"

text \<open>The guidance under its heading, as the result of the email audit lists it.\<close>

definition headedGuidance :: jsstring where
  "headedGuidance = js ''GUIDANCE'' @ [0x0A] @ sameGuidance"

section \<open>Evaluation of string functions\<close>

lemmas string_eval = js_def toLowerCase_def lowerUnit_def toUpperCase_def upperUnit_def
  isWhiteSpace_def trim_def trimStart_def trimEnd_def deleteUnits_def blankUnits_def
  newSet_def orEmpty_def orDefault_def

section \<open>The language classifier\<close>

lemma lang_tags: "js ''hi'' \<noteq> js ''en''"
  by (simp add: js_def)

text \<open>
  C10, as amended.  \<open>detectContentLanguage\<close> is a total function whose result is \<open>hi\<close> or
  \<open>en\<close>: it is \<open>hi\<close> exactly when the Devanagari count is at least 20 and at least the
  Latin-letter count (a tie gives \<open>hi\<close>), and \<open>en\<close> for every other input, the empty
  string among them.
\<close>

theorem detectContentLanguage_spec:
  "(detectContentLanguage s = js ''hi'' \<longleftrightarrow>
      20 \<le> countMatches isDevanagari s
      \<and> countMatches isLatinLetter s \<le> countMatches isDevanagari s)
   \<and> (detectContentLanguage s = js ''en'' \<longleftrightarrow>
      \<not> (20 \<le> countMatches isDevanagari s
         \<and> countMatches isLatinLetter s \<le> countMatches isDevanagari s))
   \<and> detectContentLanguage s \<in> {js ''en'', js ''hi''}
   \<and> detectContentLanguage [] = js ''en''"
  using lang_tags by (simp add: detectContentLanguage_def Let_def countMatches_def)

text \<open>
  The claim as stated asks for a Devanagari count that exceeds the Latin count.  A text
  of 20 Devanagari letters and 20 Latin letters is classified \<open>hi\<close> although the first
  count does not exceed the second.
\<close>

theorem detectContentLanguage_tie_counterexample:
  "countMatches isDevanagari tieText = 20 \<and> countMatches isLatinLetter tieText = 20
   \<and> \<not> countMatches isDevanagari tieText > countMatches isLatinLetter tieText
   \<and> detectContentLanguage tieText = js ''hi''"
  by (simp add: detectContentLanguage_def Let_def countMatches_def tieText_def
      isDevanagari_def isLatinLetter_def)

section \<open>The risk scorer\<close>

lemma js_labels_distinct0:
  "js ''critical'' \<noteq> js ''high''" "js ''critical'' \<noteq> js ''medium''"
  "js ''critical'' \<noteq> js ''low''" "js ''high'' \<noteq> js ''medium''"
  "js ''high'' \<noteq> js ''low''" "js ''medium'' \<noteq> js ''low''"
  "js ''critical'' \<noteq> []" "js ''high'' \<noteq> []" "js ''medium'' \<noteq> []" "js ''low'' \<noteq> []"
  by (simp_all add: js_def)

lemmas js_labels_distinct = js_labels_distinct0 js_labels_distinct0[symmetric]

lemma toLowerCase_Medium:
  "toLowerCase (js ''Medium'') = js ''medium''" "toLowerCase (js ''medium'') = js ''medium''"
  "toLowerCase [] = []"
  by (simp_all add: toLowerCase_def lowerUnit_def js_def)

lemma severityPenalty_label:
  assumes "d = js ''Medium'' \<or> d = js ''medium'' \<or> d = []"
  shows "severityPenalty (toLowerCase (orDefault (severity v) d)) = labelPenalty (severityLabel v)"
  using assms
  by (auto simp: severityPenalty_def labelPenalty_def severityLabel_def orDefault_def orEmpty_def
      toLowerCase_Medium js_labels_distinct split: option.splits)

lemma foldl_scoreStep:
  assumes "d = js ''Medium'' \<or> d = js ''medium'' \<or> d = []"
  shows "foldl (scoreStep d) s vs = s - (\<Sum>v\<leftarrow>vs. labelPenalty (severityLabel v))"
  using assms by (induction vs arbitrary: s) (simp_all add: scoreStep_def severityPenalty_label)

lemma count_Cons:
  "countLabel ls (v # vs) = (if severityLabel v \<in> set ls then 1 else 0) + countLabel ls vs"
  "countUnrecognized (v # vs) =
     (if severityLabel v \<notin> set [js ''critical'', js ''high'', js ''medium'', js ''low'']
      then 1 else 0) + countUnrecognized vs"
  by (simp_all add: countLabel_def countUnrecognized_def)

lemma labelPenalty_split:
  "labelPenalty l =
     20 * (if l \<in> set [js ''high'', js ''critical''] then 1 else 0)
     + 10 * (if l \<in> set [js ''medium''] then 1 else 0)
     + 5 * (if l \<in> set [js ''low''] then 1 else 0)
     + 10 * (if l \<notin> set [js ''critical'', js ''high'', js ''medium'', js ''low''] then 1 else 0)"
  by (simp add: labelPenalty_def js_labels_distinct)

lemma sum_labelPenalty:
  "(\<Sum>v\<leftarrow>vs. labelPenalty (severityLabel v)) =
     20 * countLabel [js ''high'', js ''critical''] vs + 10 * countLabel [js ''medium''] vs
     + 5 * countLabel [js ''low''] vs + 10 * countUnrecognized vs"
proof (induction vs)
  case Nil
  then show ?case by (simp add: countLabel_def countUnrecognized_def)
next
  case (Cons v vs)
  have "(\<Sum>v\<leftarrow>v # vs. labelPenalty (severityLabel v))
      = labelPenalty (severityLabel v) + (\<Sum>v\<leftarrow>vs. labelPenalty (severityLabel v))"
    by simp
  also note Cons.IH
  finally show ?case
    unfolding count_Cons labelPenalty_split[of "severityLabel v"] by (simp only: algebra_simps)
qed

lemma scoreWithDefault_formula:
  assumes "d = js ''Medium'' \<or> d = js ''medium'' \<or> d = []"
  shows "scoreWithDefault d vs =
     max 0 (min 100 (100 - 20 * countLabel [js ''high'', js ''critical''] vs
       - 10 * countLabel [js ''medium''] vs - 5 * countLabel [js ''low''] vs
       - 10 * countUnrecognized vs))"
proof (cases vs)
  case Nil
  then show ?thesis by (simp add: scoreWithDefault_def countLabel_def countUnrecognized_def)
next
  case (Cons a list)
  then have "scoreWithDefault d vs = min 100 (max 0 (foldl (scoreStep d) 100 vs))"
    by (simp add: scoreWithDefault_def)
  then show ?thesis
    unfolding foldl_scoreStep[OF assms] sum_labelPenalty by (simp add: min_def max_def)
qed

lemma foldl_scoreStep_cong:
  "map severity vs = map severity ws \<Longrightarrow> foldl (scoreStep d) s vs = foldl (scoreStep d) s ws"
proof (induction vs arbitrary: ws s)
  case Nil
  then show ?case by simp
next
  case (Cons v vs)
  then obtain w ws' where ws: "ws = w # ws'" "severity v = severity w"
      "map severity vs = map severity ws'"
    by (cases ws) auto
  then show ?case using Cons.IH[of ws'] by (simp add: scoreStep_def)
qed

lemma scoreWithDefault_cong:
  "map severity vs = map severity ws \<Longrightarrow> scoreWithDefault d vs = scoreWithDefault d ws"
  using foldl_scoreStep_cong[of vs ws d 100] map_eq_imp_length_eq[of severity vs severity ws]
  by (simp add: scoreWithDefault_def)

lemma score_empty: "scoreWithDefault d [] = 100"
  by (simp add: scoreWithDefault_def)

text \<open>
  C1.  The risk score of every finding list is
  \<open>max 0 (min 100 (100 - 20 * (#High + #Critical) - 10 * #Medium - 5 * #Low - 10 * #unrecognized))\<close>,
  the labels being compared after lower-casing and a missing or unrecognized severity
  costing 10 like Medium.  The three copies of the scorer compute the same function, the
  empty list scores 100, and two lists with the same severities score the same.
\<close>

theorem risk_score_formula:
  "calculateDeterministicRiskScore vs =
     max 0 (min 100 (100 - 20 * countLabel [js ''high'', js ''critical''] vs
       - 10 * countLabel [js ''medium''] vs - 5 * countLabel [js ''low''] vs
       - 10 * countUnrecognized vs))
   \<and> calculateDeterministicRiskScore_content vs = calculateDeterministicRiskScore vs
   \<and> risk_score_rewrite vs = calculateDeterministicRiskScore vs
   \<and> calculateDeterministicRiskScore [] = 100
   \<and> (map severity vs = map severity ws \<longrightarrow>
        calculateDeterministicRiskScore vs = calculateDeterministicRiskScore ws)"
proof -
  let ?f = "max 0 (min 100 (100 - 20 * countLabel [js ''high'', js ''critical''] vs
       - 10 * countLabel [js ''medium''] vs - 5 * countLabel [js ''low''] vs
       - 10 * countUnrecognized vs))"
  have a: "calculateDeterministicRiskScore vs = ?f"
    unfolding calculateDeterministicRiskScore_def by (rule scoreWithDefault_formula) simp
  have b: "calculateDeterministicRiskScore_content vs = ?f"
    unfolding calculateDeterministicRiskScore_content_def by (rule scoreWithDefault_formula) simp
  have c: "risk_score_rewrite vs = ?f"
    unfolding risk_score_rewrite_def by (rule scoreWithDefault_formula) simp
  have d: "calculateDeterministicRiskScore [] = 100"
    by (simp add: calculateDeterministicRiskScore_def scoreWithDefault_def)
  have e: "map severity vs = map severity ws \<longrightarrow>
        calculateDeterministicRiskScore vs = calculateDeterministicRiskScore ws"
    unfolding calculateDeterministicRiskScore_def by (rule impI) (rule scoreWithDefault_cong)
  from a b c d e show ?thesis by (simp only:)
qed

lemma two_high_one_medium_score: "calculateDeterministicRiskScore two_high_one_medium = 50"
  by (simp add: calculateDeterministicRiskScore_def scoreWithDefault_def two_high_one_medium_def
      scoreStep_def severityPenalty_def toLowerCase_def lowerUnit_def js_def orDefault_def
      emptyFinding_def)

theorem risk_score_formula_witness:
  "map severity two_high_one_medium = map severity two_high_one_medium_other
   \<and> two_high_one_medium \<noteq> two_high_one_medium_other
   \<and> calculateDeterministicRiskScore two_high_one_medium_other = 50"
proof -
  have h: "map severity two_high_one_medium = map severity two_high_one_medium_other"
    by (simp add: two_high_one_medium_def two_high_one_medium_other_def)
  have n: "two_high_one_medium \<noteq> two_high_one_medium_other"
    by (simp add: two_high_one_medium_def two_high_one_medium_other_def emptyFinding_def)
  from risk_score_formula[of two_high_one_medium two_high_one_medium_other] h
  have "calculateDeterministicRiskScore two_high_one_medium
      = calculateDeterministicRiskScore two_high_one_medium_other"
    by blast
  with h n two_high_one_medium_score show ?thesis by simp
qed

section \<open>Risk level and compliance status\<close>

lemma level_labels:
  "js ''High'' \<noteq> js ''Medium''" "js ''High'' \<noteq> js ''Low''" "js ''Medium'' \<noteq> js ''Low''"
  "js ''Medium'' \<noteq> js ''High''" "js ''Low'' \<noteq> js ''High''" "js ''Low'' \<noteq> js ''Medium''"
  "js ''HIGH'' \<noteq> js ''MEDIUM''" "js ''HIGH'' \<noteq> js ''LOW''" "js ''MEDIUM'' \<noteq> js ''LOW''"
  "js ''MEDIUM'' \<noteq> js ''HIGH''" "js ''LOW'' \<noteq> js ''HIGH''" "js ''LOW'' \<noteq> js ''MEDIUM''"
  "js ''NON_COMPLIANT'' \<noteq> js ''COMPLIANT''" "js ''COMPLIANT'' \<noteq> js ''NON_COMPLIANT''"
  "js ''NON_COMPLIANT'' \<noteq> js ''NEEDS_REVIEW''" "js ''NEEDS_REVIEW'' \<noteq> js ''NON_COMPLIANT''"
  "js ''NEEDS_REVIEW'' \<noteq> js ''COMPLIANT''" "js ''COMPLIANT'' \<noteq> js ''NEEDS_REVIEW''"
  by (simp_all add: js_def)

lemma normalizeRiskLevel_None:
  "normalizeRiskLevel None s =
     (if s \<ge> 70 then js ''HIGH'' else if s \<ge> 40 then js ''MEDIUM'' else js ''LOW'')"
proof -
  have "toUpperCase (orEmpty None) \<notin> set [js ''LOW'', js ''MEDIUM'', js ''HIGH'']"
    by (simp add: toUpperCase_def orEmpty_def js_def)
  then show ?thesis unfolding normalizeRiskLevel_def Let_def by (simp only: if_False)
qed

text \<open>
  C2, as amended.  In the email audit and in the rewrite audit the level is \<open>High\<close> from
  70, \<open>Medium\<close> from 40 to 69 and \<open>Low\<close> below 40, and the status is \<open>NON_COMPLIANT\<close> from
  70 and \<open>COMPLIANT\<close> below.  In the content audit the level is \<open>HIGH\<close>, \<open>MEDIUM\<close> or \<open>LOW\<close>
  with the same boundaries 70 and 40, and the status that the controller derives from it
  is \<open>NON_COMPLIANT\<close> from 70, \<open>NEEDS_REVIEW\<close> from 40 to 69 and \<open>COMPLIANT\<close> below 40.  In
  every module the status is \<open>NON_COMPLIANT\<close> exactly when the level is the highest one,
  which is from 70.
\<close>

theorem level_and_status_mapping:
  "(deterministicRiskLevel s = js ''High'' \<longleftrightarrow> s \<ge> 70)
   \<and> (deterministicRiskLevel s = js ''Medium'' \<longleftrightarrow> 40 \<le> s \<and> s < 70)
   \<and> (deterministicRiskLevel s = js ''Low'' \<longleftrightarrow> s < 40)
   \<and> (complianceStatus s = js ''NON_COMPLIANT'' \<longleftrightarrow> s \<ge> 70)
   \<and> (complianceStatus s = js ''COMPLIANT'' \<longleftrightarrow> s < 70)
   \<and> (normalizeRiskLevel None s = js ''HIGH'' \<longleftrightarrow> s \<ge> 70)
   \<and> (normalizeRiskLevel None s = js ''MEDIUM'' \<longleftrightarrow> 40 \<le> s \<and> s < 70)
   \<and> (normalizeRiskLevel None s = js ''LOW'' \<longleftrightarrow> s < 40)
   \<and> (mapRiskLevelToStatus (normalizeRiskLevel None s) = js ''NON_COMPLIANT'' \<longleftrightarrow> s \<ge> 70)
   \<and> (mapRiskLevelToStatus (normalizeRiskLevel None s) = js ''NEEDS_REVIEW'' \<longleftrightarrow> 40 \<le> s \<and> s < 70)
   \<and> (mapRiskLevelToStatus (normalizeRiskLevel None s) = js ''COMPLIANT'' \<longleftrightarrow> s < 40)"
  unfolding normalizeRiskLevel_None
  by (simp add: deterministicRiskLevel_def complianceStatus_def mapRiskLevelToStatus_def level_labels)

lemma five_medium_score: "calculateDeterministicRiskScore_content five_medium = 50"
  by (simp add: calculateDeterministicRiskScore_content_def scoreWithDefault_def five_medium_def
      scoreStep_def severityPenalty_def toLowerCase_def lowerUnit_def js_def orDefault_def
      emptyFinding_def numeral_nat)

text \<open>
  The claim as stated gives every score below 70 the status \<open>COMPLIANT\<close>.  A content audit
  with five Medium findings scores 50; its level is \<open>MEDIUM\<close> and the status of the stored
  result is \<open>NEEDS_REVIEW\<close>.
\<close>

theorem content_status_counterexample:
  "riskScore (contentResult None None five_medium) = 50
   \<and> riskLevel (contentResult None None five_medium) = js ''MEDIUM''
   \<and> content_status (contentResult None None five_medium) = js ''NEEDS_REVIEW''
   \<and> content_status (contentResult None None five_medium) \<noteq> js ''COMPLIANT''"
  by (simp add: contentResult_def Let_def five_medium_score normalizeRiskLevel_None
      mapRiskLevelToStatus_def level_labels)

text \<open>
  C3.  An audit with no finding is assembled with risk score 100, the highest risk level
  and the status \<open>NON_COMPLIANT\<close>: in the result of the email audit, in the result of the
  rewrite audit, and in the content audit (whose label for the highest level is \<open>HIGH\<close>)
  with the status its controller stores.
\<close>

theorem empty_findings_high_risk:
  "risk_score (finalResult auditResult []) = 100
   \<and> risk_level (finalResult auditResult []) = js ''High''
   \<and> status (finalResult auditResult []) = js ''NON_COMPLIANT''
   \<and> risk_score (rewriteResult summ sourceType []) = 100
   \<and> risk_level (rewriteResult summ sourceType []) = js ''High''
   \<and> status (rewriteResult summ sourceType []) = js ''NON_COMPLIANT''
   \<and> riskScore (contentResult auditSummary auditActions []) = 100
   \<and> riskLevel (contentResult auditSummary auditActions []) = js ''HIGH''
   \<and> content_status (contentResult auditSummary auditActions []) = js ''NON_COMPLIANT''"
  by (simp add: finalResult_def rewriteResult_def contentResult_def Let_def
      calculateDeterministicRiskScore_def calculateDeterministicRiskScore_content_def
      risk_score_rewrite_def score_empty deterministicRiskLevel_def complianceStatus_def
      normalizeRiskLevel_None mapRiskLevelToStatus_def)

section \<open>The cache\<close>

text \<open>
  C7.  On a cache hit (the lookup finds a completed document with the input hash, and
  the document has a stored result) the returned score is the deterministic score of the
  stored violations, the returned level and status are those of that score (status
  \<open>NON_COMPLIANT\<close> exactly from 70), and the stored score, level and status have no
  influence on what is returned.
\<close>

theorem cache_hit_recomputes_score:
  "findOne store h = Some d \<and> doc_auditResult d = Some r \<longrightarrow>
     doc_inputHash d = h \<and> doc_status d = js ''completed''
     \<and> cacheLookup store h = Some (cachedResult r)
     \<and> violations (cachedResult r) = arrayOr (cached_violations r) []
     \<and> risk_score (cachedResult r)
         = calculateDeterministicRiskScore (arrayOr (cached_violations r) [])
     \<and> risk_level (cachedResult r) = deterministicRiskLevel (risk_score (cachedResult r))
     \<and> (status (cachedResult r) = js ''NON_COMPLIANT'' \<longleftrightarrow> risk_score (cachedResult r) \<ge> 70)
     \<and> (status (cachedResult r) = js ''COMPLIANT'' \<longleftrightarrow> risk_score (cachedResult r) < 70)
     \<and> cachedResult (r\<lparr>cached_risk_score := x, cached_risk_level := y, cached_status := z\<rparr>)
         = cachedResult r"
proof (rule impI, elim conjE)
  assume f: "findOne store h = Some d" and a: "doc_auditResult d = Some r"
  from f have m: "doc_inputHash d = h \<and> doc_status d = js ''completed''"
    unfolding findOne_def by (auto simp: find_Some_iff)
  have l: "cacheLookup store h = Some (cachedResult r)"
    using f a by (simp add: cacheLookup_def)
  have v: "violations (cachedResult r) = arrayOr (cached_violations r) []"
    and s: "risk_score (cachedResult r)
         = calculateDeterministicRiskScore (arrayOr (cached_violations r) [])"
    and lv: "risk_level (cachedResult r) = deterministicRiskLevel (risk_score (cachedResult r))"
    by (simp_all add: cachedResult_def Let_def)
  have st: "status (cachedResult r) = complianceStatus (risk_score (cachedResult r))"
    by (simp add: cachedResult_def Let_def)
  have st1: "(status (cachedResult r) = js ''NON_COMPLIANT'' \<longleftrightarrow> risk_score (cachedResult r) \<ge> 70)"
    and st2: "(status (cachedResult r) = js ''COMPLIANT'' \<longleftrightarrow> risk_score (cachedResult r) < 70)"
    unfolding st by (simp_all add: complianceStatus_def level_labels)
  have i: "cachedResult (r\<lparr>cached_risk_score := x, cached_risk_level := y, cached_status := z\<rparr>)
         = cachedResult r"
    by (simp add: cachedResult_def)
  from m l v s lv st1 st2 i
  show "doc_inputHash d = h \<and> doc_status d = js ''completed''
     \<and> cacheLookup store h = Some (cachedResult r)
     \<and> violations (cachedResult r) = arrayOr (cached_violations r) []
     \<and> risk_score (cachedResult r)
         = calculateDeterministicRiskScore (arrayOr (cached_violations r) [])
     \<and> risk_level (cachedResult r) = deterministicRiskLevel (risk_score (cachedResult r))
     \<and> (status (cachedResult r) = js ''NON_COMPLIANT'' \<longleftrightarrow> risk_score (cachedResult r) \<ge> 70)
     \<and> (status (cachedResult r) = js ''COMPLIANT'' \<longleftrightarrow> risk_score (cachedResult r) < 70)
     \<and> cachedResult (r\<lparr>cached_risk_score := x, cached_risk_level := y, cached_status := z\<rparr>)
         = cachedResult r"
    by blast
qed

lemma storedResult_score:
  "calculateDeterministicRiskScore (arrayOr (cached_violations storedResult) []) = 80"
  by (simp add: storedResult_def arrayOr_def calculateDeterministicRiskScore_def
      scoreWithDefault_def scoreStep_def severityPenalty_def toLowerCase_def lowerUnit_def
      js_def orDefault_def emptyFinding_def)

theorem cache_hit_recomputes_score_witness:
  "findOne cacheStore (js ''abc'') = Some hitDoc
   \<and> doc_auditResult hitDoc = Some storedResult
   \<and> cached_risk_score storedResult = Some 95
   \<and> cacheLookup cacheStore (js ''abc'') = Some (cachedResult storedResult)
   \<and> risk_score (cachedResult storedResult) = 80
   \<and> status (cachedResult storedResult) = js ''NON_COMPLIANT''"
proof -
  have f: "findOne cacheStore (js ''abc'') = Some hitDoc"
    by (simp add: findOne_def cacheStore_def hitDoc_def js_def)
  have a: "doc_auditResult hitDoc = Some storedResult"
    by (simp add: hitDoc_def)
  have c: "cached_risk_score storedResult = Some 95"
    by (simp add: storedResult_def)
  from cache_hit_recomputes_score[of cacheStore "js ''abc''" hitDoc storedResult] f a
  have "cacheLookup cacheStore (js ''abc'') = Some (cachedResult storedResult)
     \<and> risk_score (cachedResult storedResult)
         = calculateDeterministicRiskScore (arrayOr (cached_violations storedResult) [])
     \<and> (status (cachedResult storedResult) = js ''NON_COMPLIANT''
          \<longleftrightarrow> risk_score (cachedResult storedResult) \<ge> 70)"
    by blast
  with f a c storedResult_score show ?thesis by simp
qed

text \<open>
  C6, at the failing input.  \<open>normalizeForHash\<close> leaves the typographic quotation marks
  U+201C and U+201D as they are, so a text in typographic quotes and the same text in
  plain quotes have different hash inputs.
\<close>

theorem normalizeForHash_keeps_smart_quotes:
  "normalizeForHash smartQuoted = [0x201C] @ js ''cure'' @ [0x201D]
   \<and> normalizeForHash plainQuoted = [0x22] @ js ''cure'' @ [0x22]
   \<and> hashInput smartQuoted \<noteq> hashInput plainQuoted"
  by (simp add: hashInput_def normalizeForHash_def replaceEllipsis_def replaceDashes_def
      replaceQuotes_def smartQuoted_def plainQuoted_def string_eval)

section \<open>The similarity engine\<close>

lemma distinct_newSet: "distinct (newSet xs)"
  by (simp add: newSet_def)

lemma set_newSet: "set (newSet xs) = set xs"
  by (simp add: newSet_def)

lemma inter_count_card:
  assumes "distinct A"
  shows "length (filter (\<lambda>w. w \<in> set B) A) = card (set A \<inter> set B)"
proof -
  have "distinct (filter (\<lambda>w. w \<in> set B) A)" using assms by simp
  then have "length (filter (\<lambda>w. w \<in> set B) A) = card (set (filter (\<lambda>w. w \<in> set B) A))"
    by (rule distinct_card[symmetric])
  also have "set (filter (\<lambda>w. w \<in> set B) A) = set A \<inter> set B" by auto
  finally show ?thesis .
qed

lemma jaccard_sym:
  assumes "distinct A" "distinct B"
  shows "jaccard A B = jaccard B A"
proof -
  have "length (filter (\<lambda>w. w \<in> set B) A) = length (filter (\<lambda>w. w \<in> set A) B)"
    using inter_count_card[OF assms(1), of B] inter_count_card[OF assms(2), of A]
    by (simp add: Int_commute)
  then show ?thesis by (simp add: jaccard_def Let_def add.commute disj_commute)
qed

lemma ratio_le_one:
  fixes i u :: nat
  assumes "i \<le> u"
  shows "(of_nat i :: rat) / of_nat u \<le> 1"
proof (cases "u = 0")
  case True
  then show ?thesis by simp
next
  case False
  then have "(0::rat) < of_nat u" by simp
  moreover have "(of_nat i :: rat) \<le> of_nat u" using assms by simp
  ultimately show ?thesis by (simp add: divide_le_eq_1_pos)
qed

lemma jaccard_range:
  assumes "distinct A"
  shows "0 \<le> jaccard A B \<and> jaccard A B \<le> 1"
proof -
  let ?i = "length (filter (\<lambda>w. w \<in> set B) A)"
  let ?u = "length A + length B - ?i"
  let ?q = "(of_nat ?i :: rat) / of_nat ?u"
  have "?i \<le> length A" by simp
  moreover have "?i \<le> length B"
    unfolding inter_count_card[OF assms]
    using card_mono[of "set B" "set A \<inter> set B"] card_length[of B] by simp
  ultimately have "?i \<le> ?u" by arith
  then have "?q \<le> 1" by (rule ratio_le_one)
  moreover have "0 \<le> ?q" by simp
  ultimately have q: "0 \<le> ?q \<and> ?q \<le> 1" by (rule_tac conjI)
  show ?thesis
  proof (cases "length A = 0 \<or> length B = 0")
    case True
    then have "jaccard A B = 0" by (simp only: jaccard_def if_True)
    then show ?thesis by simp
  next
    case False
    then have "jaccard A B = (if ?u = 0 then 0 else ?q)"
      by (simp only: jaccard_def Let_def if_False)
    with q show ?thesis by (metis order_refl zero_le_one)
  qed
qed

lemma jaccard_empty: "A = [] \<or> B = [] \<Longrightarrow> jaccard A B = 0"
  by (auto simp: jaccard_def)

text \<open>
  C9, as amended.  Both similarity engines are symmetric functions of their two texts
  with a result between 0 and 1, and both give 0 whenever one of the two token sets is
  empty.  The engine of \<open>services/auditService.js\<close> keeps only tokens of at least 3
  characters; the engine of \<open>services/openaiClient.js\<close> keeps every non-empty token.
\<close>

theorem similarity_engine_properties:
  "jaccardSimilarity_auditService a b = jaccardSimilarity_auditService b a
   \<and> 0 \<le> jaccardSimilarity_auditService a b \<and> jaccardSimilarity_auditService a b \<le> 1
   \<and> list_all (\<lambda>w. 3 \<le> length w) (words_auditService a)
   \<and> (words_auditService a = [] \<or> words_auditService b = [] \<longrightarrow>
        jaccardSimilarity_auditService a b = 0)
   \<and> jaccardSimilarity_openaiClient a b = jaccardSimilarity_openaiClient b a
   \<and> 0 \<le> jaccardSimilarity_openaiClient a b \<and> jaccardSimilarity_openaiClient a b \<le> 1
   \<and> list_all (\<lambda>w. 1 \<le> length w) (words_openaiClient a)
   \<and> (words_openaiClient a = [] \<or> words_openaiClient b = [] \<longrightarrow>
        jaccardSimilarity_openaiClient a b = 0)"
proof -
  have s1: "jaccardSimilarity_auditService a b = jaccardSimilarity_auditService b a"
    unfolding jaccardSimilarity_auditService_def
    by (rule jaccard_sym) (simp_all add: words_auditService_def distinct_newSet)
  have s2: "jaccardSimilarity_openaiClient a b = jaccardSimilarity_openaiClient b a"
    unfolding jaccardSimilarity_openaiClient_def
    by (rule jaccard_sym) (simp_all add: words_openaiClient_def distinct_newSet)
  have r1: "0 \<le> jaccardSimilarity_auditService a b \<and> jaccardSimilarity_auditService a b \<le> 1"
    unfolding jaccardSimilarity_auditService_def
    by (rule jaccard_range) (simp add: words_auditService_def distinct_newSet)
  have r2: "0 \<le> jaccardSimilarity_openaiClient a b \<and> jaccardSimilarity_openaiClient a b \<le> 1"
    unfolding jaccardSimilarity_openaiClient_def
    by (rule jaccard_range) (simp add: words_openaiClient_def distinct_newSet)
  have t1: "list_all (\<lambda>w. 3 \<le> length w) (words_auditService a)"
    by (simp add: words_auditService_def list_all_iff set_newSet)
  have t2: "list_all (\<lambda>w. 1 \<le> length w) (words_openaiClient a)"
    by (simp add: words_openaiClient_def list_all_iff set_newSet Suc_le_eq)
  have e1: "words_auditService a = [] \<or> words_auditService b = [] \<longrightarrow>
        jaccardSimilarity_auditService a b = 0"
    unfolding jaccardSimilarity_auditService_def by (rule impI) (rule jaccard_empty)
  have e2: "words_openaiClient a = [] \<or> words_openaiClient b = [] \<longrightarrow>
        jaccardSimilarity_openaiClient a b = 0"
    unfolding jaccardSimilarity_openaiClient_def by (rule impI) (rule jaccard_empty)
  from s1 s2 r1 r2 t1 t2 e1 e2 show ?thesis by blast
qed

lemma words_of_short_text:
  "words_auditService (js ''ab cd'') = []" "words_openaiClient (js ''?!'') = []"
  by (simp_all add: words_auditService_def normalizeTextForCompare_auditService_def
      isComparePunctuation_def words_openaiClient_def normalizeTextForCompare_openaiClient_def
      isLowerAlnumOrSpace_def isQuoteMark_def string_eval)

theorem similarity_engine_properties_witness:
  "words_auditService (js ''ab cd'') = []
   \<and> jaccardSimilarity_auditService (js ''ab cd'') (js ''ab cd'') = 0
   \<and> words_openaiClient (js ''?!'') = []
   \<and> jaccardSimilarity_openaiClient (js ''?!'') (js ''ab cd'') = 0"
  using similarity_engine_properties[of "js ''ab cd''" "js ''ab cd''"]
    similarity_engine_properties[of "js ''?!''" "js ''ab cd''"] words_of_short_text
  by blast

text \<open>
  The claim as stated discards tokens shorter than 3 characters in the similarity engine.
  The engine of \<open>services/openaiClient.js\<close> keeps the two-letter tokens of \<open>ab cd\<close>, and the
  similarity of that text with itself is 1, where two empty token sets would give 0.
\<close>

theorem short_tokens_kept_counterexample:
  "words_openaiClient (js ''ab cd'') = [js ''ab'', js ''cd'']
   \<and> jaccardSimilarity_openaiClient (js ''ab cd'') (js ''ab cd'') = 1"
  by (simp add: jaccardSimilarity_openaiClient_def jaccard_def words_openaiClient_def
      normalizeTextForCompare_openaiClient_def isLowerAlnumOrSpace_def isQuoteMark_def string_eval)

section \<open>White space and trimming\<close>

lemma hasInk_iff: "hasInk s \<longleftrightarrow> (\<exists>c \<in> set s. \<not> isWhiteSpace c)"
  by (auto simp: hasInk_def filter_empty_conv)

lemma inked_hasInk: "inked s \<Longrightarrow> hasInk s"
  by (cases s) (auto simp: inked_def hasInk_iff)

lemma trimEnd_prefix: "\<exists>d. s = trimEnd s @ d \<and> (\<forall>c \<in> set d. isWhiteSpace c)"
proof -
  have "rev s = takeWhile isWhiteSpace (rev s) @ dropWhile isWhiteSpace (rev s)" by simp
  then have "s = rev (dropWhile isWhiteSpace (rev s)) @ rev (takeWhile isWhiteSpace (rev s))"
    by (metis rev_append rev_rev_ident)
  moreover have "\<forall>c \<in> set (rev (takeWhile isWhiteSpace (rev s))). isWhiteSpace c"
    by (auto dest: set_takeWhileD)
  ultimately show ?thesis unfolding trimEnd_def by blast
qed

lemma dropWhile_inked: "dropWhile isWhiteSpace s \<noteq> [] \<Longrightarrow> inked (dropWhile isWhiteSpace s)"
  using hd_dropWhile[of isWhiteSpace s] by (simp add: inked_def)

lemma trimEnd_inked: "inked t \<Longrightarrow> inked (trimEnd t)"
proof -
  assume t: "inked t"
  obtain d where d: "t = trimEnd t @ d" "\<forall>c \<in> set d. isWhiteSpace c"
    using trimEnd_prefix by blast
  show ?thesis
  proof (cases "trimEnd t")
    case Nil
    with d have "t = d" by simp
    with d(2) t show ?thesis by (cases t) (auto simp: inked_def)
  next
    case (Cons a list)
    with d(1) have "hd t = a" by (metis hd_append2 list.sel(1) list.distinct(1))
    with t Cons show ?thesis by (simp add: inked_def)
  qed
qed

lemma hasInk_dropWhile: "hasInk s \<Longrightarrow> dropWhile isWhiteSpace s \<noteq> []"
  by (auto simp: hasInk_iff dropWhile_eq_Nil_conv)

lemma trim_inked: "hasInk s \<Longrightarrow> inked (trim s)"
  unfolding trim_def trimStart_def
  by (rule trimEnd_inked) (rule dropWhile_inked, rule hasInk_dropWhile)

lemma trimEnd_set: "set (trimEnd s) \<subseteq> set s"
  unfolding trimEnd_def using set_dropWhileD[of _ isWhiteSpace "rev s"] by auto

lemma trim_set: "set (trim s) \<subseteq> set s"
  unfolding trim_def trimStart_def using trimEnd_set[of "dropWhile isWhiteSpace s"]
    set_dropWhileD[of _ isWhiteSpace s] by auto

lemma trim_nonempty_iff: "trim s \<noteq> [] \<longleftrightarrow> hasInk s"
proof
  assume "trim s \<noteq> []"
  have "trimStart s \<noteq> []"
  proof
    assume "trimStart s = []"
    then have "trim s = []" by (simp add: trim_def trimEnd_def)
    with \<open>trim s \<noteq> []\<close> show False by simp
  qed
  then have "dropWhile isWhiteSpace s \<noteq> []" by (simp add: trimStart_def)
  then show "hasInk s" by (auto simp: hasInk_iff dropWhile_eq_Nil_conv)
next
  assume "hasInk s"
  then show "trim s \<noteq> []" using trim_inked[of s] by (simp add: inked_def)
qed

lemma length_trimEnd: "length (trimEnd s) \<le> length s"
  unfolding trimEnd_def using length_dropWhile_le[of isWhiteSpace "rev s"] by simp

lemma length_trim: "length (trim s) \<le> length s"
  unfolding trim_def trimStart_def
  using length_trimEnd[of "dropWhile isWhiteSpace s"] length_dropWhile_le[of isWhiteSpace s]
  by simp

lemma trimEnd_id: "s \<noteq> [] \<Longrightarrow> \<not> isWhiteSpace (last s) \<Longrightarrow> trimEnd s = s"
  unfolding trimEnd_def by (cases "rev s") (auto simp: last_rev[symmetric] hd_rev)

lemma trim_id: "inked s \<Longrightarrow> \<not> isWhiteSpace (last s) \<Longrightarrow> trim s = s"
  unfolding trim_def trimStart_def inked_def
  by (cases s) (auto simp: trimEnd_id)

lemma trimEnd_last: "trimEnd s \<noteq> [] \<Longrightarrow> \<not> isWhiteSpace (last (trimEnd s))"
  unfolding trimEnd_def
  using hd_dropWhile[of isWhiteSpace "rev s"] by (simp add: last_rev)

lemma trim_trim: "trim (trim s) = trim s"
proof (cases "trim s = []")
  case True
  have "trim [] = []" by (simp add: trim_def trimStart_def trimEnd_def)
  with True show ?thesis by simp
next
  case False
  then have "inked (trim s)" using trim_inked trim_nonempty_iff by blast
  moreover have "\<not> isWhiteSpace (last (trim s))"
    using False trimEnd_last[of "trimStart s"] by (simp add: trim_def)
  ultimately show ?thesis by (rule trim_id)
qed

section \<open>The selected evidence\<close>

lemma isWhiteSpace_newline: "isWhiteSpace 0x0A" "isWhiteSpace 0x0D" "isWhiteSpace 0x20"
  by (simp_all add: isWhiteSpace_def)

lemma ink_consHead: "ink (concat (consHead c ps)) = ink (c # concat ps)"
  by (cases ps) simp_all

lemma ink_dropWhile: "ink (dropWhile isWhiteSpace s) = ink s"
  by (induction s) simp_all

lemma ink_splitLines: "ink (concat (splitLines s)) = ink s"
  by (induction s rule: splitLines.induct) (simp_all add: ink_consHead isWhiteSpace_newline)

lemma ink_splitAfter: "ink (concat (splitAfter cls prev s)) = ink s"
  by (induction cls prev s rule: splitAfter.induct) (simp_all add: ink_consHead ink_dropWhile)

lemma ink_splitWhitespace: "ink (concat (splitWhitespace s)) = ink s"
  by (induction s rule: splitWhitespace.induct) (simp_all add: ink_consHead ink_dropWhile)

lemma ink_concat_nonempty:
  assumes "ink (concat ps) \<noteq> []"
  shows "\<exists>p \<in> set ps. hasInk p"
  using assms by (induction ps) (auto simp: hasInk_def)

lemma trimmedNonEmpty_inked: "p \<in> set (trimmedNonEmpty ps) \<Longrightarrow> inked p"
  unfolding trimmedNonEmpty_def
  using trim_inked trim_nonempty_iff by auto

lemma trimmedNonEmpty_nonempty:
  assumes "ink (concat ps) \<noteq> []"
  shows "trimmedNonEmpty ps \<noteq> []"
proof -
  obtain p where p: "p \<in> set ps" "hasInk p" using ink_concat_nonempty[OF assms] by blast
  then have "trim p \<noteq> []" by (simp add: trim_nonempty_iff)
  with p(1) have "trim p \<in> set (trimmedNonEmpty ps)" by (simp add: trimmedNonEmpty_def)
  then show ?thesis by auto
qed

lemma candidateLines:
  assumes "hasInk inputText"
  shows "splitIntoCandidateLines inputText \<noteq> []"
    and "\<And>l. l \<in> set (splitIntoCandidateLines inputText) \<Longrightarrow> inked l"
proof -
  have "trimmedNonEmpty (splitLines inputText) \<noteq> []"
    by (rule trimmedNonEmpty_nonempty) (use assms in \<open>simp add: ink_splitLines hasInk_def\<close>)
  then have e: "splitIntoCandidateLines inputText = trimmedNonEmpty (splitLines inputText)"
    by (simp add: splitIntoCandidateLines_def Let_def)
  with \<open>trimmedNonEmpty (splitLines inputText) \<noteq> []\<close>
  show "splitIntoCandidateLines inputText \<noteq> []" by simp
  fix l assume "l \<in> set (splitIntoCandidateLines inputText)"
  with e show "inked l" by (simp add: trimmedNonEmpty_inked)
qed

lemma sentenceParts:
  assumes "hasInk s"
  shows "trimmedNonEmpty (splitAfter cls prev s) \<noteq> []"
  by (rule trimmedNonEmpty_nonempty) (use assms in \<open>simp add: ink_splitAfter hasInk_def\<close>)

lemma lastIndexOf_less: "lastIndexOf x s < int (length s)"
  by (induction s) (auto simp: Let_def)

lemma length_capEvidence: "length (capEvidence c) \<le> 250"
proof (cases "length c > 250")
  case False
  then show ?thesis by (simp add: capEvidence_def)
next
  case True
  let ?sliced = "take 251 c"
  let ?ls = "lastIndexOf 0x20 ?sliced"
  have "?ls < int (length ?sliced)" by (rule lastIndexOf_less)
  then have "nat ?ls \<le> 250" by simp
  then have "length (take (nat ?ls) ?sliced) \<le> 250" by simp
  moreover have "length (take 250 ?sliced) \<le> 250" by simp
  ultimately have "length (if ?ls > 0 then take (nat ?ls) ?sliced else take 250 ?sliced) \<le> 250"
    by (simp only: if_split[where P="\<lambda>x. length x \<le> 250"]) blast
  then have "length (trim (if ?ls > 0 then take (nat ?ls) ?sliced else take 250 ?sliced)) \<le> 250"
    using length_trim le_trans by blast
  with True show ?thesis by (simp add: capEvidence_def Let_def)
qed

lemma take_inked: "inked s \<Longrightarrow> 0 < n \<Longrightarrow> inked (take n s)"
  by (cases s; cases n) (auto simp: inked_def)

lemma capEvidence_inked:
  assumes "inked c"
  shows "inked (capEvidence c)"
proof (cases "length c > 250")
  case False
  with assms show ?thesis by (simp add: capEvidence_def)
next
  case True
  let ?sliced = "take 251 c"
  let ?ls = "lastIndexOf 0x20 ?sliced"
  have s: "inked ?sliced" using assms by (simp add: take_inked)
  have a: "?ls > 0 \<Longrightarrow> inked (take (nat ?ls) ?sliced)"
    by (rule take_inked[OF s]) simp
  have b: "inked (take 250 ?sliced)"
    by (rule take_inked[OF s]) simp
  have "inked (if ?ls > 0 then take (nat ?ls) ?sliced else take 250 ?sliced)"
  proof (cases "?ls > 0")
    case True
    with a show ?thesis by (simp only: if_True)
  next
    case False
    with b show ?thesis by (simp only: if_False)
  qed
  then have "inked (trim (if ?ls > 0 then take (nat ?ls) ?sliced else take 250 ?sliced))"
    by (intro trim_inked inked_hasInk)
  with True show ?thesis by (simp add: capEvidence_def Let_def)
qed

lemma foldl_bestLineStep_mem:
  "fst (foldl (bestLineStep tokens) (b, n) ls) \<in> set (b # ls)"
proof (induction ls arbitrary: b n)
  case Nil
  then show ?case by simp
next
  case (Cons l ls)
  show ?case
    using Cons.IH[of l "lineScore tokens l"] Cons.IH[of b n]
    by (auto simp: bestLineStep_def Let_def)
qed

lemma foldl_shorterOf_mem: "foldl shorterOf b ls \<in> set (b # ls)"
proof (induction ls arbitrary: b)
  case Nil
  then show ?case by simp
next
  case (Cons l ls)
  show ?case using Cons.IH[of l] Cons.IH[of b] by (auto simp: shorterOf_def)
qed

lemma matchCandidate_mem: "matchCandidate ls cand = Some l \<Longrightarrow> l \<in> set ls"
  by (auto simp: matchCandidate_def Let_def find_Some_iff split: if_splits option.splits)

lemma firstOrEmpty_mem: "ls \<noteq> [] \<Longrightarrow> firstOrEmpty ls \<in> set ls"
  by (cases ls) (simp_all add: firstOrEmpty_def)

lemma pickBestLineFromText_inked:
  assumes "hasInk inputText"
  shows "inked (pickBestLineFromText inputText cand desc)"
proof -
  let ?lines = "splitIntoCandidateLines inputText"
  note L = candidateLines[OF assms]
  show ?thesis
  proof (cases "matchCandidate ?lines (stripWrappingQuotes cand)")
    case (Some l)
    then have "l \<in> set ?lines" by (rule matchCandidate_mem)
    then have "inked l" by (rule L(2))
    with Some show ?thesis by (simp add: pickBestLineFromText_def Let_def)
  next
    case None
    let ?tokens = "keywordTokens 4 8 desc"
    show ?thesis
    proof (cases "length ?tokens = 0")
      case True
      have "inked (firstOrEmpty ?lines)" using L firstOrEmpty_mem by blast
      with None True show ?thesis by (simp add: pickBestLineFromText_def Let_def)
    next
      case False
      let ?best = "fst (foldl (bestLineStep ?tokens) (firstOrEmpty ?lines, -1) ?lines)"
      have "?best \<in> set (firstOrEmpty ?lines # ?lines)" by (rule foldl_bestLineStep_mem)
      then have "?best \<in> set ?lines" using firstOrEmpty_mem[OF L(1)] by auto
      then have b: "inked ?best" by (rule L(2))
      let ?parts = "trimmedNonEmpty (splitAfter isSentenceTerminator False ?best)"
      have "inked (case ?parts of [] \<Rightarrow> ?best | p # _ \<Rightarrow> p)"
      proof (cases ?parts)
        case Nil
        with b show ?thesis by simp
      next
        case (Cons p ps)
        then have "p \<in> set ?parts" by simp
        then have "inked p" by (rule trimmedNonEmpty_inked)
        with Cons show ?thesis by simp
      qed
      then have "inked (capEvidence (case ?parts of [] \<Rightarrow> ?best | p # _ \<Rightarrow> p))"
        by (rule capEvidence_inked)
      with None False show ?thesis by (simp add: pickBestLineFromText_def Let_def)
    qed
  qed
qed

lemma collapseWhitespace_inked: "inked s \<Longrightarrow> inked (collapseWhitespace s)"
  by (cases s) (auto simp: inked_def)

lemma rewriteEvidence_nonempty:
  assumes "trim inputText \<noteq> []"
  shows "rewriteEvidence inputText it \<noteq> []"
proof -
  have "hasInk inputText" using assms by (simp add: trim_nonempty_iff)
  then have "inked (pickBestLineFromText inputText (evidence_line it)
      (orDefault (Some (trim (orEmpty (description it)))) (js ''Compliance issue detected'')))"
    by (rule pickBestLineFromText_inked)
  then have "hasInk (collapseWhitespace (pickBestLineFromText inputText (evidence_line it)
      (orDefault (Some (trim (orEmpty (description it)))) (js ''Compliance issue detected''))))"
    by (intro inked_hasInk collapseWhitespace_inked)
  then show ?thesis by (simp add: rewriteEvidence_def Let_def trim_nonempty_iff)
qed

lemma selectBestEvidenceSentence_bounds:
  assumes "trim transcript \<noteq> []"
  shows "selectBestEvidenceSentence transcript v \<noteq> []"
    and "length (selectBestEvidenceSentence transcript v) \<le> 250"
proof -
  let ?sentences = "splitTranscriptIntoSentences transcript"
  have t: "hasInk (trim transcript)"
    using assms trim_inked[of transcript] by (simp add: trim_nonempty_iff inked_hasInk)
  have e: "?sentences = trimmedNonEmpty (splitAfter isSentenceTerminator False (trim transcript))"
    using assms by (simp add: splitTranscriptIntoSentences_def Let_def)
  have ne: "?sentences \<noteq> []" unfolding e by (rule sentenceParts[OF t])
  have ink: "\<And>s. s \<in> set ?sentences \<Longrightarrow> inked s" unfolding e by (rule trimmedNonEmpty_inked)
  obtain s0 rest where s: "?sentences = s0 # rest" using ne by (cases ?sentences) auto
  let ?tokens = "keywordTokens 4 12 (orEmpty (orElse (description v) (violation v)) @ js '' ''
        @ orEmpty (orElse (guidance v) (suggestion v)))"
  let ?scored = "if length ?tokens > 0 then foldl (bestLineStep ?tokens) (s0, -1) ?sentences
        else (s0, -1)"
  let ?best = "if snd ?scored \<le> 0 then foldl shorterOf s0 ?sentences else fst ?scored"
  have r: "selectBestEvidenceSentence transcript v = capEvidence ?best"
    using s by (simp add: selectBestEvidenceSentence_def Let_def)
  have "fst ?scored \<in> set (s0 # ?sentences)"
    using foldl_bestLineStep_mem[of ?tokens s0 "-1" ?sentences] by simp
  moreover have "foldl shorterOf s0 ?sentences \<in> set (s0 # ?sentences)"
    by (rule foldl_shorterOf_mem)
  ultimately have "?best \<in> set (s0 # ?sentences)" by presburger
  then have "?best \<in> set ?sentences" using s by auto
  then have "inked ?best" by (rule ink)
  then have "inked (capEvidence ?best)" by (rule capEvidence_inked)
  then show "selectBestEvidenceSentence transcript v \<noteq> []" unfolding r by (simp add: inked_def)
  show "length (selectBestEvidenceSentence transcript v) \<le> 250"
    unfolding r by (rule length_capEvidence)
qed

section \<open>The evidence of the email audit\<close>

lemma placeholder_heads:
  "p \<in> set placeholderTokens \<Longrightarrow> p \<noteq> [] \<and> (hd p = 0x6E \<or> hd p = 0x75) \<and> 0x0A \<notin> set p"
  by (auto simp: placeholderTokens_def js_def)

lemma not_isBadEvidence_D:
  assumes "\<not> isBadEvidence (Some e)"
  shows "e \<noteq> []" "trim e \<noteq> []" "regexFold (trim e) \<notin> set placeholderTokens"
  using assms by (auto simp: isBadEvidence_def Let_def split: if_splits)

lemma regexFold_hd: "s \<noteq> [] \<Longrightarrow> hd (regexFold s) = lowerUnit (hd s)"
  by (cases s) (simp_all add: regexFold_def)

lemma deriveEvidenceFallback_good:
  "deriveEvidenceFallback auditInput it \<noteq> []
   \<and> regexFold (deriveEvidenceFallback auditInput it) \<notin> set placeholderTokens"
proof -
  let ?e = "deriveEvidenceFallback auditInput it"
  have h: "?e \<noteq> [] \<and> (hd ?e = 0x22 \<or> hd ?e = 0x53)"
    by (simp add: deriveEvidenceFallback_def Let_def js_def split: option.splits)
  then have "hd (regexFold ?e) = 0x22 \<or> hd (regexFold ?e) = 0x73"
    using regexFold_hd[of ?e] by (auto simp: lowerUnit_def)
  then have "regexFold ?e \<notin> set placeholderTokens"
    using placeholder_heads[of "regexFold ?e"] by auto
  with h show ?thesis by blast
qed

lemma regexFold_newline: "0x0A \<in> set s \<Longrightarrow> 0x0A \<in> set (regexFold s)"
proof -
  assume "0x0A \<in> set s"
  then have "lowerUnit 0x0A \<in> lowerUnit ` set s" by (rule imageI)
  then show ?thesis by (simp add: regexFold_def lowerUnit_def)
qed

lemma ensureEnglishTranslation_good:
  assumes "text \<noteq> []" "regexFold text \<notin> set placeholderTokens"
  shows "ensureEnglishTranslation answer detectedLang text \<noteq> []
   \<and> regexFold (ensureEnglishTranslation answer detectedLang text) \<notin> set placeholderTokens"
proof -
  let ?r = "ensureEnglishTranslation answer detectedLang text"
  have "?r = text \<or> (\<exists>t. ?r = text @ [0x0A] @ t)"
    by (auto simp: ensureEnglishTranslation_def Let_def split: option.splits)
  then show ?thesis
  proof
    assume "?r = text"
    with assms show ?thesis by simp
  next
    assume "\<exists>t. ?r = text @ [0x0A] @ t"
    then obtain t where t: "?r = text @ [0x0A] @ t" by blast
    then have "0x0A \<in> set ?r" by simp
    then have "0x0A \<in> set (regexFold ?r)" by (rule regexFold_newline)
    then have "regexFold ?r \<notin> set placeholderTokens" using placeholder_heads by blast
    moreover have "?r \<noteq> []" using t by simp
    ultimately show ?thesis by blast
  qed
qed

lemma withTranslation_good:
  assumes "text \<noteq> []" "regexFold text \<notin> set placeholderTokens"
  shows "withTranslation translate detectedLang idx fieldName text \<noteq> []
   \<and> regexFold (withTranslation translate detectedLang idx fieldName text) \<notin> set placeholderTokens"
  using assms ensureEnglishTranslation_good[OF assms]
  by (simp add: withTranslation_def)

lemma normalizeIssue_evidence:
  "evidence (normalizeIssue detectedLang auditInput translate idx it) =
     Some (withTranslation translate detectedLang idx (js ''evidence'')
       (if isBadEvidence (Some (trim (orEmpty (evidence it))))
        then deriveEvidenceFallback auditInput it else trim (orEmpty (evidence it))))"
  by (simp add: normalizeIssue_def Let_def)

lemma normalizeIssue_evidence_good:
  "evidence (normalizeIssue detectedLang auditInput translate idx it) \<noteq> None
   \<and> orEmpty (evidence (normalizeIssue detectedLang auditInput translate idx it)) \<noteq> []
   \<and> regexFold (orEmpty (evidence (normalizeIssue detectedLang auditInput translate idx it)))
       \<notin> set placeholderTokens"
proof -
  let ?e0 = "trim (orEmpty (evidence it))"
  let ?e1 = "if isBadEvidence (Some ?e0) then deriveEvidenceFallback auditInput it else ?e0"
  have "?e1 \<noteq> [] \<and> regexFold ?e1 \<notin> set placeholderTokens"
  proof (cases "isBadEvidence (Some ?e0)")
    case True
    then show ?thesis using deriveEvidenceFallback_good by simp
  next
    case False
    from not_isBadEvidence_D[OF False] show ?thesis using False by (simp add: trim_trim)
  qed
  then have "withTranslation translate detectedLang idx (js ''evidence'') ?e1 \<noteq> []
     \<and> regexFold (withTranslation translate detectedLang idx (js ''evidence'') ?e1)
         \<notin> set placeholderTokens"
    using withTranslation_good by blast
  then show ?thesis unfolding normalizeIssue_evidence by (simp add: orEmpty_def)
qed

section \<open>The passes of the regeneration loop\<close>

declare attemptLoop.simps [simp del]

lemma regenerateOnlyFix_frame:
  assumes "regenerateOnlyFix model n issue = Some i"
  shows "evidence i = evidence issue" "violation i = violation issue"
    "guidance i = Some (trim (orEmpty (guidance issue)))"
    "rule_pack i = Some (rulePackOf issue)"
  using assms by (auto simp: regenerateOnlyFix_def Let_def split: option.splits)

lemma regenerateOneIssue_frame:
  assumes "regenerateOneIssue model n issue = Some i"
  shows "evidence i = evidence issue" "violation i = violation issue"
    "rule_pack i = Some (rulePackOf issue)"
  using assms by (auto simp: regenerateOneIssue_def Let_def split: option.splits)

text \<open>The requests of one pass.\<close>

lemma attemptPass_cases:
  obtains
    (quiet) "attemptPass lang model acc (issue, calls) = (False, issue, calls)"
      "\<not> crossRepeat acc issue"
  | (fixOnly) i where "regenerateOnlyFix model (length calls) issue = Some i"
      "attemptPass lang model acc (issue, calls) = (False, i, calls @ [FixOnly])"
  | (fixFailed) "attemptPass lang model acc (issue, calls) = (False, issue, calls @ [FixOnly])"
  | (fullFailed) "attemptPass lang model acc (issue, calls) = (False, issue, calls @ [FullIssue])"
  | (full) i where "regenerateOneIssue model (length calls) issue = Some i"
      "attemptPass lang model acc (issue, calls) = (True, i, calls @ [FullIssue])"
  | (fixFullFailed) i where "regenerateOnlyFix model (length calls) issue = Some i"
      "attemptPass lang model acc (issue, calls) = (False, i, calls @ [FixOnly, FullIssue])"
  | (fixFailedFullFailed)
      "attemptPass lang model acc (issue, calls) = (False, issue, calls @ [FixOnly, FullIssue])"
  | (fixFull) i j where "regenerateOnlyFix model (length calls) issue = Some i"
      "regenerateOneIssue model (Suc (length calls)) i = Some j"
      "attemptPass lang model acc (issue, calls) = (True, j, calls @ [FixOnly, FullIssue])"
  | (fixFailedFull) j where "regenerateOneIssue model (Suc (length calls)) issue = Some j"
      "attemptPass lang model acc (issue, calls) = (True, j, calls @ [FixOnly, FullIssue])"
proof -
  define onlyFix where "onlyFix \<longleftrightarrow> tooSimilarGuidanceFix (violatesSeparation lang issue)
      \<and> \<not> badEvidence (violatesSeparation lang issue)
      \<and> \<not> weakGuidance (violatesSeparation lang issue)"
  define need where "need \<longleftrightarrow> badEvidence (violatesSeparation lang issue)
      \<or> weakGuidance (violatesSeparation lang issue) \<or> weakFix (violatesSeparation lang issue)
      \<or> tooSimilarEvidenceFix (violatesSeparation lang issue) \<or> crossRepeat acc issue"
  define ok where "ok = (\<lambda>i. \<not> tooSimilarGuidanceFix (violatesSeparation lang i)
      \<and> \<not> weakFix (violatesSeparation lang i))"
  have eq: "attemptPass lang model acc (issue, calls) =
     (let regenerated = (if onlyFix then regenerateOnlyFix model (length calls) issue else None);
          calls1 = (if onlyFix then calls @ [FixOnly] else calls);
          issue1 = (case regenerated of None \<Rightarrow> issue | Some i \<Rightarrow> i);
          fixAccepted = (case regenerated of None \<Rightarrow> False | Some i \<Rightarrow> ok i)
      in if fixAccepted then (False, issue1, calls1)
         else if \<not> need then (False, issue1, calls1)
         else (case regenerateOneIssue model (length calls1) issue1 of
                 None \<Rightarrow> (False, issue1, calls1 @ [FullIssue])
               | Some issue2 \<Rightarrow> (True, issue2, calls1 @ [FullIssue])))"
    unfolding attemptPass_def onlyFix_def need_def ok_def Let_def fst_conv snd_conv ..
  show ?thesis
  proof (cases onlyFix)
    case False
    show ?thesis
    proof (cases need)
      case n: False
      with False have "attemptPass lang model acc (issue, calls) = (False, issue, calls)"
        by (simp add: eq)
      moreover from n have "\<not> crossRepeat acc issue" by (simp add: need_def)
      ultimately show ?thesis by (rule quiet)
    next
      case n: True
      show ?thesis
      proof (cases "regenerateOneIssue model (length calls) issue")
        case None
        with False n have "attemptPass lang model acc (issue, calls) = (False, issue, calls @ [FullIssue])"
          by (simp add: eq)
        then show ?thesis by (rule fullFailed)
      next
        case (Some i)
        with False n have "attemptPass lang model acc (issue, calls) = (True, i, calls @ [FullIssue])"
          by (simp add: eq)
        with Some show ?thesis by (rule full)
      qed
    qed
  next
    case True
    show ?thesis
    proof (cases "regenerateOnlyFix model (length calls) issue")
      case None
      show ?thesis
      proof (cases need)
        case n: False
        with True None have "attemptPass lang model acc (issue, calls) = (False, issue, calls @ [FixOnly])"
          by (simp add: eq)
        then show ?thesis by (rule fixFailed)
      next
        case n: True
        show ?thesis
        proof (cases "regenerateOneIssue model (Suc (length calls)) issue")
          case r: None
          with True None n
          have "attemptPass lang model acc (issue, calls) = (False, issue, calls @ [FixOnly, FullIssue])"
            by (simp add: eq)
          then show ?thesis by (rule fixFailedFullFailed)
        next
          case r: (Some j)
          with True None n
          have "attemptPass lang model acc (issue, calls) = (True, j, calls @ [FixOnly, FullIssue])"
            by (simp add: eq)
          with r show ?thesis by (rule fixFailedFull)
        qed
      qed
    next
      case (Some i)
      show ?thesis
      proof (cases "ok i")
        case a: True
        with True Some have "attemptPass lang model acc (issue, calls) = (False, i, calls @ [FixOnly])"
          by (simp add: eq)
        with Some show ?thesis by (rule fixOnly)
      next
        case a: False
        show ?thesis
        proof (cases need)
          case n: False
          with True Some a have "attemptPass lang model acc (issue, calls) = (False, i, calls @ [FixOnly])"
            by (simp add: eq)
          with Some show ?thesis by (rule fixOnly)
        next
          case n: True
          show ?thesis
          proof (cases "regenerateOneIssue model (Suc (length calls)) i")
            case r: None
            with True Some a n
            have "attemptPass lang model acc (issue, calls) = (False, i, calls @ [FixOnly, FullIssue])"
              by (simp add: eq)
            with Some show ?thesis by (rule fixFullFailed)
          next
            case r: (Some j)
            with True Some a n
            have "attemptPass lang model acc (issue, calls) = (True, j, calls @ [FixOnly, FullIssue])"
              by (simp add: eq)
            with Some r show ?thesis by (rule fixFull)
          qed
        qed
      qed
    qed
  qed
qed

lemma attemptPass_summary:
  "\<exists>b i new. attemptPass lang model acc (issue, calls) = (b, i, calls @ new)
     \<and> evidence i = evidence issue \<and> violation i = violation issue
     \<and> length new \<le> 2 \<and> fulls new \<le> 1
     \<and> (new = [] \<longrightarrow> \<not> b \<and> i = issue \<and> \<not> crossRepeat acc issue)"
proof (cases rule: attemptPass_cases[of lang model acc issue calls])
  case quiet
  then show ?thesis by auto
next
  case (fixOnly i)
  then show ?thesis using regenerateOnlyFix_frame[OF fixOnly(1)] by auto
next
  case fixFailed
  then show ?thesis by auto
next
  case fullFailed
  then show ?thesis by auto
next
  case (full i)
  then show ?thesis using regenerateOneIssue_frame[OF full(1)] by auto
next
  case (fixFullFailed i)
  then show ?thesis using regenerateOnlyFix_frame[OF fixFullFailed(1)] by auto
next
  case fixFailedFullFailed
  then show ?thesis by auto
next
  case (fixFull i j)
  then show ?thesis
    using regenerateOnlyFix_frame[OF fixFull(1)] regenerateOneIssue_frame[OF fixFull(2)] by auto
next
  case (fixFailedFull j)
  then show ?thesis using regenerateOneIssue_frame[OF fixFailedFull(1)] by auto
qed

lemma attemptLoop_summary:
  "\<exists>i new. attemptLoop lang model acc attempt (issue, calls) = (i, calls @ new)
     \<and> evidence i = evidence issue \<and> violation i = violation issue
     \<and> length new \<le> 2 * (5 - attempt) \<and> fulls new \<le> 5 - attempt
     \<and> (new = [] \<and> attempt \<le> 4 \<longrightarrow> i = issue \<and> \<not> crossRepeat acc issue)"
proof (induction lang model acc attempt "(issue, calls)" arbitrary: issue calls
    rule: attemptLoop.induct)
  case (1 lang model acc attempt)
  show ?case
  proof (cases "attempt > 4")
    case True
    then have "attemptLoop lang model acc attempt (issue, calls) = (issue, calls @ [])"
      by (subst attemptLoop.simps) simp
    with True show ?thesis by fastforce
  next
    case False
    obtain b i new where p: "attemptPass lang model acc (issue, calls) = (b, i, calls @ new)"
      "evidence i = evidence issue" "violation i = violation issue"
      "length new \<le> 2" "fulls new \<le> 1"
      "new = [] \<longrightarrow> \<not> b \<and> i = issue \<and> \<not> crossRepeat acc issue"
      using attemptPass_summary[of lang model acc issue calls] by blast
    show ?thesis
    proof (cases b)
      case b: False
      with False p(1) have "attemptLoop lang model acc attempt (issue, calls) = (i, calls @ new)"
        by (subst attemptLoop.simps) (simp add: Let_def)
      with p False show ?thesis by fastforce
    next
      case b: True
      with p(6) have ne: "new \<noteq> []" by blast
      from False b p(1)
      have e: "attemptLoop lang model acc attempt (issue, calls)
          = attemptLoop lang model acc (attempt + 1) (i, calls @ new)"
        by (subst attemptLoop.simps) (simp add: Let_def)
      have "\<exists>i' new'. attemptLoop lang model acc (attempt + 1) (i, calls @ new)
            = (i', (calls @ new) @ new')
          \<and> evidence i' = evidence i \<and> violation i' = violation i
          \<and> length new' \<le> 2 * (5 - (attempt + 1)) \<and> fulls new' \<le> 5 - (attempt + 1)
          \<and> (new' = [] \<and> attempt + 1 \<le> 4 \<longrightarrow> i' = i \<and> \<not> crossRepeat acc i)"
        using False b p(1) by (intro "1.hyps"[of "attemptPass lang model acc (issue, calls)"]) simp_all
      then obtain i' new' where r:
        "attemptLoop lang model acc (attempt + 1) (i, calls @ new) = (i', (calls @ new) @ new')"
        "evidence i' = evidence i" "violation i' = violation i"
        "length new' \<le> 2 * (5 - (attempt + 1))" "fulls new' \<le> 5 - (attempt + 1)"
        by blast
      have "attemptLoop lang model acc attempt (issue, calls) = (i', calls @ (new @ new'))"
        using e r(1) by simp
      moreover have "length (new @ new') \<le> 2 * (5 - attempt)" using p(4) r(4) False by simp
      moreover have "fulls (new @ new') \<le> 5 - attempt" using p(5) r(5) False by simp
      moreover have "new @ new' \<noteq> []" using ne by simp
      ultimately show ?thesis using p(2,3) r(2,3) by (metis (no_types, lifting))
    qed
  qed
qed

lemma finalBackstop_summary:
  "\<exists>i new. finalBackstop lang model (issue, calls) = (i, calls @ new)
     \<and> evidence i = evidence issue \<and> violation i = violation issue
     \<and> length new \<le> 1 \<and> fulls new = 0
     \<and> (new = [] \<longrightarrow> i = issue)"
proof (cases "jaccardSimilarity_openaiClient (orEmpty (guidance issue))
    (orEmpty (recommended_fix issue)) > 3 / 4")
  case False
  then have "finalBackstop lang model (issue, calls) = (issue, calls @ [])"
    by (simp add: finalBackstop_def Let_def)
  then show ?thesis by fastforce
next
  case True
  have f: "evidence (forcedFallback lang issue) = evidence issue"
    "violation (forcedFallback lang issue) = violation issue"
    by (simp_all add: forcedFallback_def Let_def)
  show ?thesis
  proof (cases "regenerateOnlyFix model (length calls) issue")
    case None
    with True have "finalBackstop lang model (issue, calls)
        = (forcedFallback lang issue, calls @ [FixOnly])"
      by (simp add: finalBackstop_def Let_def)
    with f show ?thesis by fastforce
  next
    case (Some r)
    with True have "finalBackstop lang model (issue, calls) = (r, calls @ [FixOnly])
        \<or> finalBackstop lang model (issue, calls) = (forcedFallback lang issue, calls @ [FixOnly])"
      by (simp add: finalBackstop_def Let_def)
    with f regenerateOnlyFix_frame[OF Some] show ?thesis by fastforce
  qed
qed

lemma deriveRecommendationFallback_cong:
  assumes a: "evidence x = evidence y" and b: "violation x = violation y"
  shows "deriveRecommendationFallback lang x = deriveRecommendationFallback lang y"
  unfolding deriveRecommendationFallback_def a b ..

lemma fallbackFix_props:
  "evidence (fallbackFix lang x) = evidence x" "violation (fallbackFix lang x) = violation x"
  "recommended_fix (fallbackFix lang x)
     = Some (deriveRecommendationFallback lang (fallbackFix lang x))"
proof -
  show a: "evidence (fallbackFix lang x) = evidence x"
    and b: "violation (fallbackFix lang x) = violation x"
    by (simp_all add: fallbackFix_def Let_def)
  let ?rp = "orDefault (Some (trim (orEmpty (rule_pack x)))) (js ''General'')"
  have "recommended_fix (fallbackFix lang x)
      = Some (deriveRecommendationFallback lang (x\<lparr>rule_pack := Some ?rp\<rparr>))"
    by (simp add: fallbackFix_def Let_def)
  also have "deriveRecommendationFallback lang (x\<lparr>rule_pack := Some ?rp\<rparr>)
      = deriveRecommendationFallback lang (fallbackFix lang x)"
    by (rule deriveRecommendationFallback_cong) (simp_all add: a b)
  finally show "recommended_fix (fallbackFix lang x)
     = Some (deriveRecommendationFallback lang (fallbackFix lang x))" .
qed

lemma finalValidation_summary:
  "\<exists>i new. finalValidation lang model (issue, calls) = (i, calls @ new)
     \<and> evidence i = evidence issue \<and> violation i = violation issue
     \<and> length new \<le> 1 \<and> fulls new = 0
     \<and> (new = [] \<longrightarrow> i = issue)
     \<and> (isRewriteOptionsFix lang (recommended_fix i) (evidence i)
         \<or> recommended_fix i = Some (deriveRecommendationFallback lang i))"
proof (cases "isRewriteOptionsFix lang (recommended_fix issue) (evidence issue)")
  case True
  then have "finalValidation lang model (issue, calls) = (issue, calls @ [])"
    by (simp add: finalValidation_def Let_def)
  with True show ?thesis by fastforce
next
  case False
  show ?thesis
  proof (cases "regenerateOnlyFix model (length calls) issue")
    case None
    with False have "finalValidation lang model (issue, calls)
        = (fallbackFix lang issue, calls @ [FixOnly])"
      by (simp add: finalValidation_def Let_def)
    with fallbackFix_props[of lang issue] show ?thesis by fastforce
  next
    case (Some r)
    show ?thesis
    proof (cases "isRewriteOptionsFix lang (recommended_fix r) (evidence r)")
      case v: True
      with False Some have "finalValidation lang model (issue, calls) = (r, calls @ [FixOnly])"
        by (simp add: finalValidation_def Let_def)
      with v regenerateOnlyFix_frame[OF Some] show ?thesis by fastforce
    next
      case v: False
      with False Some have "finalValidation lang model (issue, calls)
          = (fallbackFix lang r, calls @ [FixOnly])"
        by (simp add: finalValidation_def Let_def)
      with fallbackFix_props[of lang r] regenerateOnlyFix_frame[OF Some] show ?thesis
        by fastforce
    qed
  qed
qed

lemma processIssue_unfold:
  "processIssue lang model acc (issue, calls) =
     finalValidation lang model (finalBackstop lang model
       (attemptLoop lang model acc 1 (withRulePack issue, calls)))"
  by (simp add: processIssue_def)

lemma processIssue_summary:
  "\<exists>i new. processIssue lang model acc (issue, calls) = (i, calls @ new)
     \<and> evidence i = evidence issue \<and> violation i = violation issue
     \<and> length new \<le> 10 \<and> fulls new \<le> 4
     \<and> (new = [] \<longrightarrow> i = withRulePack issue \<and> \<not> crossRepeat acc (withRulePack issue))
     \<and> (isRewriteOptionsFix lang (recommended_fix i) (evidence i)
         \<or> recommended_fix i = Some (deriveRecommendationFallback lang i))"
proof -
  obtain i1 n1 where a: "attemptLoop lang model acc 1 (withRulePack issue, calls) = (i1, calls @ n1)"
    "evidence i1 = evidence (withRulePack issue)" "violation i1 = violation (withRulePack issue)"
    "length n1 \<le> 2 * (5 - 1)" "fulls n1 \<le> 5 - 1"
    "n1 = [] \<and> (1::nat) \<le> 4 \<longrightarrow> i1 = withRulePack issue \<and> \<not> crossRepeat acc (withRulePack issue)"
    using attemptLoop_summary[of lang model acc 1 "withRulePack issue" calls] by blast
  obtain i2 n2 where b: "finalBackstop lang model (i1, calls @ n1) = (i2, (calls @ n1) @ n2)"
    "evidence i2 = evidence i1" "violation i2 = violation i1" "length n2 \<le> 1" "fulls n2 = 0"
    "n2 = [] \<longrightarrow> i2 = i1"
    using finalBackstop_summary[of lang model i1 "calls @ n1"] by blast
  obtain i3 n3 where c: "finalValidation lang model (i2, (calls @ n1) @ n2)
      = (i3, ((calls @ n1) @ n2) @ n3)"
    "evidence i3 = evidence i2" "violation i3 = violation i2" "length n3 \<le> 1" "fulls n3 = 0"
    "n3 = [] \<longrightarrow> i3 = i2"
    "isRewriteOptionsFix lang (recommended_fix i3) (evidence i3)
         \<or> recommended_fix i3 = Some (deriveRecommendationFallback lang i3)"
    using finalValidation_summary[of lang model i2 "(calls @ n1) @ n2"] by blast
  have w: "evidence (withRulePack issue) = evidence issue"
    "violation (withRulePack issue) = violation issue"
    by (simp_all add: withRulePack_def Let_def)
  have "processIssue lang model acc (issue, calls) = (i3, calls @ (n1 @ n2 @ n3))"
    unfolding processIssue_unfold a(1) b(1) c(1) by simp
  moreover have "length (n1 @ n2 @ n3) \<le> 10" using a(4) b(4) c(4) by simp
  moreover have "fulls (n1 @ n2 @ n3) \<le> 4" using a(5) b(5) c(5) by simp
  moreover have "n1 @ n2 @ n3 = [] \<longrightarrow> i3 = withRulePack issue
      \<and> \<not> crossRepeat acc (withRulePack issue)"
    using a(6) b(6) c(6) by simp
  moreover have "evidence i3 = evidence issue" "violation i3 = violation issue"
    using a(2,3) b(2,3) c(2,3) w by simp_all
  ultimately show ?thesis using c(7) by blast
qed

section \<open>A model that repeats its answer\<close>

lemma sameTexts_trimmed: "trim sameGuidance = sameGuidance" "trim sameFix = sameFix"
  "trim (js ''ASCI Healthcare'') = js ''ASCI Healthcare''"
  by (simp_all add: sameGuidance_def sameFix_def string_eval)

lemma sameTexts_overlap: "jaccardSimilarity_openaiClient sameGuidance sameFix = 0"
  by (simp add: jaccardSimilarity_openaiClient_def jaccard_def words_openaiClient_def
      normalizeTextForCompare_openaiClient_def isLowerAlnumOrSpace_def isQuoteMark_def
      sameGuidance_def sameFix_def string_eval)

lemma sameGuidance_self: "jaccardSimilarity_openaiClient sameGuidance sameGuidance = 1"
  by (simp add: jaccardSimilarity_openaiClient_def jaccard_def words_openaiClient_def
      normalizeTextForCompare_openaiClient_def isLowerAlnumOrSpace_def isQuoteMark_def
      sameGuidance_def string_eval)

lemma asci_nonempty: "js ''ASCI Healthcare'' \<noteq> []"
  by (simp add: js_def)

lemma settled_rulePackOf: "settled issue \<Longrightarrow> rulePackOf issue = js ''ASCI Healthcare''"
  by (simp add: settled_def rulePackOf_def sameTexts_trimmed orEmpty_def orDefault_def asci_nonempty)

lemma settled_regenerate:
  assumes "settled issue"
  shows "regenerateOnlyFix stubbornModel n issue = Some issue"
    and "regenerateOneIssue stubbornModel n issue = Some issue"
proof -
  have g: "guidance issue = Some sameGuidance" and f: "recommended_fix issue = Some sameFix"
    and r: "rule_pack issue = Some (js ''ASCI Healthcare'')"
    using assms by (simp_all add: settled_def)
  have u: "issue\<lparr>rule_pack := Some (js ''ASCI Healthcare''), guidance := Some sameGuidance,
      recommended_fix := Some sameFix\<rparr> = issue"
    using g f r by (cases issue) simp
  show "regenerateOnlyFix stubbornModel n issue = Some issue"
    using u by (simp add: regenerateOnlyFix_def Let_def stubbornModel_def settled_rulePackOf[OF assms]
        g sameTexts_trimmed orEmpty_def)
  show "regenerateOneIssue stubbornModel n issue = Some issue"
    using u by (simp add: regenerateOneIssue_def Let_def stubbornModel_def settled_rulePackOf[OF assms]
        sameTexts_trimmed orEmpty_def)
qed

lemma settled_pass:
  assumes "settled issue"
  shows "fst (snd (attemptPass lang stubbornModel acc (issue, calls))) = issue"
proof (cases rule: attemptPass_cases[of lang stubbornModel acc issue calls])
  case quiet
  then show ?thesis by simp
next
  case (fixOnly i)
  then show ?thesis using settled_regenerate(1)[OF assms, of "length calls"] by simp
next
  case fixFailed
  then show ?thesis by simp
next
  case fullFailed
  then show ?thesis by simp
next
  case (full i)
  then show ?thesis using settled_regenerate(2)[OF assms, of "length calls"] by simp
next
  case (fixFullFailed i)
  then show ?thesis using settled_regenerate(1)[OF assms, of "length calls"] by simp
next
  case fixFailedFullFailed
  then show ?thesis by simp
next
  case (fixFull i j)
  from fixFull(1) have "i = issue" using settled_regenerate(1)[OF assms, of "length calls"] by simp
  with fixFull(2) have "j = issue"
    using settled_regenerate(2)[OF assms, of "Suc (length calls)"] by simp
  with fixFull(3) show ?thesis by simp
next
  case (fixFailedFull j)
  then show ?thesis using settled_regenerate(2)[OF assms, of "Suc (length calls)"] by simp
qed

lemma attemptLoop_unfold:
  "attemptLoop lang model acc attempt state =
     (if attempt > 4 then state
      else if fst (attemptPass lang model acc state)
        then attemptLoop lang model acc (attempt + 1) (snd (attemptPass lang model acc state))
        else snd (attemptPass lang model acc state))"
  by (subst attemptLoop.simps) (simp add: Let_def)

lemma settled_loop:
  assumes "settled issue"
  shows "fst (attemptLoop lang stubbornModel acc attempt (issue, calls)) = issue"
proof (induction lang stubbornModel acc attempt "(issue, calls)" arbitrary: calls
    rule: attemptLoop.induct)
  case (1 lang acc attempt)
  show ?case
  proof (cases "attempt > 4")
    case True
    then show ?thesis by (subst attemptLoop_unfold) simp
  next
    case False
    let ?p = "attemptPass lang stubbornModel acc (issue, calls)"
    have p: "snd ?p = (issue, snd (snd ?p))"
      using settled_pass[OF assms, of lang acc calls] by (metis prod.collapse)
    show ?thesis
    proof (cases "fst ?p")
      case b: False
      with False have "attemptLoop lang stubbornModel acc attempt (issue, calls) = snd ?p"
        by (subst attemptLoop_unfold) simp
      then show ?thesis using p by (metis fst_conv)
    next
      case b: True
      have "fst (attemptLoop lang stubbornModel acc (attempt + 1) (issue, snd (snd ?p))) = issue"
        using False b p by (intro "1.hyps"[of ?p]) simp_all
      moreover from False b
      have "attemptLoop lang stubbornModel acc attempt (issue, calls)
          = attemptLoop lang stubbornModel acc (attempt + 1) (snd ?p)"
        by (subst attemptLoop_unfold) simp
      ultimately show ?thesis using p by metis
    qed
  qed
qed

lemma settled_withRulePack: "settled issue \<Longrightarrow> withRulePack issue = issue"
proof -
  assume s: "settled issue"
  then have r: "rule_pack issue = Some (js ''ASCI Healthcare'')" by (simp add: settled_def)
  have "orDefault (Some (trim (orEmpty (rule_pack issue)))) d = js ''ASCI Healthcare''" for d
    by (simp add: r sameTexts_trimmed orEmpty_def orDefault_def asci_nonempty)
  then have "withRulePack issue = issue\<lparr>rule_pack := Some (js ''ASCI Healthcare'')\<rparr>"
    by (simp add: withRulePack_def Let_def)
  also have "\<dots> = issue" using r by (cases issue) simp
  finally show ?thesis .
qed

lemma settled_process:
  assumes "settled issue"
  shows "guidance (fst (processIssue lang stubbornModel acc (issue, calls))) = Some sameGuidance"
proof -
  obtain c1 where a: "attemptLoop lang stubbornModel acc 1 (issue, calls) = (issue, c1)"
    using settled_loop[OF assms, of lang acc 1 calls] by (metis prod.collapse)
  have g: "guidance issue = Some sameGuidance" and f: "recommended_fix issue = Some sameFix"
    using assms by (simp_all add: settled_def)
  have b: "finalBackstop lang stubbornModel (issue, c1) = (issue, c1)"
    by (simp add: finalBackstop_def Let_def g f orEmpty_def sameTexts_overlap)
  have "guidance (fst (finalValidation lang stubbornModel (issue, c1))) = Some sameGuidance"
    by (simp add: finalValidation_def Let_def settled_regenerate[OF assms] fallbackFix_def g)
  then show ?thesis
    unfolding processIssue_unfold settled_withRulePack[OF assms] a b .
qed

section \<open>The bound of the regenerations\<close>

text \<open>
  C8, as amended.  The correction of one finding is a total function (the loop runs at
  most four passes, after which the backstop and the validation run once each).  It only
  adds requests to those made before; it makes at most four full regenerations of the
  finding and, together with the regenerations of the fix alone (one more in each pass,
  one in the backstop and one in the validation), at most ten requests to the model.  It
  keeps the evidence of the finding, and it ends with a fix that passes the check of the
  rewrite options or with the fix that \<open>deriveRecommendationFallback\<close> computes from
  the finding, without a request to the model.
\<close>

theorem regeneration_bounded:
  "snd (processIssue lang model acc (issue, calls))
      = calls @ requestsFor lang model acc issue calls
   \<and> length (requestsFor lang model acc issue calls) \<le> 10
   \<and> fulls (requestsFor lang model acc issue calls) \<le> 4
   \<and> evidence (fst (processIssue lang model acc (issue, calls))) = evidence issue
   \<and> (isRewriteOptionsFix lang
          (recommended_fix (fst (processIssue lang model acc (issue, calls))))
          (evidence (fst (processIssue lang model acc (issue, calls))))
        \<or> recommended_fix (fst (processIssue lang model acc (issue, calls)))
            = Some (deriveRecommendationFallback lang
                (fst (processIssue lang model acc (issue, calls)))))"
proof -
  obtain i new where p: "processIssue lang model acc (issue, calls) = (i, calls @ new)"
    "evidence i = evidence issue" "length new \<le> 10" "fulls new \<le> 4"
    "isRewriteOptionsFix lang (recommended_fix i) (evidence i)
         \<or> recommended_fix i = Some (deriveRecommendationFallback lang i)"
    using processIssue_summary[of lang model acc issue calls] by blast
  have r: "requestsFor lang model acc issue calls = new"
    by (simp add: requestsFor_def p(1))
  show ?thesis unfolding r using p by simp
qed

theorem regeneration_bounded_witness:
  "length (requestsFor (js ''en'') repeatingModel [] shortIssue []) \<le> 10
   \<and> fulls (requestsFor (js ''en'') repeatingModel [] shortIssue []) \<le> 4
   \<and> evidence (fst (processIssue (js ''en'') repeatingModel [] (shortIssue, [])))
       = evidence shortIssue"
proof -
  note t = regeneration_bounded[of "js ''en''" repeatingModel "[]" shortIssue "[]"]
  show ?thesis
    by (intro conjI t[THEN conjunct2, THEN conjunct1]
        t[THEN conjunct2, THEN conjunct2, THEN conjunct1]
        t[THEN conjunct2, THEN conjunct2, THEN conjunct2, THEN conjunct1])
qed

lemma enforceIssues_summary:
  "\<exists>acc' upd new. enforceIssues lang model issues (acc, updated, calls)
       = (acc @ acc', updated @ upd, calls @ new)
     \<and> length upd = length issues \<and> length acc' = length issues
     \<and> map evidence upd = map evidence issues
     \<and> length new \<le> 10 * length issues"
proof (induction issues arbitrary: acc updated calls)
  case Nil
  then show ?case by simp
next
  case (Cons issue rest)
  obtain i new where p: "processIssue lang model acc (issue, calls) = (i, calls @ new)"
    "evidence i = evidence issue" "length new \<le> 10"
    using processIssue_summary[of lang model acc issue calls] by blast
  let ?a = "\<lparr>acc_guidance = guidance i, acc_recommended_fix = recommended_fix i\<rparr>"
  obtain acc' upd new' where r: "enforceIssues lang model rest
        (acc @ [?a], updated @ [i], calls @ new)
       = ((acc @ [?a]) @ acc', (updated @ [i]) @ upd, (calls @ new) @ new')"
     "length upd = length rest" "length acc' = length rest"
     "map evidence upd = map evidence rest" "length new' \<le> 10 * length rest"
    using Cons.IH[of "acc @ [?a]" "updated @ [i]" "calls @ new"] by blast
  have "enforceIssues lang model (issue # rest) (acc, updated, calls)
      = (acc @ (?a # acc'), updated @ (i # upd), calls @ (new @ new'))"
    using p(1) r(1) by (simp add: Let_def)
  moreover have "length (i # upd) = length (issue # rest)" using r(2) by simp
  moreover have "length (?a # acc') = length (issue # rest)" using r(3) by simp
  moreover have "map evidence (i # upd) = map evidence (issue # rest)" using p(2) r(4) by simp
  moreover have "length (new @ new') \<le> 10 * length (issue # rest)" using p(3) r(5) by simp
  ultimately show ?case by blast
qed

lemma shortTexts_trimmed: "trim shortGuidance = shortGuidance" "trim shortFix = shortFix"
  by (simp_all add: shortGuidance_def shortFix_def string_eval)

lemma shortGuidance_weak: "isWeakGuidance (Some shortGuidance)"
proof -
  have "length shortGuidance = 17" by (simp add: shortGuidance_def js_def)
  moreover have "shortGuidance \<noteq> []" by (simp add: shortGuidance_def js_def)
  ultimately show ?thesis by (simp add: isWeakGuidance_def Let_def shortTexts_trimmed)
qed

lemma shortTexts_overlap: "jaccardSimilarity_openaiClient shortGuidance shortFix = 1 / 4"
  by (simp add: jaccardSimilarity_openaiClient_def jaccard_def words_openaiClient_def
      normalizeTextForCompare_openaiClient_def isLowerAlnumOrSpace_def isQuoteMark_def
      shortGuidance_def shortFix_def string_eval)

lemma shortFix_no_options: "parseRewriteOptions shortFix = None"
  by (simp add: parseRewriteOptions_def captureOption_def optionHead_def regexFold_def
      shortFix_def string_eval)

lemma shortFix_invalid: "\<not> isRewriteOptionsFix (js ''en'') (Some shortFix) e"
proof -
  have "shortFix \<noteq> []" by (simp add: shortFix_def js_def)
  then show ?thesis
    by (simp add: isRewriteOptionsFix_def Let_def shortTexts_trimmed shortFix_no_options)
qed

lemma weakGuidance_flag:
  "isWeakGuidance (guidance issue) \<Longrightarrow> weakGuidance (violatesSeparation lang issue)"
  by (simp add: violatesSeparation_def Let_def)

lemma attemptPass_weakGuidance:
  assumes "isWeakGuidance (guidance issue)"
    and "regenerateOneIssue model (length calls) issue = Some i"
  shows "attemptPass lang model acc (issue, calls) = (True, i, calls @ [FullIssue])"
  using weakGuidance_flag[OF assms(1), of lang] assms(2)
  by (simp add: attemptPass_def Let_def)

lemma shortIssue_settled: "shortSettled shortIssue"
  by (simp add: shortSettled_def shortIssue_def emptyFinding_def)

lemma shortSettled_rulePackOf: "shortSettled issue \<Longrightarrow> rulePackOf issue = js ''ASCI Healthcare''"
  by (simp add: shortSettled_def rulePackOf_def sameTexts_trimmed orEmpty_def orDefault_def
      asci_nonempty)

lemma shortSettled_regenerate:
  assumes "shortSettled issue"
  shows "regenerateOnlyFix repeatingModel n issue = Some issue"
    and "regenerateOneIssue repeatingModel n issue = Some issue"
proof -
  have g: "guidance issue = Some shortGuidance" and f: "recommended_fix issue = Some shortFix"
    and r: "rule_pack issue = Some (js ''ASCI Healthcare'')"
    using assms by (simp_all add: shortSettled_def)
  have u: "issue\<lparr>rule_pack := Some (js ''ASCI Healthcare''), guidance := Some shortGuidance,
      recommended_fix := Some shortFix\<rparr> = issue"
    using g f r by (cases issue) simp
  show "regenerateOnlyFix repeatingModel n issue = Some issue"
    using u by (simp add: regenerateOnlyFix_def Let_def repeatingModel_def
        shortSettled_rulePackOf[OF assms] g shortTexts_trimmed orEmpty_def)
  show "regenerateOneIssue repeatingModel n issue = Some issue"
    using u by (simp add: regenerateOneIssue_def Let_def repeatingModel_def
        shortSettled_rulePackOf[OF assms] shortTexts_trimmed orEmpty_def)
qed

lemma shortSettled_pass:
  assumes "shortSettled issue"
  shows "attemptPass lang repeatingModel acc (issue, calls) = (True, issue, calls @ [FullIssue])"
proof (rule attemptPass_weakGuidance)
  show "isWeakGuidance (guidance issue)"
    using assms shortGuidance_weak by (simp add: shortSettled_def)
  show "regenerateOneIssue repeatingModel (length calls) issue = Some issue"
    by (rule shortSettled_regenerate(2)[OF assms])
qed

lemma shortSettled_step:
  assumes "shortSettled issue" and "attempt \<le> 4"
  shows "attemptLoop lang repeatingModel acc attempt (issue, calls)
     = attemptLoop lang repeatingModel acc (attempt + 1) (issue, calls @ [FullIssue])"
  using assms(2) by (subst attemptLoop_unfold) (simp add: shortSettled_pass[OF assms(1)])

lemma shortSettled_loop:
  assumes "shortSettled issue"
  shows "attemptLoop lang repeatingModel acc 1 (issue, calls)
     = (issue, calls @ [FullIssue, FullIssue, FullIssue, FullIssue])"
proof -
  note p = shortSettled_step[OF assms]
  have "attemptLoop lang repeatingModel acc 1 (issue, calls)
      = attemptLoop lang repeatingModel acc 2 (issue, calls @ [FullIssue])"
    using p[of 1 lang acc calls] by (simp add: numeral_2_eq_2)
  also have "\<dots> = attemptLoop lang repeatingModel acc 3 (issue, calls @ [FullIssue, FullIssue])"
    using p[of 2 lang acc "calls @ [FullIssue]"] by simp
  also have "\<dots> = attemptLoop lang repeatingModel acc 4
      (issue, calls @ [FullIssue, FullIssue, FullIssue])"
    using p[of 3 lang acc "calls @ [FullIssue, FullIssue]"] by simp
  also have "\<dots> = attemptLoop lang repeatingModel acc 5
      (issue, calls @ [FullIssue, FullIssue, FullIssue, FullIssue])"
    using p[of 4 lang acc "calls @ [FullIssue, FullIssue, FullIssue]"] by simp
  also have "\<dots> = (issue, calls @ [FullIssue, FullIssue, FullIssue, FullIssue])"
    by (subst attemptLoop_unfold) simp
  finally show ?thesis .
qed

lemma shortSettled_withRulePack: "shortSettled issue \<Longrightarrow> withRulePack issue = issue"
proof -
  assume s: "shortSettled issue"
  then have r: "rule_pack issue = Some (js ''ASCI Healthcare'')" by (simp add: shortSettled_def)
  have "orDefault (Some (trim (orEmpty (rule_pack issue)))) d = js ''ASCI Healthcare''" for d
    by (simp add: r sameTexts_trimmed orEmpty_def orDefault_def asci_nonempty)
  then have "withRulePack issue = issue\<lparr>rule_pack := Some (js ''ASCI Healthcare'')\<rparr>"
    by (simp add: withRulePack_def Let_def)
  also have "\<dots> = issue" using r by (cases issue) simp
  finally show ?thesis .
qed

text \<open>
  The claim as stated bounds the requests to the model for one finding by four.  For a
  finding with a short guidance and a model that repeats the finding's texts, each of
  the four passes requests a full regeneration, and the validation then requests the fix
  once more: five requests.
\<close>

theorem five_requests_counterexample:
  "requestsFor (js ''en'') repeatingModel [] shortIssue []
     = [FullIssue, FullIssue, FullIssue, FullIssue, FixOnly]
   \<and> 4 < length (requestsFor (js ''en'') repeatingModel [] shortIssue [])"
proof -
  note s = shortIssue_settled
  have g: "guidance shortIssue = Some shortGuidance"
    and f: "recommended_fix shortIssue = Some shortFix"
    using s by (simp_all add: shortSettled_def)
  let ?c = "[FullIssue, FullIssue, FullIssue, FullIssue]"
  have a: "attemptLoop (js ''en'') repeatingModel [] 1 (shortIssue, []) = (shortIssue, ?c)"
    using shortSettled_loop[OF s, of "js ''en''" "[]" "[]"] by simp
  have b: "finalBackstop (js ''en'') repeatingModel (shortIssue, ?c) = (shortIssue, ?c)"
    by (simp add: finalBackstop_def Let_def g f orEmpty_def shortTexts_overlap)
  have c: "snd (finalValidation (js ''en'') repeatingModel (shortIssue, ?c)) = ?c @ [FixOnly]"
    by (simp add: finalValidation_def Let_def f shortFix_invalid shortSettled_regenerate[OF s])
  have "snd (processIssue (js ''en'') repeatingModel [] (shortIssue, [])) = ?c @ [FixOnly]"
    unfolding processIssue_unfold shortSettled_withRulePack[OF s] a b c ..
  then show ?thesis by (simp add: requestsFor_def)
qed

section \<open>The evidence of a completed audit\<close>

lemma completedAudit_violations:
  "violations (completedAudit model translate auditInput auditResult)
     = mapIndexed (normalizeIssue (detectContentLanguage auditInput) auditInput translate) 0
         (fst (snd (enforceIssues (detectContentLanguage auditInput) model
            (arrayOr (resp_issues auditResult) []) ([], [], []))))"
  by (simp add: completedAudit_def finalResult_def Let_def)

lemma set_mapIndexed: "x \<in> set (mapIndexed f n xs) \<Longrightarrow> \<exists>k y. y \<in> set xs \<and> x = f k y"
proof (induction xs arbitrary: n)
  case Nil
  then show ?case by simp
next
  case (Cons a xs)
  from Cons.prems have "x = f n a \<or> x \<in> set (mapIndexed f (Suc n) xs)" by simp
  then show ?case
  proof
    assume "x = f n a"
    then show ?thesis by auto
  next
    assume "x \<in> set (mapIndexed f (Suc n) xs)"
    then obtain k y where "y \<in> set xs" "x = f k y" using Cons.IH by blast
    then show ?thesis by auto
  qed
qed

lemma mapIndexed_single: "length xs = 1 \<Longrightarrow> mapIndexed f n xs = [f n (hd xs)]"
  by (cases xs) auto

lemma short_text_english: "length s < 20 \<Longrightarrow> detectContentLanguage s = js ''en''"
proof -
  assume "length s < 20"
  moreover have "countMatches isDevanagari s \<le> length s" by (simp add: countMatches_def)
  ultimately show ?thesis by (simp add: detectContentLanguage_def Let_def)
qed

lemma emailInput_english: "detectContentLanguage emailInput = js ''en''"
  by (rule short_text_english) (simp add: emailInput_def js_def)

lemma length_regexFold: "length (regexFold s) = length s"
  by (simp add: regexFold_def)

lemma placeholder_lengths: "p \<in> set placeholderTokens \<Longrightarrow> length p \<le> 13"
  by (auto simp: placeholderTokens_def js_def)

lemma long_not_placeholder: "13 < length s \<Longrightarrow> regexFold s \<notin> set placeholderTokens"
  using placeholder_lengths[of "regexFold s"] by (auto simp: length_regexFold)

lemma longEvidence_length: "length longEvidence = 271"
  by (simp add: longEvidence_def js_def length_concat sum_list_replicate)

lemma longEvidence_trimmed: "trim longEvidence = longEvidence"
proof (rule trim_id)
  have "replicate 30 (js ''cure now '') = js ''cure now '' # replicate 29 (js ''cure now '')"
    using replicate_Suc[of 29 "js ''cure now ''"] by simp
  then have eq: "longEvidence = js ''cure now '' @ concat (replicate 29 (js ''cure now '')) @ js ''!''"
    by (simp add: longEvidence_def)
  show "inked longEvidence" unfolding inked_def eq by (simp add: js_def isWhiteSpace_def)
  have "last longEvidence = 0x21" by (simp add: longEvidence_def js_def)
  then show "\<not> isWhiteSpace (last longEvidence)" by (simp add: isWhiteSpace_def)
qed

lemma longEvidence_kept: "\<not> isBadEvidence (Some longEvidence)"
proof -
  have "longEvidence \<noteq> []" using longEvidence_length by auto
  moreover have "regexFold longEvidence \<notin> set placeholderTokens"
    by (rule long_not_placeholder) (simp add: longEvidence_length)
  ultimately show ?thesis
    by (simp add: isBadEvidence_def Let_def longEvidence_trimmed)
qed

lemma long_audit_evidence:
  "map evidence (violations (completedAudit silentModel noTranslation emailInput oneLongIssue))
     = [Some longEvidence]"
proof -
  obtain acc' upd new where
    e: "enforceIssues (js ''en'') silentModel [longEvidenceIssue] ([], [], [])
          = ([] @ acc', [] @ upd, [] @ new)"
    and l: "length upd = length [longEvidenceIssue]"
    and m: "map evidence upd = map evidence [longEvidenceIssue]"
    using enforceIssues_summary[of "js ''en''" silentModel "[longEvidenceIssue]" "[]" "[]" "[]"]
    by blast
  have l1: "length upd = 1" using l by simp
  have h: "evidence (hd upd) = Some longEvidence"
    using m l1 by (cases upd) (simp_all add: longEvidenceIssue_def)
  have v: "violations (completedAudit silentModel noTranslation emailInput oneLongIssue)
      = [normalizeIssue (js ''en'') emailInput noTranslation 0 (hd upd)]"
    unfolding completedAudit_violations emailInput_english
    using e mapIndexed_single[OF l1] by (simp add: oneLongIssue_def arrayOr_def)
  have "evidence (normalizeIssue (js ''en'') emailInput noTranslation 0 (hd upd))
      = Some longEvidence"
    unfolding normalizeIssue_evidence
    by (simp add: h orEmpty_def longEvidence_trimmed longEvidence_kept withTranslation_def)
  then show ?thesis unfolding v by simp
qed

text \<open>
  C4, as amended.  In a completed email audit every finding has an evidence that is not
  empty and is not, letter case apart, one of the placeholder tokens.  In the text and
  URL audits the evidence of every finding is not empty when the input text has a
  character that is not white space.  In the audio and video audits the evidence of
  every finding is the selected sentence, which is not empty and has at most 250 code
  units when the transcript has a character that is not white space.
\<close>

theorem evidence_guarantees:
  "(\<forall>f \<in> set (violations (completedAudit model translate auditInput auditResult)).
       evidence f \<noteq> None \<and> orEmpty (evidence f) \<noteq> []
       \<and> regexFold (orEmpty (evidence f)) \<notin> set placeholderTokens)
   \<and> (trim inputText \<noteq> [] \<longrightarrow> rewriteEvidence inputText it \<noteq> [])
   \<and> (trim transcript \<noteq> [] \<longrightarrow>
        evidence (processedViolation transcript v)
          = Some (selectBestEvidenceSentence transcript v)
        \<and> selectBestEvidenceSentence transcript v \<noteq> []
        \<and> length (selectBestEvidenceSentence transcript v) \<le> 250)"
proof (intro conjI ballI impI)
  let ?N = "normalizeIssue (detectContentLanguage auditInput) auditInput translate"
  let ?U = "fst (snd (enforceIssues (detectContentLanguage auditInput) model
            (arrayOr (resp_issues auditResult) []) ([], [], [])))"
  fix f assume a: "f \<in> set (violations (completedAudit model translate auditInput auditResult))"
  have "f \<in> set (mapIndexed ?N 0 ?U)" using a unfolding completedAudit_violations .
  then have "\<exists>k y. y \<in> set ?U \<and> f = ?N k y" by (rule set_mapIndexed)
  then obtain k y where f: "f = ?N k y" by blast
  note g = normalizeIssue_evidence_good[of "detectContentLanguage auditInput" auditInput translate k y]
  show "evidence f \<noteq> None" unfolding f by (rule g[THEN conjunct1])
  show "orEmpty (evidence f) \<noteq> []" unfolding f by (rule g[THEN conjunct2, THEN conjunct1])
  show "regexFold (orEmpty (evidence f)) \<notin> set placeholderTokens"
    unfolding f by (rule g[THEN conjunct2, THEN conjunct2])
next
  assume "trim inputText \<noteq> []"
  then show "rewriteEvidence inputText it \<noteq> []" by (rule rewriteEvidence_nonempty)
next
  show "evidence (processedViolation transcript v) = Some (selectBestEvidenceSentence transcript v)"
    by (simp add: processedViolation_def Let_def)
next
  assume "trim transcript \<noteq> []"
  then show "selectBestEvidenceSentence transcript v \<noteq> []"
    by (rule selectBestEvidenceSentence_bounds(1))
next
  assume "trim transcript \<noteq> []"
  then show "length (selectBestEvidenceSentence transcript v) \<le> 250"
    by (rule selectBestEvidenceSentence_bounds(2))
qed

lemma sample_inputs_trimmed: "trim sampleText \<noteq> []" "trim sampleTranscript \<noteq> []"
  by (simp_all add: sampleText_def sampleTranscript_def js_def trim_def trimStart_def trimEnd_def
      isWhiteSpace_def)

theorem evidence_guarantees_witness:
  "violations (completedAudit silentModel noTranslation emailInput oneLongIssue) \<noteq> []
   \<and> orEmpty (evidence (hd (violations
        (completedAudit silentModel noTranslation emailInput oneLongIssue)))) \<noteq> []
   \<and> regexFold (orEmpty (evidence (hd (violations
        (completedAudit silentModel noTranslation emailInput oneLongIssue)))))
       \<notin> set placeholderTokens
   \<and> trim sampleText \<noteq> [] \<and> rewriteEvidence sampleText emptyFinding \<noteq> []
   \<and> trim sampleTranscript \<noteq> []
   \<and> selectBestEvidenceSentence sampleTranscript emptyFinding \<noteq> []
   \<and> length (selectBestEvidenceSentence sampleTranscript emptyFinding) \<le> 250"
proof -
  let ?vs = "violations (completedAudit silentModel noTranslation emailInput oneLongIssue)"
  have n: "?vs \<noteq> []" using long_audit_evidence by auto
  then have h: "hd ?vs \<in> set ?vs" by simp
  note t = evidence_guarantees[of silentModel noTranslation emailInput oneLongIssue
      sampleText emptyFinding sampleTranscript emptyFinding]
  note a = t[THEN conjunct1, rule_format, OF h]
  note b = t[THEN conjunct2, THEN conjunct1, rule_format, OF sample_inputs_trimmed(1)]
  note c = t[THEN conjunct2, THEN conjunct2, rule_format, OF sample_inputs_trimmed(2)]
  show ?thesis
    by (intro conjI n a[THEN conjunct2, THEN conjunct1] a[THEN conjunct2, THEN conjunct2]
        sample_inputs_trimmed b c[THEN conjunct2, THEN conjunct1]
        c[THEN conjunct2, THEN conjunct2])
qed

text \<open>
  The claim as stated bounds the evidence by 250 characters on every path.  The email
  audit keeps the evidence of the model's answer as it is: a finding with an evidence of
  271 code units is returned with that evidence.
\<close>

theorem long_evidence_counterexample:
  "map evidence (violations (completedAudit silentModel noTranslation emailInput oneLongIssue))
     = [Some longEvidence]
   \<and> length longEvidence = 271 \<and> \<not> length longEvidence \<le> 250"
  using long_audit_evidence longEvidence_length by simp

section \<open>The uniqueness across findings\<close>

lemma crossRepeat_withRulePack: "crossRepeat acc (withRulePack issue) = crossRepeat acc issue"
  by (simp add: crossRepeat_def withRulePack_def Let_def)

lemma quiet_issue_unique:
  assumes "requestsFor lang model acc issue calls = []"
  shows "fst (processIssue lang model acc (issue, calls)) = withRulePack issue"
    and "\<not> crossRepeat acc issue"
proof -
  obtain i new where p: "processIssue lang model acc (issue, calls) = (i, calls @ new)"
    "new = [] \<longrightarrow> i = withRulePack issue \<and> \<not> crossRepeat acc (withRulePack issue)"
    using processIssue_summary[of lang model acc issue calls] by blast
  have "requestsFor lang model acc issue calls = new" by (simp add: requestsFor_def p(1))
  then have n: "new = []" using assms by simp
  show "fst (processIssue lang model acc (issue, calls)) = withRulePack issue"
    using p n by simp
  show "\<not> crossRepeat acc issue" using p(2) n crossRepeat_withRulePack by simp
qed

text \<open>
  C5, as amended.  When the guidance or the fix of a finding has a token-set similarity
  above 0.40 with the guidance or the fix of a finding accepted before it, as it comes
  from the model or as it is accepted, then a regeneration has been requested from the
  model for it.  So a finding accepted with no request has similarities of at most 0.40
  with every finding accepted before it.
\<close>

theorem cross_finding_regeneration:
  "crossRepeat acc issue \<or> crossRepeat acc (fst (processIssue lang model acc (issue, calls)))
     \<longrightarrow> requestsFor lang model acc issue calls \<noteq> []"
proof (intro impI notI)
  assume c: "crossRepeat acc issue
      \<or> crossRepeat acc (fst (processIssue lang model acc (issue, calls)))"
  assume r: "requestsFor lang model acc issue calls = []"
  note q = quiet_issue_unique[OF r]
  have "\<not> crossRepeat acc (fst (processIssue lang model acc (issue, calls)))"
    unfolding q(1) crossRepeat_withRulePack by (rule q(2))
  with c q(2) show False by blast
qed

lemma reliefIssue_settled: "settled reliefIssue" and cureIssue_settled: "settled cureIssue"
  by (simp_all add: settled_def reliefIssue_def cureIssue_def emptyFinding_def)

lemma settled_repeats: "guidance issue = Some sameGuidance \<Longrightarrow> crossRepeat earlier issue"
  by (simp add: crossRepeat_def earlier_def orEmpty_def sameGuidance_self)

theorem cross_finding_regeneration_witness:
  "crossRepeat earlier reliefIssue
   \<and> crossRepeat earlier (fst (processIssue (js ''en'') stubbornModel earlier (reliefIssue, [])))
   \<and> requestsFor (js ''en'') stubbornModel earlier reliefIssue [] \<noteq> []"
proof -
  have a: "crossRepeat earlier reliefIssue"
    by (rule settled_repeats) (simp add: reliefIssue_def emptyFinding_def)
  have b: "crossRepeat earlier
      (fst (processIssue (js ''en'') stubbornModel earlier (reliefIssue, [])))"
    by (rule settled_repeats) (rule settled_process[OF reliefIssue_settled])
  have "requestsFor (js ''en'') stubbornModel earlier reliefIssue [] \<noteq> []"
    using cross_finding_regeneration[of earlier reliefIssue "js ''en''" stubbornModel "[]"] a
    by blast
  with a b show ?thesis by blast
qed

lemma sameGuidance_strong: "\<not> isWeakGuidance (Some sameGuidance)"
proof -
  have l: "length sameGuidance = 31" by (simp add: sameGuidance_def js_def)
  then have n: "sameGuidance \<noteq> []" by auto
  have "\<not> includesAny weakGuidancePhrases sameGuidance"
    by (simp add: includesAny_def weakGuidancePhrases_def regexFold_def sameGuidance_def
        startsWith_def js_def lowerUnit_def)
  then show ?thesis using l n by (simp add: isWeakGuidance_def Let_def sameTexts_trimmed)
qed

lemma headedGuidance_trimmed: "trim headedGuidance = headedGuidance"
proof (rule trim_id)
  show "inked headedGuidance" by (simp add: inked_def headedGuidance_def js_def isWhiteSpace_def)
  have "last headedGuidance = last sameGuidance"
    by (simp add: headedGuidance_def sameGuidance_def js_def)
  also have "\<dots> = 0x2E" by (simp add: sameGuidance_def js_def)
  finally show "\<not> isWhiteSpace (last headedGuidance)" by (simp add: isWhiteSpace_def)
qed

lemma normalizeIssue_suggestion:
  assumes "guidance it = Some sameGuidance"
  shows "suggestion (normalizeIssue (js ''en'') auditInput translate idx it) = Some headedGuidance"
proof -
  have "suggestion (normalizeIssue (js ''en'') auditInput translate idx it)
      = Some (trim (js ''GUIDANCE'' @ [0x0A] @ sameGuidance))"
    by (simp add: normalizeIssue_def Let_def assms orEmpty_def sameTexts_trimmed
        sameGuidance_strong withTranslation_def)
  then show ?thesis using headedGuidance_trimmed by (simp add: headedGuidance_def)
qed

lemma headedGuidance_self: "jaccardSimilarity_openaiClient headedGuidance headedGuidance = 1"
  by (simp add: jaccardSimilarity_openaiClient_def jaccard_def words_openaiClient_def
      normalizeTextForCompare_openaiClient_def isLowerAlnumOrSpace_def isQuoteMark_def
      headedGuidance_def sameGuidance_def string_eval)

lemma two_issues_updated:
  "\<exists>i1 i2. fst (snd (enforceIssues lang stubbornModel [cureIssue, reliefIssue] ([], [], [])))
       = [i1, i2] \<and> guidance i1 = Some sameGuidance \<and> guidance i2 = Some sameGuidance"
proof -
  let ?d1 = "processIssue lang stubbornModel [] (cureIssue, [])"
  let ?a1 = "[\<lparr> acc_guidance = guidance (fst ?d1), acc_recommended_fix = recommended_fix (fst ?d1) \<rparr>]"
  let ?d2 = "processIssue lang stubbornModel ?a1 (reliefIssue, snd ?d1)"
  have "fst (snd (enforceIssues lang stubbornModel [cureIssue, reliefIssue] ([], [], [])))
      = [fst ?d1, fst ?d2]"
    by (simp add: Let_def)
  moreover have "guidance (fst ?d1) = Some sameGuidance"
    by (rule settled_process[OF cureIssue_settled])
  moreover have "guidance (fst ?d2) = Some sameGuidance"
    by (rule settled_process[OF reliefIssue_settled])
  ultimately show ?thesis by blast
qed

text \<open>
  The claim as stated bounds the similarity of every two findings of a completed result.
  With a model that answers every regeneration with the same guidance, the two findings
  of the completed audit carry the same guidance, of similarity 1 with itself.
\<close>

theorem repeated_guidance_counterexample:
  "map suggestion (violations (completedAudit stubbornModel noTranslation emailInput twoIssues))
     = [Some headedGuidance, Some headedGuidance]
   \<and> jaccardSimilarity_openaiClient headedGuidance headedGuidance = 1
   \<and> \<not> jaccardSimilarity_openaiClient headedGuidance headedGuidance < 2 / 5"
proof -
  obtain i1 i2 where u: "fst (snd (enforceIssues (js ''en'') stubbornModel
        [cureIssue, reliefIssue] ([], [], []))) = [i1, i2]"
    and g: "guidance i1 = Some sameGuidance" "guidance i2 = Some sameGuidance"
    using two_issues_updated[of "js ''en''"] by blast
  have t: "arrayOr (resp_issues twoIssues) [] = [cureIssue, reliefIssue]"
    by (simp add: twoIssues_def arrayOr_def)
  have "violations (completedAudit stubbornModel noTranslation emailInput twoIssues)
      = [normalizeIssue (js ''en'') emailInput noTranslation 0 i1,
         normalizeIssue (js ''en'') emailInput noTranslation (Suc 0) i2]"
    unfolding completedAudit_violations emailInput_english t u by simp
  then have "map suggestion (violations
        (completedAudit stubbornModel noTranslation emailInput twoIssues))
      = [Some headedGuidance, Some headedGuidance]"
    by (simp add: normalizeIssue_suggestion[OF g(1)] normalizeIssue_suggestion[OF g(2)])
  then show ?thesis by (simp add: headedGuidance_self)
qed

end
